(* ===== verification/QoS_Prelude.thy ===== *)
theory QoS_Prelude
  imports Main "HOL-Library.AList" "HOL-Library.Sublist"
begin

text \<open>
  The prelude of the development: the parts of the JavaScript language and of its standard
  library that several components use (strings, arrays, objects as ordered association lists,
  settled promises), the collections of rewrite rules, and generic lemmas.

  A JavaScript string is a \<^typ>\<open>string\<close>, that is, a list of 8-bit characters: the program's
  keys, URLs and messages are ASCII.  An object used as a dictionary is an association list in
  insertion order; assignment is \<^const>\<open>AList.update\<close>, which overwrites in place and appends
  a new key at the end, as property creation does.
\<close>

named_theorems js_string "equations of the string library"
named_theorems js_keys "separation facts of the database key prefixes"

section \<open>Settled promises\<close>

text \<open>What a caller of an asynchronous operation can observe: a value, a rejection, or nothing
  at all (the promise stays pending for ever).\<close>

datatype ('a, 'e) promise = Fulfilled 'a | Rejected 'e | Unsettled

fun is_settled :: "('a, 'e) promise \<Rightarrow> bool" where
  "is_settled Unsettled = False"
| "is_settled _ = True"

section \<open>Arrays\<close>

text \<open>Reading an array out of range gives \<open>undefined\<close>, here \<^const>\<open>None\<close>.\<close>

definition js_nth :: "'a list \<Rightarrow> nat \<Rightarrow> 'a option" where
  "js_nth xs i = (if i < length xs then Some (xs ! i) else None)"

text \<open>\<open>indexOf\<close>: the first position, or \<open>-1\<close>.\<close>

fun js_index_from :: "nat \<Rightarrow> 'a list \<Rightarrow> 'a \<Rightarrow> int" where
  "js_index_from n [] y = - 1"
| "js_index_from n (x # xs) y = (if x = y then int n else js_index_from (Suc n) xs y)"

definition js_index_of :: "'a list \<Rightarrow> 'a \<Rightarrow> int" where
  "js_index_of xs y = js_index_from 0 xs y"

section \<open>Strings\<close>

text \<open>\<open>split\<close> on a non-empty separator: scan left to right, skipping each occurrence.\<close>

fun js_split_from :: "string \<Rightarrow> string \<Rightarrow> string \<Rightarrow> string list" where
  "js_split_from sep acc [] = [rev acc]"
| "js_split_from sep acc (c # cs) =
     (if prefix sep (c # cs) then rev acc # js_split_from sep [] (drop (length sep - 1) cs)
      else js_split_from sep (c # acc) cs)"

definition js_split :: "string \<Rightarrow> string \<Rightarrow> string list" where
  "js_split s sep = (if sep = [] then map (\<lambda>c. [c]) s else js_split_from sep [] s)"

fun js_join :: "string \<Rightarrow> string list \<Rightarrow> string" where
  "js_join sep [] = []"
| "js_join sep [x] = x"
| "js_join sep (x # y # ys) = x @ sep @ js_join sep (y # ys)"

text \<open>\<open>replace\<close> with a string pattern: the first occurrence only.\<close>

fun js_replace :: "string \<Rightarrow> string \<Rightarrow> string \<Rightarrow> string" where
  "js_replace pat rep [] = (if pat = [] then rep else [])"
| "js_replace pat rep (c # cs) =
     (if prefix pat (c # cs) then rep @ drop (length pat) (c # cs)
      else c # js_replace pat rep cs)"

definition js_lower_char :: "char \<Rightarrow> char" where
  "js_lower_char c = (if 65 \<le> (of_char c :: nat) \<and> (of_char c :: nat) \<le> 90
     then char_of ((of_char c :: nat) + 32) else c)"

definition js_lower :: "string \<Rightarrow> string" where
  "js_lower s = map js_lower_char s"

definition js_upper_char :: "char \<Rightarrow> char" where
  "js_upper_char c = (if 97 \<le> (of_char c :: nat) \<and> (of_char c :: nat) \<le> 122
     then char_of ((of_char c :: nat) - 32) else c)"

definition js_upper :: "string \<Rightarrow> string" where
  "js_upper s = map js_upper_char s"

section \<open>Plain objects used as dictionaries\<close>

text \<open>Every object literal inherits these members, so \<open>obj[k] != undefined\<close> holds for them.\<close>

definition object_members :: "string list" where
  "object_members = [''constructor'', ''__defineGetter__'', ''__defineSetter__'', ''hasOwnProperty'',
     ''__lookupGetter__'', ''__lookupSetter__'', ''isPrototypeOf'', ''propertyIsEnumerable'',
     ''toString'', ''valueOf'', ''__proto__'', ''toLocaleString'']"

section \<open>Lemmas on arrays and strings\<close>

lemma js_nth_in [simp]: "i < length xs \<Longrightarrow> js_nth xs i = Some (xs ! i)"
  by (simp add: js_nth_def)

lemma js_nth_out [simp]: "length xs \<le> i \<Longrightarrow> js_nth xs i = None"
  by (simp add: js_nth_def)

lemma js_nth_Some_mem: "js_nth xs i = Some x \<Longrightarrow> x \<in> set xs"
  by (auto simp: js_nth_def split: if_splits)

lemma js_index_from_mem: "js_index_from n xs y = - 1 \<longleftrightarrow> y \<notin> set xs"
  by (induction xs arbitrary: n) auto

lemma js_index_of_mem [simp]: "js_index_of xs y = - 1 \<longleftrightarrow> y \<notin> set xs"
  by (simp add: js_index_of_def js_index_from_mem)

lemma js_replace_prefix [js_string]: "js_replace pat rep (pat @ s) = rep @ s"
proof (cases "pat @ s")
  case (Cons a t)
  then have "prefix pat (a # t)" by (metis prefixI)
  moreover from Cons have "drop (length pat) (a # t) = s" by (metis append_eq_conv_conj)
  ultimately show ?thesis unfolding Cons by simp
qed simp

lemma js_split_from_free:
  assumes "c \<notin> set s"
  shows "js_split_from [c] acc s = [rev acc @ s]"
  using assms by (induction s arbitrary: acc) auto

lemma js_split_free [js_string]: "c \<notin> set s \<Longrightarrow> js_split s [c] = [s]"
  by (simp add: js_split_def js_split_from_free)

lemma js_split_from_cons:
  assumes "c \<notin> set s"
  shows "js_split_from [c] acc (s @ c # t) = (rev acc @ s) # js_split_from [c] [] t"
  using assms by (induction s arbitrary: acc) auto

lemma js_split_cons [js_string]: "c \<notin> set s \<Longrightarrow> js_split (s @ c # t) [c] = s # js_split t [c]"
  by (simp add: js_split_def js_split_from_cons)

lemma js_split_from_ne [simp]: "js_split_from sep acc s \<noteq> []"
  by (induction sep acc s rule: js_split_from.induct) auto

lemma js_join_Cons [js_string]: "ys \<noteq> [] \<Longrightarrow> js_join sep (y # ys) = y @ sep @ js_join sep ys"
  by (cases ys) auto

lemma js_join_split_from:
  "sep \<noteq> [] \<Longrightarrow> js_join sep (js_split_from sep acc s) = rev acc @ s"
proof (induction sep acc s rule: js_split_from.induct)
  case (2 sep acc c cs)
  show ?case
  proof (cases "prefix sep (c # cs)")
    case True
    then obtain t where t: "c # cs = sep @ t" by (auto simp: prefix_def)
    with 2(3) have "drop (length sep - 1) cs = t"
      by (metis append_eq_conv_conj drop_Suc_Cons length_greater_0_conv Suc_pred')
    with True 2(1)[OF True 2(3)] have "js_join sep (js_split_from sep acc (c # cs)) = rev acc @ sep @ t"
      by (simp add: js_join_Cons)
    with t show ?thesis by simp
  next
    case False
    with 2(2)[OF False 2(3)] show ?thesis by simp
  qed
qed simp

lemma js_join_split: "sep \<noteq> [] \<Longrightarrow> js_join sep (js_split s sep) = s"
  by (simp add: js_split_def js_join_split_from)

section \<open>Lemmas on association lists\<close>

lemma map_of_update [simp]: "map_of (AList.update k v al) = (map_of al)(k \<mapsto> v)"
  by (simp add: update_conv')

lemma set_update_keys: "fst ` set (AList.update k v al) = insert k (fst ` set al)"
  by (simp add: dom_update flip: dom_map_of_conv_image_fst)

lemma distinct_update_keys:
  "distinct (map fst al) \<Longrightarrow> distinct (map fst (AList.update k v al))"
  by (rule distinct_update)

lemma update_new: "k \<notin> fst ` set al \<Longrightarrow> AList.update k v al = al @ [(k, v)]"
  by (induction al) auto

end
