(* ===== verification/JS_Number.thy ===== *)
theory JS_Number
  imports QoS_Prelude Complex_Main "HOL-Library.Log_Nat"
begin

text \<open>
  JavaScript numbers.  A Number is an IEEE 754 double; its finite values are rationals of the
  form \<open>m * 2^e\<close>, so a finite Number is kept as the rational it denotes and every operation
  rounds its exact result to the nearest double, ties to even (\<open>js_rnd\<close>).  Minus zero and
  zero are one value: the program has no operation that tells them apart.

  The theory also has the conversions the program uses: \<open>parseInt\<close>, \<open>Number\<close>, the conversion
  of a number to a string, \<open>toFixed\<close>, \<open>toString(radix)\<close>, and \<open>Math.round\<close>.  The lemmas show
  that rounding is monotone and is the identity on dyadic rationals of 53 significant bits,
  hence on every integer up to \<open>2^53\<close> and on its multiples by powers of two.
\<close>

section \<open>Rounding to a double\<close>

datatype jsnum = NaN | PInf | NInf | Fin rat

text \<open>The largest \<open>k\<close> with \<open>2^k \<le> q\<close>, for positive \<open>q\<close>; likewise for base 10.\<close>

definition flog :: "nat \<Rightarrow> rat \<Rightarrow> int" where
  "flog b q = (if 1 \<le> q then int (floorlog b (nat \<lfloor>q\<rfloor>)) - 1
     else - int (floorlog b (nat (\<lceil>1 / q\<rceil> - 1))))"

text \<open>Round to the nearest integer, ties to even.\<close>

definition rne :: "rat \<Rightarrow> int" where
  "rne q = (let f = \<lfloor>q\<rfloor>; d = q - of_int f in
     if d < 1 / 2 then f else if 1 / 2 < d then f + 1 else if even f then f else f + 1)"

text \<open>The exponent of the unit in the last place: 53 significant bits, none below \<open>2^-1074\<close>.\<close>

definition ulp_exp :: "rat \<Rightarrow> int" where
  "ulp_exp q = max (flog 2 q - 52) (- 1074)"

definition rnd_pos :: "rat \<Rightarrow> rat" where
  "rnd_pos q = of_int (rne (q / 2 powi ulp_exp q)) * 2 powi ulp_exp q"

definition js_rnd :: "rat \<Rightarrow> jsnum" where
  "js_rnd q = (if q = 0 then Fin 0
     else if 0 < q then (let r = rnd_pos q in if 2 powi 1024 \<le> r then PInf else Fin r)
     else (let r = rnd_pos (- q) in if 2 powi 1024 \<le> r then NInf else Fin (- r)))"

section \<open>Arithmetic and comparison\<close>

fun js_neg :: "jsnum \<Rightarrow> jsnum" where
  "js_neg NaN = NaN"
| "js_neg PInf = NInf"
| "js_neg NInf = PInf"
| "js_neg (Fin q) = Fin (- q)"

fun js_add :: "jsnum \<Rightarrow> jsnum \<Rightarrow> jsnum" where
  "js_add (Fin p) (Fin q) = js_rnd (p + q)"
| "js_add NaN _ = NaN"
| "js_add _ NaN = NaN"
| "js_add PInf NInf = NaN"
| "js_add NInf PInf = NaN"
| "js_add PInf _ = PInf"
| "js_add NInf _ = NInf"
| "js_add _ PInf = PInf"
| "js_add _ NInf = NInf"

definition js_sub :: "jsnum \<Rightarrow> jsnum \<Rightarrow> jsnum" where
  "js_sub a b = js_add a (js_neg b)"

definition inf_sgn :: "rat \<Rightarrow> jsnum" where
  "inf_sgn s = (if s = 0 then NaN else if 0 < s then PInf else NInf)"

fun num_sgn :: "jsnum \<Rightarrow> rat" where
  "num_sgn PInf = 1"
| "num_sgn NInf = - 1"
| "num_sgn (Fin q) = sgn q"
| "num_sgn NaN = 0"

fun js_mul :: "jsnum \<Rightarrow> jsnum \<Rightarrow> jsnum" where
  "js_mul (Fin p) (Fin q) = js_rnd (p * q)"
| "js_mul NaN _ = NaN"
| "js_mul _ NaN = NaN"
| "js_mul a b = inf_sgn (num_sgn a * num_sgn b)"

fun js_div :: "jsnum \<Rightarrow> jsnum \<Rightarrow> jsnum" where
  "js_div (Fin p) (Fin q) = (if q = 0 then inf_sgn p else js_rnd (p / q))"
| "js_div NaN _ = NaN"
| "js_div _ NaN = NaN"
| "js_div (Fin p) _ = Fin 0"
| "js_div a (Fin q) = (if 0 \<le> q then a else js_neg a)"
| "js_div _ _ = NaN"

fun js_lt :: "jsnum \<Rightarrow> jsnum \<Rightarrow> bool" where
  "js_lt (Fin p) (Fin q) = (p < q)"
| "js_lt NaN _ = False"
| "js_lt _ NaN = False"
| "js_lt NInf b = (b \<noteq> NInf)"
| "js_lt _ NInf = False"
| "js_lt _ PInf = True"
| "js_lt PInf _ = False"

definition js_gt :: "jsnum \<Rightarrow> jsnum \<Rightarrow> bool" where
  "js_gt a b = js_lt b a"

text \<open>\<open>===\<close> on numbers: \<open>NaN\<close> is not equal to itself.\<close>

definition js_eq :: "jsnum \<Rightarrow> jsnum \<Rightarrow> bool" where
  "js_eq a b = (a \<noteq> NaN \<and> a = b)"

text \<open>\<open>Math.round\<close> and \<open>Math.floor\<close>: an integral result of a double is again a double.\<close>

fun js_round :: "jsnum \<Rightarrow> jsnum" where
  "js_round (Fin q) = Fin (of_int \<lfloor>q + 1 / 2\<rfloor>)"
| "js_round a = a"

fun js_floor :: "jsnum \<Rightarrow> jsnum" where
  "js_floor (Fin q) = Fin (of_int \<lfloor>q\<rfloor>)"
| "js_floor a = a"

abbreviation js_int :: "int \<Rightarrow> jsnum" where
  "js_int n \<equiv> Fin (of_int n)"

section \<open>Strings of digits\<close>

definition digit_value :: "char \<Rightarrow> nat option" where
  "digit_value c = (let n = (of_char c :: nat) in
     if 48 \<le> n \<and> n \<le> 57 then Some (n - 48)
     else if 97 \<le> n \<and> n \<le> 122 then Some (n - 87)
     else if 65 \<le> n \<and> n \<le> 90 then Some (n - 55) else None)"

definition is_digit :: "nat \<Rightarrow> char \<Rightarrow> bool" where
  "is_digit b c = (case digit_value c of None \<Rightarrow> False | Some d \<Rightarrow> d < b)"

definition digits_value :: "nat \<Rightarrow> string \<Rightarrow> nat" where
  "digits_value b s = foldl (\<lambda>acc c. acc * b + the (digit_value c)) 0 s"

definition digit_char :: "nat \<Rightarrow> char" where
  "digit_char d = (if d < 10 then char_of (48 + d) else char_of (87 + d))"

text \<open>\<open>toString(radix)\<close> on a natural number.\<close>

fun nat_to_base :: "nat \<Rightarrow> nat \<Rightarrow> string" where
  "nat_to_base b n = (if b < 2 \<or> n < b then [digit_char n]
     else nat_to_base b (n div b) @ [digit_char (n mod b)])"

declare nat_to_base.simps [simp del]

section \<open>Reading numbers\<close>

definition is_js_space :: "char \<Rightarrow> bool" where
  "is_js_space c = ((of_char c :: nat) \<in> {9, 10, 11, 12, 13, 32, 160})"

fun split_sign :: "string \<Rightarrow> bool \<times> string" where
  "split_sign [] = (False, [])"
| "split_sign (c # cs) = (if c = CHR ''-'' then (True, cs) else if c = CHR ''+'' then (False, cs)
     else (False, c # cs))"

definition signed_rnd :: "bool \<Rightarrow> rat \<Rightarrow> jsnum" where
  "signed_rnd neg q = js_rnd (if neg then - q else q)"

text \<open>\<open>parseInt(s)\<close> without a radix: leading white space, a sign, a \<open>0x\<close> prefix, then the
  longest run of digits; no digit at all gives \<open>NaN\<close>.\<close>

definition js_parseInt :: "string \<Rightarrow> jsnum" where
  "js_parseInt s =
     (let (neg, s1) = split_sign (dropWhile is_js_space s);
          hex = prefix ''0x'' s1 \<or> prefix ''0X'' s1;
          b = (if hex then 16 else 10);
          ds = takeWhile (is_digit b) (if hex then drop 2 s1 else s1)
      in if ds = [] then NaN else signed_rnd neg (of_nat (digits_value b ds)))"

definition js_trim :: "string \<Rightarrow> string" where
  "js_trim s = rev (dropWhile is_js_space (rev (dropWhile is_js_space s)))"

text \<open>The exponent part of a decimal literal: nothing, or \<open>e\<close>, a sign and digits to the end.\<close>

definition exponent_part :: "string \<Rightarrow> int option" where
  "exponent_part s = (case s of [] \<Rightarrow> Some 0
     | c # cs \<Rightarrow> (let (neg, ds) = split_sign cs in
         if (c = CHR ''e'' \<or> c = CHR ''E'') \<and> ds \<noteq> [] \<and> list_all (is_digit 10) ds
         then Some ((if neg then - 1 else 1) * int (digits_value 10 ds)) else None))"

text \<open>An unsigned decimal literal, as the exact rational it denotes.\<close>

definition decimal_literal :: "string \<Rightarrow> rat option" where
  "decimal_literal s =
     (let ip = takeWhile (is_digit 10) s; r = drop (length ip) s;
          (fp, r') = (case r of c # cs \<Rightarrow> if c = CHR ''.''
                        then (takeWhile (is_digit 10) cs, dropWhile (is_digit 10) cs) else ([], r)
                      | [] \<Rightarrow> ([], []))
      in if ip = [] \<and> fp = [] then None
         else map_option (\<lambda>e. of_nat (digits_value 10 (ip @ fp)) * 10 powi (e - int (length fp)))
                (exponent_part r'))"

definition radix_literal :: "nat \<Rightarrow> string \<Rightarrow> jsnum" where
  "radix_literal b ds = (if ds \<noteq> [] \<and> list_all (is_digit b) ds
     then js_rnd (of_nat (digits_value b ds)) else NaN)"

text \<open>\<open>Number(s)\<close> on a string.\<close>

definition js_Number :: "string \<Rightarrow> jsnum" where
  "js_Number s0 =
     (let s = js_trim s0; (neg, s1) = split_sign s in
      if s = [] then Fin 0
      else if prefix ''0x'' s \<or> prefix ''0X'' s then radix_literal 16 (drop 2 s)
      else if prefix ''0o'' s \<or> prefix ''0O'' s then radix_literal 8 (drop 2 s)
      else if prefix ''0b'' s \<or> prefix ''0B'' s then radix_literal 2 (drop 2 s)
      else if s1 = ''Infinity'' then (if neg then NInf else PInf)
      else (case decimal_literal s1 of None \<Rightarrow> NaN | Some q \<Rightarrow> signed_rnd neg q))"

text \<open>\<open>parseFloat(s)\<close>: the longest prefix that is a decimal literal.\<close>

definition js_parseFloat :: "string \<Rightarrow> jsnum" where
  "js_parseFloat s0 =
     (let (neg, s) = split_sign (dropWhile is_js_space s0) in
      if prefix ''Infinity'' s then (if neg then NInf else PInf)
      else (case find (\<lambda>n. decimal_literal (take n s) \<noteq> None) (rev [0..<Suc (length s)]) of
              None \<Rightarrow> NaN | Some n \<Rightarrow> signed_rnd neg (the (decimal_literal (take n s)))))"

definition js_isNaN :: "string \<Rightarrow> bool" where
  "js_isNaN s = (js_Number s = NaN)"

section \<open>Writing numbers\<close>

text \<open>The shortest decimal that reads back as the same double: the significant digits as a
  natural number and the power of ten they are multiplied by.\<close>

definition shortest_at :: "rat \<Rightarrow> nat \<Rightarrow> (nat \<times> int) option" where
  "shortest_at q k =
     (let e = flog 10 q + 1 - int k; lo = nat \<lfloor>q / 10 powi e\<rfloor>; hi = Suc lo;
          ok = (\<lambda>c. 0 < c \<and> js_rnd (of_nat c * 10 powi e) = Fin q);
          dlo = q / 10 powi e - of_nat lo
      in if ok lo \<and> (\<not> ok hi \<or> dlo < 1 / 2 \<or> dlo = 1 / 2 \<and> even lo) then Some (lo, e)
         else if ok hi then Some (hi, e) else None)"

fun shortest_from :: "rat \<Rightarrow> nat \<Rightarrow> nat \<Rightarrow> nat \<times> int" where
  "shortest_from q k 0 = (nat \<lfloor>q\<rfloor>, 0)"
| "shortest_from q k (Suc f) =
     (case shortest_at q k of Some r \<Rightarrow> r | None \<Rightarrow> shortest_from q (Suc k) f)"

definition strip_zeros :: "string \<Rightarrow> string" where
  "strip_zeros s = rev (dropWhile (\<lambda>c. c = CHR ''0'') (rev s))"

text \<open>Layout of significant digits \<open>ds\<close> with the decimal point after position \<open>n\<close>.\<close>

definition layout_digits :: "string \<Rightarrow> int \<Rightarrow> string" where
  "layout_digits ds n =
     (let k = int (length ds) in
      if k \<le> n \<and> n \<le> 21 then ds @ replicate (nat (n - k)) (CHR ''0'')
      else if 0 < n \<and> n \<le> 21 then take (nat n) ds @ ''.'' @ drop (nat n) ds
      else if - 6 < n \<and> n \<le> 0 then ''0.'' @ replicate (nat (- n)) (CHR ''0'') @ ds
      else (if length ds \<le> 1 then ds else take 1 ds @ ''.'' @ drop 1 ds) @ ''e''
        @ (if 0 < n then ''+'' else ''-'') @ nat_to_base 10 (nat \<bar>n - 1\<bar>))"

definition pos_to_string :: "rat \<Rightarrow> string" where
  "pos_to_string q =
     (if q = of_int \<lfloor>q\<rfloor> \<and> q \<le> 2 ^ 53 then nat_to_base 10 (nat \<lfloor>q\<rfloor>)
      else let (d, e) = shortest_from q 1 17; s = nat_to_base 10 d
           in layout_digits (strip_zeros s) (e + int (length s)))"

text \<open>Number to string: integers up to \<open>2^53\<close> print exactly, other values print the shortest
  decimal (17 significant digits always suffice for a double).\<close>

fun js_to_string :: "jsnum \<Rightarrow> string" where
  "js_to_string NaN = ''NaN''"
| "js_to_string PInf = ''Infinity''"
| "js_to_string NInf = ''-Infinity''"
| "js_to_string (Fin q) = (if q = 0 then ''0'' else if 0 < q then pos_to_string q
     else ''-'' @ pos_to_string (- q))"

definition js_parseInt_num :: "jsnum \<Rightarrow> jsnum" where
  "js_parseInt_num x = js_parseInt (js_to_string x)"

text \<open>\<open>toFixed(f)\<close>: the nearest multiple of \<open>10^-f\<close>, the larger one of two.\<close>

definition fixed_pos :: "nat \<Rightarrow> rat \<Rightarrow> string" where
  "fixed_pos f q =
     (let n = nat \<lfloor>q * 10 ^ f + 1 / 2\<rfloor>; s = nat_to_base 10 n;
          z = replicate (Suc f - length s) (CHR ''0'') @ s
      in if f = 0 then s else take (length z - f) z @ ''.'' @ drop (length z - f) z)"

fun js_toFixed :: "nat \<Rightarrow> jsnum \<Rightarrow> string" where
  "js_toFixed f (Fin q) = (if 10 ^ 21 \<le> \<bar>q\<bar> then js_to_string (Fin q)
     else if q < 0 then ''-'' @ fixed_pos f (- q) else fixed_pos f q)"
| "js_toFixed f a = js_to_string a"

text \<open>\<open>x | 0\<close>: truncate and wrap to a signed 32-bit integer.\<close>

fun js_to_int32 :: "jsnum \<Rightarrow> int" where
  "js_to_int32 (Fin q) =
     (let n = (if 0 \<le> q then \<lfloor>q\<rfloor> else \<lceil>q\<rceil>) mod 2 ^ 32 in if n < 2 ^ 31 then n else n - 2 ^ 32)"
| "js_to_int32 _ = 0"

text \<open>\<open>x % y\<close> on finite numbers: the exact remainder with the sign of \<open>x\<close>.\<close>

definition js_mod :: "rat \<Rightarrow> rat \<Rightarrow> rat" where
  "js_mod p q = (let t = p / q in p - q * of_int (if 0 \<le> t then \<lfloor>t\<rfloor> else \<lceil>t\<rceil>))"

section \<open>JavaScript values\<close>

datatype jsval = JUndef | JNull | JBool bool | JNum jsnum | JStr string
  | JArr "jsval list" | JObj "(string \<times> jsval) list"

text \<open>Property access; on \<open>undefined\<close> and \<open>null\<close> it throws a TypeError, which is \<^const>\<open>None\<close>.\<close>

fun js_get :: "jsval \<Rightarrow> string \<Rightarrow> jsval option" where
  "js_get JUndef k = None"
| "js_get JNull k = None"
| "js_get (JObj al) k = Some (case map_of al k of None \<Rightarrow> JUndef | Some v \<Rightarrow> v)"
| "js_get _ k = Some JUndef"

text \<open>The conversion of a condition to a Boolean.\<close>

fun truthy :: "jsval \<Rightarrow> bool" where
  "truthy JUndef = False"
| "truthy JNull = False"
| "truthy (JBool b) = b"
| "truthy (JNum n) = (n \<noteq> NaN \<and> n \<noteq> Fin 0)"
| "truthy (JStr s) = (s \<noteq> [])"
| "truthy _ = True"

text \<open>A field of a value that is an object.\<close>

definition attr :: "jsval \<Rightarrow> string \<Rightarrow> jsval" where
  "attr e k = (case js_get e k of Some v \<Rightarrow> v | None \<Rightarrow> JUndef)"

text \<open>The parts of a value that is an array, an object or a string.\<close>

fun arr_items :: "jsval \<Rightarrow> jsval list" where
  "arr_items (JArr xs) = xs"
| "arr_items _ = []"

fun str_of :: "jsval \<Rightarrow> string" where
  "str_of (JStr s) = s"
| "str_of _ = []"

fun obj_items :: "jsval \<Rightarrow> (string \<times> jsval) list" where
  "obj_items (JObj al) = al"
| "obj_items _ = []"

text \<open>Property assignment on an object.\<close>

fun js_put :: "jsval \<Rightarrow> string \<Rightarrow> jsval \<Rightarrow> jsval option" where
  "js_put (JObj al) k v = Some (JObj (AList.update k v al))"
| "js_put JUndef k v = None"
| "js_put JNull k v = None"
| "js_put x k v = Some x"

definition set_attr :: "jsval \<Rightarrow> string \<Rightarrow> jsval \<Rightarrow> jsval" where
  "set_attr e k v = (case js_put e k v of Some e' \<Rightarrow> e' | None \<Rightarrow> e)"

text \<open>\<open>Number(v)\<close> of the values the program converts: strings, numbers, missing values.\<close>

fun to_number :: "jsval \<Rightarrow> jsnum" where
  "to_number (JStr s) = js_Number s"
| "to_number (JNum n) = n"
| "to_number JNull = Fin 0"
| "to_number (JBool b) = (if b then Fin 1 else Fin 0)"
| "to_number _ = NaN"

text \<open>An optional string as a value, and in a string concatenation.\<close>

definition opt_val :: "string option \<Rightarrow> jsval" where
  "opt_val x = (case x of None \<Rightarrow> JUndef | Some s \<Rightarrow> JStr s)"

definition opt_str :: "string option \<Rightarrow> string" where
  "opt_str x = (case x of None \<Rightarrow> ''undefined'' | Some s \<Rightarrow> s)"

text \<open>\<open>String(v)\<close>.\<close>

fun to_string_val :: "jsval \<Rightarrow> string" and elem_strings :: "jsval list \<Rightarrow> string list" where
  "to_string_val JUndef = ''undefined''"
| "to_string_val JNull = ''null''"
| "to_string_val (JBool b) = (if b then ''true'' else ''false'')"
| "to_string_val (JNum n) = js_to_string n"
| "to_string_val (JStr s) = s"
| "to_string_val (JObj al) = ''[object Object]''"
| "to_string_val (JArr vs) = js_join '','' (elem_strings vs)"
| "elem_strings [] = []"
| "elem_strings (v # vs) = (if v = JUndef \<or> v = JNull then '''' else to_string_val v) # elem_strings vs"

text \<open>\<open>JSON.stringify\<close> of a string.\<close>

definition json_escape :: "char \<Rightarrow> string" where
  "json_escape c =
     (if c = CHR 0x22 \<or> c = CHR 0x5C then [CHR 0x5C, c]
      else if c = CHR 0x08 then [CHR 0x5C, CHR ''b''] else if c = CHR 0x0C then [CHR 0x5C, CHR ''f'']
      else if c = CHR 0x0A then [CHR 0x5C, CHR ''n''] else if c = CHR 0x0D then [CHR 0x5C, CHR ''r'']
      else if c = CHR 0x09 then [CHR 0x5C, CHR ''t'']
      else if (of_char c :: nat) < 32
        then [CHR 0x5C] @ ''u00'' @ [digit_char (of_char c div 16), digit_char (of_char c mod 16)]
      else [c])"

definition json_quote :: "string \<Rightarrow> string" where
  "json_quote s = [CHR 0x22] @ concat (map json_escape s) @ [CHR 0x22]"

section \<open>Rounding is exact on short dyadics and monotone\<close>

lemma flog_bounds:
  assumes "2 \<le> b" and "0 < q"
  shows "of_nat b powi flog b q \<le> q \<and> q < of_nat b powi (flog b q + 1)"
proof (cases "1 \<le> q")
  case True
  define n where "n = nat \<lfloor>q\<rfloor>"
  have n: "0 < n" and nq: "of_nat n \<le> q" "q < of_nat n + 1"
    using True by (auto simp: n_def of_nat_nat le_nat_iff) linarith+
  have fl: "0 < floorlog b n" using assms(1) n by (simp add: floorlog_def)
  have lo: "b ^ (floorlog b n - 1) \<le> n" and hi: "n < b ^ floorlog b n"
    using floorlog_bounds[of n b] assms(1) n by auto
  have "of_nat b powi flog b q = (of_nat (b ^ (floorlog b n - 1)) :: rat)"
    using fl True by (simp add: flog_def n_def[symmetric] power_int_def nat_diff_distrib)
  moreover have "of_nat b powi (flog b q + 1) = (of_nat (b ^ floorlog b n) :: rat)"
    using fl True by (simp add: flog_def n_def[symmetric] power_int_def)
  moreover have "(of_nat (b ^ (floorlog b n - 1)) :: rat) \<le> of_nat n"
    using lo of_nat_le_iff by blast
  moreover have "(of_nat n + 1 :: rat) \<le> of_nat (b ^ floorlog b n)"
    using hi by (metis Suc_leI of_nat_Suc of_nat_le_iff add.commute)
  ultimately show ?thesis using nq by linarith
next
  case False
  define n where "n = nat (\<lceil>1 / q\<rceil> - 1)"
  have inv: "1 < 1 / q" using False assms(2) by simp
  have n: "0 < n" and nq: "of_nat n < 1 / q" "1 / q \<le> of_nat n + 1"
  proof -
    have ge2: "2 \<le> \<lceil>1 / q\<rceil>" using inv by linarith
    then show "0 < n" by (simp add: n_def)
    from ge2 have "int n = \<lceil>1 / q\<rceil> - 1" unfolding n_def by (rule_tac nat_0_le) linarith
    then have "(of_nat n :: rat) = of_int (\<lceil>1 / q\<rceil> - 1)"
      by (metis of_int_of_nat_eq)
    then show "of_nat n < 1 / q" "1 / q \<le> of_nat n + 1" by linarith+
  qed
  define m where "m = floorlog b n"
  have lo: "b ^ (m - 1) \<le> n" and hi: "n < b ^ m" and m: "0 < m"
    using floorlog_bounds[of n b] assms(1) n by (auto simp: m_def floorlog_def)
  have p: "of_nat b powi flog b q = 1 / (of_nat (b ^ m) :: rat)"
    using False by (simp add: flog_def n_def[symmetric] m_def[symmetric] power_int_minus field_simps)
  have e: "flog b q + 1 = - int (m - 1)"
    using False m by (simp add: flog_def n_def[symmetric] m_def[symmetric])
  have p1: "of_nat b powi (flog b q + 1) = 1 / (of_nat (b ^ (m - 1)) :: rat)"
    by (simp only: e) (simp add: power_int_minus field_simps)
  have "1 / q \<le> of_nat (b ^ m)" using nq(2) hi
    by (metis Suc_leI of_nat_Suc of_nat_le_iff add.commute order_trans)
  moreover have "(0::rat) < of_nat (b ^ m)" using assms(1) by simp
  ultimately have "1 / of_nat (b ^ m) \<le> q" using assms(2)
    by (simp only: pos_divide_le_eq mult.commute)
  moreover have "of_nat (b ^ (m - 1)) < 1 / q" using nq(1) lo
    by (metis of_nat_le_iff order_le_less_trans)
  then have "q < 1 / of_nat (b ^ (m - 1))"
    using assms by (simp add: field_simps)
  ultimately show ?thesis by (simp add: p p1)
qed

lemma flog2: 
  assumes "0 < q" shows "2 powi flog 2 q \<le> q" "q < 2 powi (flog 2 q + 1)"
  using flog_bounds[of 2 q] assms by auto

lemma powi2_le_iff [simp]: "(2::rat) powi a \<le> 2 powi b \<longleftrightarrow> a \<le> b"
  by (meson le_less_linear one_le_numeral one_less_numeral_iff power_int_increasing
      power_int_strict_increasing semiring_norm(76) not_less)

lemma powi2_less_iff [simp]: "(2::rat) powi a < 2 powi b \<longleftrightarrow> a < b"
  by (simp add: not_le flip: not_le)

lemma flog2_mono: "0 < p \<Longrightarrow> p \<le> q \<Longrightarrow> flog 2 p \<le> flog 2 q"
proof -
  assume "0 < p" "p \<le> q"
  then have "(2::rat) powi flog 2 p < 2 powi (flog 2 q + 1)"
    using flog2(1)[of p] flog2(2)[of q] by linarith
  then show ?thesis by simp
qed

lemma rne_of_int [simp]: "rne (of_int n) = n"
  by (simp add: rne_def)

lemma rne_mono: "p \<le> q \<Longrightarrow> rne p \<le> rne q"
proof -
  assume le: "p \<le> q"
  then have fl: "\<lfloor>p\<rfloor> \<le> \<lfloor>q\<rfloor>" by (rule floor_mono)
  show ?thesis
  proof (cases "\<lfloor>p\<rfloor> = \<lfloor>q\<rfloor>")
    case True
    with le show ?thesis by (auto simp: rne_def Let_def)
  next
    case False
    with fl show ?thesis by (auto simp: rne_def Let_def)
  qed
qed


lemma powi2_split: "(2::rat) powi (a + b) = 2 powi a * 2 powi b"
  by (simp add: power_int_add)

lemma powi2_nat: "0 \<le> a \<Longrightarrow> (2::rat) powi a = of_int (2 ^ nat a)"
  by (simp add: power_int_def)

lemma powi2_quot: "(2::rat) powi a / 2 powi b = 2 powi (a - b)"
  by (simp add: power_int_diff)

text \<open>Rounding is exact on dyadic rationals with 53 significant bits.\<close>

lemma rnd_pos_dyadic:
  assumes "0 < m" and "m \<le> 2 ^ 53" and "- 1074 \<le> e"
  shows "rnd_pos (of_int m * 2 powi e) = of_int m * 2 powi e"
proof -
  let ?q = "of_int m * 2 powi e :: rat" and ?u = "ulp_exp (of_int m * 2 powi e)"
  have q: "0 < ?q" using assms(1) by simp
  have "\<exists>n. ?q / 2 powi ?u = of_int n"
  proof (cases "?u \<le> e")
    case True
    then have "?q / 2 powi ?u = of_int (m * 2 ^ nat (e - ?u))"
      by (simp add: powi2_quot powi2_nat flip: times_divide_eq_right)
    then show ?thesis by blast
  next
    case False
    with assms(3) have u: "?u = flog 2 ?q - 52" by (simp add: ulp_exp_def)
    have "(of_int m :: rat) \<le> 2 ^ 53" using assms(2)
      by (metis of_int_le_iff of_int_numeral of_int_power)
    then have m: "(of_int m :: rat) \<le> 2 powi 53" by simp
    have "2 powi flog 2 ?q \<le> ?q" using flog2(1)[OF q] .
    also have "?q \<le> 2 powi 53 * 2 powi e" using m by (intro mult_right_mono) auto
    finally have le: "2 powi flog 2 ?q \<le> (2::rat) powi (53 + e)" by (simp add: powi2_split)
    then have ee: "flog 2 ?q = 53 + e" using u False by simp
    with flog2(1)[OF q] have "2 powi 53 * 2 powi e \<le> ?q" by (simp add: powi2_split)
    with m have "?q = 2 powi (53 + e)" by (simp add: powi2_split)
    then have "?q / 2 powi ?u = 2 powi 52" using u ee by (simp add: powi2_quot)
    then show ?thesis by (metis of_int_numeral of_int_power power_int_numeral)
  qed
  then obtain n where "?q / 2 powi ?u = of_int n" by blast
  then show ?thesis unfolding rnd_pos_def
    by (metis nonzero_eq_divide_eq power_int_not_zero rne_of_int zero_neq_numeral)
qed

lemma rnd_pos_mono:
  assumes "0 < p" and "p \<le> q"
  shows "rnd_pos p \<le> rnd_pos q"
proof -
  let ?a = "ulp_exp p" and ?b = "ulp_exp q"
  have ab: "?a \<le> ?b" using flog2_mono[OF assms] by (simp add: ulp_exp_def)
  show ?thesis
  proof (cases "?a = ?b")
    case True
    have "p / 2 powi ?a \<le> q / 2 powi ?a" using assms by (simp add: divide_right_mono)
    then show ?thesis using True rne_mono by (auto simp: rnd_pos_def intro!: mult_right_mono)
  next
    case False
    define k where "k = flog 2 q"
    from False ab have b: "?b = k - 52" and fk: "flog 2 p + 1 \<le> k"
      by (auto simp: ulp_exp_def k_def split: if_splits)
    have ak: "?a < k" using False ab b by simp
    have "(2::rat) powi k \<le> q" using flog2(1)[of q] assms by (simp add: k_def)
    then have "2 powi 52 * 2 powi (k - 52) \<le> q" by (simp only: powi2_split[symmetric]) simp
    then have "2 powi 52 \<le> q / 2 powi ?b" unfolding b by (simp add: pos_le_divide_eq)
    then have "rne (of_int (2 ^ 52)) \<le> rne (q / 2 powi ?b)"
      by (intro rne_mono) simp
    then have "(2 ^ 52 :: int) \<le> rne (q / 2 powi ?b)" by (simp only: rne_of_int)
    then have "(2 ^ 52 :: rat) \<le> of_int (rne (q / 2 powi ?b))"
      by (metis of_int_le_iff of_int_numeral of_int_power)
    then have "2 powi 52 * 2 powi ?b \<le> rnd_pos q"
      unfolding rnd_pos_def by (intro mult_right_mono) auto
    then have q: "2 powi k \<le> rnd_pos q" unfolding b by (simp only: powi2_split[symmetric]) simp
    have "p \<le> 2 powi k" using flog2(2)[OF assms(1)] fk
      by (meson less_imp_le order_trans powi2_le_iff)
    then have "p / 2 powi ?a \<le> 2 powi (k - ?a)"
      by (simp add: pos_divide_le_eq flip: powi2_split)
    also have "\<dots> = of_int (2 ^ nat (k - ?a))" using ak by (simp add: powi2_nat)
    finally have "rne (p / 2 powi ?a) \<le> 2 ^ nat (k - ?a)"
      using rne_mono rne_of_int by metis
    then have "of_int (rne (p / 2 powi ?a)) \<le> (2::rat) powi (k - ?a)"
      using ak by (metis less_imp_le diff_ge_0_iff_ge of_int_le_iff powi2_nat)
    then have "rnd_pos p \<le> 2 powi (k - ?a) * 2 powi ?a"
      unfolding rnd_pos_def by (intro mult_right_mono) auto
    with q show ?thesis by (simp flip: powi2_split)
  qed
qed

lemma rnd_pos_int: "0 < n \<Longrightarrow> n \<le> 2 ^ 53 \<Longrightarrow> rnd_pos (of_int n) = of_int n"
  using rnd_pos_dyadic[of n 0] by simp

lemma js_rnd_dyadic:
  assumes "\<bar>m\<bar> \<le> 2 ^ 53" and "- 1074 \<le> e" and "e < 971"
  shows "js_rnd (of_int m * 2 powi e) = Fin (of_int m * 2 powi e)"
proof -
  have small: "of_int n * 2 powi e < (2::rat) powi 1024" if "n \<le> 2 ^ 53" for n :: int
  proof -
    have "(of_int n :: rat) \<le> 2 powi 53" using that
      by (metis of_int_le_iff of_int_numeral of_int_power power_int_numeral)
    then have "of_int n * 2 powi e \<le> (2::rat) powi 53 * 2 powi e" by (intro mult_right_mono) auto
    also have "\<dots> = 2 powi (53 + e)" by (simp only: powi2_split)
    also have "\<dots> < 2 powi 1024" using assms(3) by (simp only: powi2_less_iff)
    finally show ?thesis .
  qed
  consider "m = 0" | "0 < m" | "m < 0" by linarith
  then show ?thesis
  proof cases
    case 2
    then show ?thesis using assms small[of m] rnd_pos_dyadic[of m e] by (simp add: js_rnd_def Let_def not_le)
  next
    case 3
    have neg: "of_int m * 2 powi e < (0::rat)" using 3 by (simp add: mult_less_0_iff)
    moreover have "rnd_pos (- (of_int m * 2 powi e)) = - (of_int m * 2 powi e)"
      using 3 assms rnd_pos_dyadic[of "- m" e] by simp
    moreover have "- (of_int m * 2 powi e) < (2::rat) powi 1024" using 3 assms small[of "- m"] by simp
    ultimately show ?thesis unfolding js_rnd_def Let_def by (simp only: not_le[symmetric] if_False) auto
  qed (simp add: js_rnd_def)
qed

lemma js_rnd_int: "\<bar>n\<bar> \<le> 2 ^ 53 \<Longrightarrow> js_rnd (of_int n) = js_int n"
  using js_rnd_dyadic[of n 0] by simp

lemma js_rnd_nat: "n \<le> 2 ^ 53 \<Longrightarrow> js_rnd (of_nat n) = Fin (of_nat n)"
  using js_rnd_int[of "int n"] by (metis abs_of_nat of_int_of_nat_eq of_nat_le_iff of_nat_numeral of_nat_power)

lemma js_rnd_numeral [simp]: "numeral w \<le> (2 ^ 53 :: int) \<Longrightarrow> js_rnd (numeral w) = Fin (numeral w)"
  using js_rnd_int[of "numeral w"] by simp

lemma js_rnd_0_1 [simp]: "js_rnd 0 = Fin 0" "js_rnd 1 = Fin 1"
  using js_rnd_int[of 1] by (simp_all add: js_rnd_def)

lemma js_rnd_mono:
  assumes "js_rnd p = Fin x" and "js_rnd q = Fin y" and "p \<le> q"
  shows "x \<le> y"
proof -
  have nonneg: "0 \<le> rnd_pos r" if "0 < r" for r
    using rne_mono[of 0 "r / 2 powi ulp_exp r"] rne_of_int[of 0] that
    by (auto simp: rnd_pos_def intro!: mult_nonneg_nonneg)
  have v: "z = (if r = 0 then 0 else if 0 < r then rnd_pos r else - rnd_pos (- r))" if "js_rnd r = Fin z" for r z
    using that unfolding js_rnd_def Let_def by (auto split: if_splits)
  have x: "x = (if p = 0 then 0 else if 0 < p then rnd_pos p else - rnd_pos (- p))" by (rule v[OF assms(1)])
  have y: "y = (if q = 0 then 0 else if 0 < q then rnd_pos q else - rnd_pos (- q))" by (rule v[OF assms(2)])
  have lo: "x \<le> 0" if "p \<le> 0" using that x nonneg[of "- p"] by (simp split: if_splits)
  have hi: "0 \<le> y" if "0 \<le> q" using that y nonneg[of q] by (simp split: if_splits)
  consider "0 < p" | "p \<le> 0" "0 \<le> q" | "q < 0" by linarith
  then show ?thesis
  proof cases
    case 1
    then show ?thesis using x y assms(3) rnd_pos_mono[of p q] by simp
  next
    case 2
    then show ?thesis using lo hi by linarith
  next
    case 3
    then show ?thesis using x y assms(3) rnd_pos_mono[of "- q" "- p"] by simp
  qed
qed

lemma js_rnd_between:
  assumes "js_rnd a = Fin x" and "js_rnd b = Fin y" and "a \<le> q" and "q \<le> b" and "0 \<le> a"
  shows "\<exists>z. js_rnd q = Fin z \<and> x \<le> z \<and> z \<le> y"
proof -
  have "\<exists>z. js_rnd q = Fin z"
  proof (cases "q = 0")
    case False
    with assms have "0 < q" "rnd_pos q \<le> rnd_pos b" by (auto intro: rnd_pos_mono)
    with assms show ?thesis unfolding js_rnd_def Let_def by (auto split: if_splits)
  qed simp
  then obtain z where "js_rnd q = Fin z" by blast
  with assms show ?thesis using js_rnd_mono by blast
qed

section \<open>A random index stays in range\<close>

lemma flog2_eq: "2 powi k \<le> q \<Longrightarrow> q < 2 powi (k + 1) \<Longrightarrow> flog 2 q = k"
proof -
  assume a: "2 powi k \<le> q" "q < (2::rat) powi (k + 1)"
  moreover have "(0::rat) < 2 powi k" by simp
  ultimately have "0 < q" by linarith
  then have "(2::rat) powi flog 2 q < 2 powi (k + 1)" "(2::rat) powi k < 2 powi (flog 2 q + 1)"
    using flog2[of q] a by linarith+
  then show ?thesis by simp
qed

lemma rne_below: "q < of_int n - 1 / 2 \<Longrightarrow> rne q \<le> n - 1"
proof -
  assume q: "q < of_int n - 1 / 2"
  then have "\<lfloor>q\<rfloor> \<le> n - 1" by linarith
  moreover have "q - of_int \<lfloor>q\<rfloor> < 1 / 2" if "\<lfloor>q\<rfloor> = n - 1" using that q by simp
  ultimately show ?thesis by (cases "\<lfloor>q\<rfloor> = n - 1") (auto simp: rne_def Let_def)
qed

lemma rnd_pos_below:
  assumes "0 < n" and "n \<le> 2 ^ 53"
  shows "rnd_pos (of_int n * (1 - 1 / 2 ^ 53)) < of_int n"
proof -
  define k where "k = flog 2 (of_int n)"
  let ?x = "of_int n * (1 - 1 / 2 ^ 53) :: rat"
  have n: "(0::rat) < of_int n" using assms(1) by simp
  have lo: "2 powi k \<le> (of_int n :: rat)" and hi: "(of_int n :: rat) < 2 powi (k + 1)"
    using flog2[OF n] by (simp_all add: k_def)
  have le53: "(of_int n :: rat) \<le> 2 ^ 53" using assms(2)
    by (metis of_int_le_iff of_int_numeral of_int_power)
  have k0: "0 \<le> k"
  proof -
    have "(2::rat) powi 0 < 2 powi (k + 1)" using hi assms(1) by simp
    then show ?thesis unfolding powi2_less_iff by simp
  qed
  show ?thesis
  proof (cases "of_int n = (2::rat) powi k")
    case True
    have "?x = of_int (2 ^ 53 - 1) * 2 powi (k - 53)"
      unfolding True by (simp add: power_int_diff field_simps)
    then have "rnd_pos ?x = ?x" using rnd_pos_dyadic[of "2 ^ 53 - 1" "k - 53"] k0 by simp
    then show ?thesis using n by simp
  next
    case False
    have kn: "2 powi k = (of_int (2 ^ nat k) :: rat)" using k0 by (rule powi2_nat)
    then have "2 ^ nat k < n" using lo False by (metis of_int_le_iff of_int_eq_iff order_le_less)
    then have "(of_int (2 ^ nat k) :: rat) + 1 \<le> of_int n" by (metis of_int_1 of_int_add of_int_le_iff zless_imp_add1_zle)
    then have "2 powi k \<le> ?x" using kn le53 by (simp add: right_diff_distrib)
    moreover have "?x < 2 powi (k + 1)" using hi n by (simp add: right_diff_distrib)
    ultimately have u: "ulp_exp ?x = k - 52" using k0 by (simp add: ulp_exp_def flog2_eq)
    have "2 powi k < (2::rat) powi 53" using lo le53 False by simp
    then have k52: "k \<le> 52" unfolding powi2_less_iff by simp
    define N where "N = n * 2 ^ nat (52 - k)"
    have N: "of_int N * 2 powi (k - 52) = (of_int n :: rat)"
    proof -
      have "(of_int (2 ^ nat (52 - k)) :: rat) * 2 powi (k - 52) = 2 powi ((52 - k) + (k - 52))"
        using k52 powi2_nat[of "52 - k"] unfolding powi2_split by simp
      then show ?thesis by (simp add: N_def)
    qed
    have "?x / 2 powi (k - 52) = of_int N - of_int n / 2 powi (k + 1)"
      by (simp add: N[symmetric] power_int_diff power_int_add field_simps)
    moreover have "1 / 2 < of_int n / (2::rat) powi (k + 1)"
      using lo False by (simp add: power_int_add field_simps)
    ultimately have "rne (?x / 2 powi (k - 52)) \<le> N - 1" by (intro rne_below) simp
    then have "(of_int (rne (?x / 2 powi (k - 52))) :: rat) < of_int N" by (simp only: of_int_less_iff)
    then have "rnd_pos ?x < of_int N * 2 powi (k - 52)"
      unfolding rnd_pos_def u by (intro mult_strict_right_mono) simp_all
    then show ?thesis unfolding N .
  qed
qed

lemma js_mul_random:
  assumes "0 \<le> r" and "r \<le> 1 - 1 / 2 ^ 53" and "0 < n" and "n \<le> 2 ^ 53"
  obtains x where "js_mul (Fin r) (Fin (of_int n)) = Fin x" "0 \<le> x" "x < of_int n"
proof (cases "r = 0")
  case True
  then show thesis using assms(3) by (intro that[of 0]) simp_all
next
  case False
  then have pos: "0 < r * of_int n" using assms by simp
  have "r * of_int n \<le> of_int n * (1 - 1 / 2 ^ 53)"
    using assms by (metis mult.commute mult_left_mono of_int_0_le_iff order_less_imp_le)
  then have lt: "rnd_pos (r * of_int n) < of_int n"
    using rnd_pos_mono[OF pos] rnd_pos_below[OF assms(3,4)] by (meson order_le_less_trans)
  have "(of_int n :: rat) \<le> 2 powi 53" using assms(4)
    by (metis of_int_le_iff of_int_numeral of_int_power power_int_numeral)
  also have "\<dots> \<le> 2 powi 1024" by (simp only: powi2_le_iff)
  finally have "\<not> 2 powi 1024 \<le> rnd_pos (r * of_int n)" using lt by linarith
  then have "js_mul (Fin r) (Fin (of_int n)) = Fin (rnd_pos (r * of_int n))"
    using pos unfolding js_mul.simps js_rnd_def Let_def by auto
  moreover have "0 \<le> rnd_pos (r * of_int n)"
    using rne_mono[of 0] rne_of_int[of 0] pos by (auto simp: rnd_pos_def intro!: mult_nonneg_nonneg)
  ultimately show thesis using lt by (rule that)
qed

section \<open>Reading back what is written\<close>

lemma digit_value_char [simp]: "d < 36 \<Longrightarrow> digit_value (digit_char d) = Some d"
  by (auto simp: digit_value_def digit_char_def Let_def of_char_of)

lemma is_digit_char [simp]: "d < b \<Longrightarrow> b \<le> 36 \<Longrightarrow> is_digit b (digit_char d)"
  by (simp add: is_digit_def)

lemma digits_value_snoc:
  "digits_value b (s @ [c]) = digits_value b s * b + the (digit_value c)"
  by (simp add: digits_value_def)

lemma nat_to_base_digits:
  assumes "2 \<le> b" and "b \<le> 36"
  shows "list_all (is_digit b) (nat_to_base b n) \<and> nat_to_base b n \<noteq> []
    \<and> digits_value b (nat_to_base b n) = n"
  using assms
proof (induction b n rule: nat_to_base.induct)
  case (1 b n)
  show ?case
  proof (cases "n < b")
    case True
    with 1 show ?thesis by (subst (1 2 3) nat_to_base.simps) (simp add: digits_value_def)
  next
    case False
    with 1 have "list_all (is_digit b) (nat_to_base b (n div b))"
      and "digits_value b (nat_to_base b (n div b)) = n div b" by auto
    moreover have "n mod b < b" and "n mod b < 36" using 1(2,3)
      by (simp_all, meson less_le_trans mod_less_divisor pos2)
    ultimately show ?thesis using False 1(2,3)
      by (simp add: nat_to_base.simps[of b n] digits_value_snoc)
  qed
qed

lemmas nat_to_base_10 = nat_to_base_digits[of 10, simplified]

lemma length_nat_to_base:
  assumes "2 \<le> b" and "b ^ k \<le> n" and "n < b ^ Suc k"
  shows "length (nat_to_base b n) = Suc k"
  using assms
proof (induction k arbitrary: n)
  case 0
  then show ?case by (simp add: nat_to_base.simps)
next
  case (Suc k)
  have "b ^ k \<le> n div b" and "n div b < b ^ Suc k"
    using Suc.prems by (simp_all add: less_eq_div_iff_mult_less_eq less_mult_imp_div_less mult.commute)
  moreover have "b \<le> n" using Suc.prems self_le_power[of b "Suc k"] by linarith
  ultimately show ?case using Suc by (simp add: nat_to_base.simps[of b n])
qed

lemma digit_not_space: "is_digit 10 c \<Longrightarrow> \<not> is_js_space c"
  by (auto simp: is_digit_def digit_value_def is_js_space_def Let_def split: if_splits option.splits)

lemma not_digit [simp]: "\<not> is_digit 10 (CHR ''-'')" "\<not> is_digit 10 (CHR ''+'')"
  "\<not> is_digit 10 (CHR ''x'')" "\<not> is_digit 10 (CHR ''X'')" "\<not> is_digit 10 (CHR ''o'')"
  "\<not> is_digit 10 (CHR ''O'')" "\<not> is_digit 10 (CHR ''b'')" "\<not> is_digit 10 (CHR ''B'')"
  "\<not> is_digit 10 (CHR ''I'')" "\<not> is_digit 10 (CHR ''.'')"
  by (simp_all add: is_digit_def digit_value_def)

lemma prefix_not_all: "prefix p s \<Longrightarrow> list_all P s \<Longrightarrow> list_all P p"
  by (auto simp: prefix_def)

lemma dropWhile_none: "list_all (\<lambda>c. \<not> P c) s \<Longrightarrow> dropWhile P s = s"
  by (cases s) auto

lemma takeWhile_all: "list_all P s \<Longrightarrow> takeWhile P s = s"
  by (simp add: takeWhile_eq_all_conv list_all_iff)

text \<open>A non-empty run of decimal digits is read as its value by \<open>parseInt\<close> and by \<open>Number\<close>.\<close>

lemma digits_plain:
  assumes "list_all (is_digit 10) s"
  shows "dropWhile is_js_space s = s" "js_trim s = s" "split_sign s = (False, s)"
    "takeWhile (is_digit 10) s = s" "\<not> prefix ''0x'' s" "\<not> prefix ''0X'' s" "\<not> prefix ''0o'' s"
    "\<not> prefix ''0O'' s" "\<not> prefix ''0b'' s" "\<not> prefix ''0B'' s" "s \<noteq> ''Infinity''"
proof -
  have ns: "list_all (\<lambda>c. \<not> is_js_space c) s" "list_all (\<lambda>c. \<not> is_js_space c) (rev s)"
    using assms digit_not_space by (auto simp: list_all_iff)
  show "dropWhile is_js_space s = s" "js_trim s = s" using ns by (simp_all add: js_trim_def dropWhile_none)
  show "takeWhile (is_digit 10) s = s" using assms by (rule takeWhile_all)
  show "split_sign s = (False, s)" using assms by (cases s) auto
  show "\<not> prefix ''0x'' s" "\<not> prefix ''0X'' s" "\<not> prefix ''0o'' s" "\<not> prefix ''0O'' s"
    "\<not> prefix ''0b'' s" "\<not> prefix ''0B'' s" "s \<noteq> ''Infinity''"
    using assms prefix_not_all[of _ s "is_digit 10"] by fastforce+
qed

lemma js_parseInt_digits:
  "list_all (is_digit 10) s \<Longrightarrow> s \<noteq> [] \<Longrightarrow> js_parseInt s = js_rnd (of_nat (digits_value 10 s))"
  by (simp add: js_parseInt_def digits_plain signed_rnd_def)

lemma js_Number_digits:
  "list_all (is_digit 10) s \<Longrightarrow> s \<noteq> [] \<Longrightarrow> js_Number s = js_rnd (of_nat (digits_value 10 s))"
  by (simp add: js_Number_def decimal_literal_def exponent_part_def digits_plain signed_rnd_def)

lemma char_of_48: "char_of (48::nat) = CHR ''0''"
  by (simp add: char_of_def bit_iff_odd)

lemma js_to_string_nat: "n \<le> 2 ^ 53 \<Longrightarrow> js_to_string (Fin (of_nat n)) = nat_to_base 10 n"
proof -
  assume "n \<le> 2 ^ 53"
  then have "(of_nat n :: rat) \<le> 2 ^ 53" by (metis of_nat_le_iff of_nat_numeral of_nat_power)
  then show ?thesis
    by (auto simp: pos_to_string_def nat_to_base.simps[of 10 0] digit_char_def char_of_48)
qed

lemma js_Number_to_string: "n \<le> 2 ^ 53 \<Longrightarrow> js_Number (js_to_string (Fin (of_nat n))) = Fin (of_nat n)"
  using nat_to_base_10[of n] by (metis js_to_string_nat js_Number_digits js_rnd_nat)

lemma js_parseInt_to_string:
  "n \<le> 2 ^ 53 \<Longrightarrow> js_parseInt (js_to_string (Fin (of_nat n))) = Fin (of_nat n)"
  using nat_to_base_10[of n] by (metis js_to_string_nat js_parseInt_digits js_rnd_nat)

lemma js_Number_NaN [simp]: "js_Number ''NaN'' = NaN"
  by (simp add: js_Number_def js_trim_def is_js_space_def decimal_literal_def is_digit_def
      digit_value_def Let_def)

text \<open>Evaluation of literal digit strings.\<close>

lemmas digit_eval = js_Number_digits js_parseInt_digits is_digit_def digit_value_def digits_value_def Let_def

end
