(* ===== verification/Redis_Client.thy ===== *)
theory Redis_Client
  imports QoS_Prelude JS_Number
begin

text \<open>
  The database client the broker talks to, and the event loop it runs in.

  Redis and its client library are not part of the repository: the server is a parameter
  \<open>exec\<close> (a command and a server state give a new state and a reply) and the locale
  \<open>redis_server\<close> states the documented behaviour of the commands the broker uses, on a view of
  the server state: the database selected on the connection, the key space of each database, and
  the expiry times.  \<open>mem_exec\<close> is an executable in-memory server that satisfies the locale.

  A broker operation is a \<open>proc\<close>: a tree of segments, each the commands that one synchronous
  stretch of JavaScript sends, followed by the continuation that the replies trigger.  The client
  sends commands over one connection in order, so the commands of a segment are executed one
  after the other; between two segments of an operation any other operation may run
  (\<open>sched_step\<close>).
\<close>

section \<open>Commands, replies, and the view of the server\<close>

datatype cmd =
    Select nat
  | Get string
  | Set_cmd string string
  | Expire string int
  | Hsetnx string string string
  | Hmset string "(string \<times> string) list"
  | Hincrby string string string
  | Hgetall string
  | Keys string
  | Rename string string

datatype reply = RNil | ROk | RInt int | RBulk string | RList "string list"
  | RHash "(string \<times> string) list" | RErr string

datatype rval = Str string | Hash "string \<rightharpoonup> string"

record rview =
  sel :: nat
  dbs :: "nat \<Rightarrow> string \<rightharpoonup> rval"
  ttl :: "nat \<Rightarrow> string \<rightharpoonup> int"

definition cur :: "rview \<Rightarrow> string \<rightharpoonup> rval" where
  "cur w = dbs w (sel w)"

definition cur_put :: "string \<Rightarrow> rval \<Rightarrow> rview \<Rightarrow> rview" where
  "cur_put k x w = w\<lparr>dbs := (dbs w)(sel w := (cur w)(k \<mapsto> x))\<rparr>"

definition set_ttl :: "string \<Rightarrow> int option \<Rightarrow> rview \<Rightarrow> rview" where
  "set_ttl k t w = w\<lparr>ttl := (ttl w)(sel w := (ttl w (sel w))(k := t))\<rparr>"

text \<open>A glob pattern with \<open>*\<close>, the only special character the broker uses.\<close>

fun glob_match :: "string \<Rightarrow> string \<Rightarrow> bool" where
  "glob_match [] s = (s = [])"
| "glob_match (p # ps) [] = (p = CHR ''*'' \<and> glob_match ps [])"
| "glob_match (p # ps) (c # s) =
     (if p = CHR ''*'' then glob_match ps (c # s) \<or> glob_match (p # ps) s
      else p = c \<and> glob_match ps s)"

text \<open>Signed 64-bit integers as the server reads and writes them.\<close>

definition int64_ok :: "int \<Rightarrow> bool" where
  "int64_ok n = (- (2 ^ 63) \<le> n \<and> n < 2 ^ 63)"

definition int_to_string :: "int \<Rightarrow> string" where
  "int_to_string n = (if n < 0 then CHR ''-'' # nat_to_base 10 (nat (- n)) else nat_to_base 10 (nat n))"

definition plain_digits :: "string \<Rightarrow> bool" where
  "plain_digits ds = (ds \<noteq> [] \<and> list_all (is_digit 10) ds \<and> (hd ds = CHR ''0'' \<longrightarrow> ds = ''0''))"

definition parse_int64 :: "string \<Rightarrow> int option" where
  "parse_int64 s =
     (let (neg, ds) = (case s of c # cs \<Rightarrow> if c = CHR ''-'' then (True, cs) else (False, s)
                       | [] \<Rightarrow> (False, []));
          n = (if neg then - 1 else 1) * int (digits_value 10 ds)
      in if plain_digits ds \<and> int64_ok n \<and> \<not> (neg \<and> n = 0) then Some n else None)"

section \<open>Documented behaviour\<close>

text \<open>The increment of a hash field, a missing field counting as 0; \<^const>\<open>None\<close> is an error.\<close>

definition incr_field :: "(string \<rightharpoonup> string) \<Rightarrow> string \<Rightarrow> string \<Rightarrow> int option" where
  "incr_field h f i =
     (case (parse_int64 i, case h f of None \<Rightarrow> Some 0 | Some s \<Rightarrow> parse_int64 s) of
        (Some a, Some b) \<Rightarrow> if int64_ok (a + b) then Some (a + b) else None
      | _ \<Rightarrow> None)"

definition hash_at :: "rview \<Rightarrow> string \<Rightarrow> (string \<rightharpoonup> string) option" where
  "hash_at w k = (case cur w k of None \<Rightarrow> Some Map.empty | Some (Hash h) \<Rightarrow> Some h
     | Some (Str _) \<Rightarrow> None)"

fun redis_effect :: "rview \<Rightarrow> cmd \<Rightarrow> rview" where
  "redis_effect w (Select n) = w\<lparr>sel := n\<rparr>"
| "redis_effect w (Get k) = w"
| "redis_effect w (Hgetall k) = w"
| "redis_effect w (Keys p) = w"
| "redis_effect w (Set_cmd k s) = set_ttl k None (cur_put k (Str s) w)"
| "redis_effect w (Expire k t) = (if cur w k = None then w else set_ttl k (Some t) w)"
| "redis_effect w (Hsetnx k f s) = (case hash_at w k of None \<Rightarrow> w
     | Some h \<Rightarrow> if h f = None then cur_put k (Hash (h(f \<mapsto> s))) w else w)"
| "redis_effect w (Hmset k fvs) = (case hash_at w k of None \<Rightarrow> w
     | Some h \<Rightarrow> cur_put k (Hash (foldl (\<lambda>m fv. m(fst fv \<mapsto> snd fv)) h fvs)) w)"
| "redis_effect w (Hincrby k f i) = (case hash_at w k of None \<Rightarrow> w
     | Some h \<Rightarrow> (case incr_field h f i of None \<Rightarrow> w
         | Some n \<Rightarrow> cur_put k (Hash (h(f \<mapsto> int_to_string n))) w))"
| "redis_effect w (Rename k k') = (case cur w k of None \<Rightarrow> w
     | Some x \<Rightarrow> (let t = ttl w (sel w) k; w1 = w\<lparr>dbs := (dbs w)(sel w := (cur w)(k := None, k' := Some x))\<rparr>
         in set_ttl k' t (set_ttl k None w1)))"

text \<open>Which replies are allowed.  The order of the keys and of the fields is not specified.\<close>

fun redis_reply :: "rview \<Rightarrow> cmd \<Rightarrow> reply \<Rightarrow> bool" where
  "redis_reply w (Select n) r = (r = ROk)"
| "redis_reply w (Set_cmd k s) r = (r = ROk)"
| "redis_reply w (Get k) r = (case cur w k of None \<Rightarrow> r = RNil | Some (Str s) \<Rightarrow> r = RBulk s
     | Some (Hash _) \<Rightarrow> (\<exists>e. r = RErr e))"
| "redis_reply w (Expire k t) r = (r = RInt (if cur w k = None then 0 else 1))"
| "redis_reply w (Hsetnx k f s) r = (case hash_at w k of None \<Rightarrow> (\<exists>e. r = RErr e)
     | Some h \<Rightarrow> r = RInt (if h f = None then 1 else 0))"
| "redis_reply w (Hmset k fvs) r = (if hash_at w k = None then (\<exists>e. r = RErr e) else r = ROk)"
| "redis_reply w (Hincrby k f i) r = (case hash_at w k of None \<Rightarrow> (\<exists>e. r = RErr e)
     | Some h \<Rightarrow> (case incr_field h f i of None \<Rightarrow> (\<exists>e. r = RErr e) | Some n \<Rightarrow> r = RInt n))"
| "redis_reply w (Hgetall k) r = (case cur w k of None \<Rightarrow> r = RNil
     | Some (Str _) \<Rightarrow> (\<exists>e. r = RErr e)
     | Some (Hash h) \<Rightarrow> (\<exists>al. r = RHash al \<and> distinct (map fst al) \<and> map_of al = h))"
| "redis_reply w (Keys p) r = (\<exists>ks. r = RList ks \<and> distinct ks
     \<and> set ks = {k \<in> dom (cur w). glob_match p k})"
| "redis_reply w (Rename k k') r = (if cur w k = None then (\<exists>e. r = RErr e) else r = ROk)"

section \<open>Operations as trees of segments\<close>

datatype 'a proc = Return 'a | Send "cmd list" "reply list \<Rightarrow> 'a proc"

primrec exec_all :: "('d \<Rightarrow> cmd \<Rightarrow> 'd \<times> reply) \<Rightarrow> cmd list \<Rightarrow> 'd \<Rightarrow> 'd \<times> reply list" where
  "exec_all ex [] d = (d, [])"
| "exec_all ex (c # cs) d =
     (fst (exec_all ex cs (fst (ex d c))), snd (ex d c) # snd (exec_all ex cs (fst (ex d c))))"

text \<open>An operation that nothing else interrupts.\<close>

primrec run :: "'a proc \<Rightarrow> ('d \<Rightarrow> cmd \<Rightarrow> 'd \<times> reply) \<Rightarrow> 'd \<Rightarrow> 'd \<times> 'a" where
  "run (Return x) ex d = (d, x)"
| "run (Send cs k) ex d = run (k (snd (exec_all ex cs d))) ex (fst (exec_all ex cs d))"

text \<open>\<open>then\<close>: the continuation starts when the first operation has returned.\<close>

primrec bind_proc :: "'a proc \<Rightarrow> ('a \<Rightarrow> 'b proc) \<Rightarrow> 'b proc" where
  "bind_proc (Return x) f = f x"
| "bind_proc (Send cs k) f = Send cs (\<lambda>rs. bind_proc (k rs) f)"

text \<open>Commands sent synchronously before an operation starts belong to its first segment.\<close>

primrec sync_before :: "cmd list \<Rightarrow> 'a proc \<Rightarrow> 'a proc" where
  "sync_before cs (Return x) = Send cs (\<lambda>_. Return x)"
| "sync_before cs (Send cs' k) = Send (cs @ cs') (\<lambda>rs. k (drop (length cs) rs))"

fun is_err :: "reply \<Rightarrow> bool" where
  "is_err (RErr _) = True"
| "is_err _ = False"

text \<open>\<open>selectAsync(n).then(...)\<close>: the continuation runs unless the select failed, in which case
  nothing settles the outer promise.\<close>

definition select_then :: "nat \<Rightarrow> ('a, 'e) promise proc \<Rightarrow> ('a, 'e) promise proc" where
  "select_then n p = Send [Select n] (\<lambda>rs. case rs of
     r # _ \<Rightarrow> if is_err r then Return Unsettled else p | [] \<Rightarrow> Return Unsettled)"

section \<open>Interleaving\<close>

text \<open>The event loop over the operations in progress: a new request arrives, or one operation
  runs its next segment.  \<open>A\<close> is the set of operations that may arrive.\<close>

inductive sched_step ::
  "('d \<Rightarrow> cmd \<Rightarrow> 'd \<times> reply) \<Rightarrow> 'a proc set \<Rightarrow> 'd \<times> 'a proc list \<Rightarrow> 'd \<times> 'a proc list \<Rightarrow> bool"
  for ex A where
  arrive: "p \<in> A \<Longrightarrow> sched_step ex A (d, ps) (d, ps @ [p])"
| segment: "i < length ps \<Longrightarrow> ps ! i = Send cs k \<Longrightarrow>
    sched_step ex A (d, ps) (fst (exec_all ex cs d), ps[i := k (snd (exec_all ex cs d))])"

inductive sched_reach ::
  "('d \<Rightarrow> cmd \<Rightarrow> 'd \<times> reply) \<Rightarrow> 'a proc set \<Rightarrow> 'd \<Rightarrow> 'd \<times> 'a proc list \<Rightarrow> bool"
  for ex A d0 where
  start: "sched_reach ex A d0 (d0, [])"
| step: "sched_reach ex A d0 s \<Longrightarrow> sched_step ex A s t \<Longrightarrow> sched_reach ex A d0 t"

inductive_cases sched_stepE: "sched_step ex A s t"

text \<open>Properties of all segments of an operation, and of its first command.\<close>

primrec all_segs :: "(cmd list \<Rightarrow> bool) \<Rightarrow> 'a proc \<Rightarrow> bool" where
  "all_segs P (Return x) = True"
| "all_segs P (Send cs k) = (P cs \<and> (\<forall>rs. all_segs P (k rs)))"

definition only_db :: "nat \<Rightarrow> cmd list \<Rightarrow> bool" where
  "only_db n cs = (\<forall>m. Select m \<in> set cs \<longrightarrow> m = n)"

fun starts_select :: "nat \<Rightarrow> 'a proc \<Rightarrow> bool" where
  "starts_select n (Send (Select m # cs) k) = (m = n)"
| "starts_select n _ = False"

section \<open>An in-memory server\<close>

datatype mval = MStr string | MHash "(string \<times> string) list"

record mem =
  m_sel :: nat
  m_dbs :: "nat \<Rightarrow> (string \<times> mval) list"
  m_ttl :: "nat \<Rightarrow> (string \<times> int) list"

definition empty_mem :: mem where
  "empty_mem = \<lparr>m_sel = 0, m_dbs = (\<lambda>_. []), m_ttl = (\<lambda>_. [])\<rparr>"

definition m_cur :: "mem \<Rightarrow> (string \<times> mval) list" where
  "m_cur m = m_dbs m (m_sel m)"

definition m_put :: "string \<Rightarrow> mval \<Rightarrow> mem \<Rightarrow> mem" where
  "m_put k x m = m\<lparr>m_dbs := (m_dbs m)(m_sel m := AList.update k x (m_cur m))\<rparr>"

definition m_hash :: "mem \<Rightarrow> string \<Rightarrow> (string \<times> string) list option" where
  "m_hash m k = (case map_of (m_cur m) k of None \<Rightarrow> Some [] | Some (MHash al) \<Rightarrow> Some al
     | Some (MStr _) \<Rightarrow> None)"

definition m_set_ttl :: "string \<Rightarrow> int option \<Rightarrow> mem \<Rightarrow> mem" where
  "m_set_ttl k t m = m\<lparr>m_ttl := (m_ttl m)(m_sel m :=
     (case t of None \<Rightarrow> AList.delete k (m_ttl m (m_sel m)) | Some n \<Rightarrow> AList.update k n (m_ttl m (m_sel m))))\<rparr>"

fun mem_exec :: "mem \<Rightarrow> cmd \<Rightarrow> mem \<times> reply" where
  "mem_exec m (Select n) = (m\<lparr>m_sel := n\<rparr>, ROk)"
| "mem_exec m (Get k) = (m, case map_of (m_cur m) k of None \<Rightarrow> RNil | Some (MStr s) \<Rightarrow> RBulk s
     | Some (MHash _) \<Rightarrow> RErr ''WRONGTYPE'')"
| "mem_exec m (Set_cmd k s) = (m_set_ttl k None (m_put k (MStr s) m), ROk)"
| "mem_exec m (Expire k t) = (if map_of (m_cur m) k = None then (m, RInt 0)
     else (m_set_ttl k (Some t) m, RInt 1))"
| "mem_exec m (Hsetnx k f s) = (case m_hash m k of None \<Rightarrow> (m, RErr ''WRONGTYPE'')
     | Some al \<Rightarrow> if map_of al f = None then (m_put k (MHash (AList.update f s al)) m, RInt 1)
         else (m, RInt 0))"
| "mem_exec m (Hmset k fvs) = (case m_hash m k of None \<Rightarrow> (m, RErr ''WRONGTYPE'')
     | Some al \<Rightarrow> (m_put k (MHash (foldl (\<lambda>a fv. AList.update (fst fv) (snd fv) a) al fvs)) m, ROk))"
| "mem_exec m (Hincrby k f i) = (case m_hash m k of None \<Rightarrow> (m, RErr ''WRONGTYPE'')
     | Some al \<Rightarrow> (case incr_field (map_of al) f i of
         None \<Rightarrow> (m, RErr ''ERR value is not an integer or out of range'')
       | Some n \<Rightarrow> (m_put k (MHash (AList.update f (int_to_string n) al)) m, RInt n)))"
| "mem_exec m (Hgetall k) = (m, case map_of (m_cur m) k of None \<Rightarrow> RNil
     | Some (MStr _) \<Rightarrow> RErr ''WRONGTYPE'' | Some (MHash al) \<Rightarrow> RHash (AList.clearjunk al))"
| "mem_exec m (Keys p) = (m, RList (filter (glob_match p) (remdups (map fst (m_cur m)))))"
| "mem_exec m (Rename k k') = (case map_of (m_cur m) k of None \<Rightarrow> (m, RErr ''ERR no such key'')
     | Some x \<Rightarrow> (let t = map_of (m_ttl m (m_sel m)) k;
           m1 = m\<lparr>m_dbs := (m_dbs m)(m_sel m := AList.update k' x (AList.delete k (m_cur m)))\<rparr>
         in (m_set_ttl k' t (m_set_ttl k None m1), ROk)))"

fun abs_mval :: "mval \<Rightarrow> rval" where
  "abs_mval (MStr s) = Str s"
| "abs_mval (MHash al) = Hash (map_of al)"

definition mem_view :: "mem \<Rightarrow> rview" where
  "mem_view m = \<lparr>sel = m_sel m, dbs = (\<lambda>n k. map_option abs_mval (map_of (m_dbs m n) k)),
     ttl = (\<lambda>n. map_of (m_ttl m n))\<rparr>"

section \<open>The interface\<close>

locale redis_server =
  fixes exec :: "'d \<Rightarrow> cmd \<Rightarrow> 'd \<times> reply"
    and view :: "'d \<Rightarrow> rview"
  assumes effect [simp]: "view (fst (exec d c)) = redis_effect (view d) c"
    and reply: "redis_reply (view d) c (snd (exec d c))"
begin

lemma view_exec_all [simp]: "view (fst (exec_all exec cs d)) = foldl redis_effect (view d) cs"
  by (induction cs arbitrary: d) (simp_all add: Let_def effect)

lemma length_replies [simp]: "length (snd (exec_all exec cs d)) = length cs"
  by (induction cs arbitrary: d) (simp_all add: Let_def)

lemma reply_Select [simp]: "snd (exec d (Select n)) = ROk"
  using reply[of d "Select n"] by simp

lemma reply_Set [simp]: "snd (exec d (Set_cmd k s)) = ROk"
  using reply[of d "Set_cmd k s"] by simp

lemma reply_Get: "snd (exec d (Get k)) = RNil" if "cur (view d) k = None"
  using reply[of d "Get k"] that by simp

lemma reply_Get_Str: "snd (exec d (Get k)) = RBulk s" if "cur (view d) k = Some (Str s)"
  using reply[of d "Get k"] that by simp

lemma reply_Hgetall_None: "snd (exec d (Hgetall k)) = RNil" if "cur (view d) k = None"
  using reply[of d "Hgetall k"] that by simp

lemma reply_Hgetall:
  assumes "cur (view d) k = Some (Hash h)"
  obtains al where "snd (exec d (Hgetall k)) = RHash al" "distinct (map fst al)" "map_of al = h"
  using reply[of d "Hgetall k"] assms by auto

lemma reply_Keys:
  obtains ks where "snd (exec d (Keys p)) = RList ks" "distinct ks"
    "set ks = {k \<in> dom (cur (view d)). glob_match p k}"
  using reply[of d "Keys p"] by auto

lemma run_select_then [simp]: "run (select_then n p) exec d = run p exec (fst (exec d (Select n)))"
  by (simp add: select_then_def Let_def)

end

section \<open>Lemmas on the documented effects\<close>

named_theorems redis_eff "effects of the commands on the view"

lemma sel_cur_put [simp]: "sel (cur_put k x w) = sel w"
  by (simp add: cur_put_def)

lemma cur_cur_put [simp]: "cur (cur_put k x w) = (cur w)(k \<mapsto> x)"
  by (simp add: cur_put_def cur_def)

lemma sel_set_ttl [simp]: "sel (set_ttl k t w) = sel w"
  by (simp add: set_ttl_def)

lemma dbs_set_ttl [simp]: "dbs (set_ttl k t w) = dbs w"
  by (simp add: set_ttl_def)

lemma ttl_set_ttl [simp]: "ttl (set_ttl k t w) = (ttl w)(sel w := (ttl w (sel w))(k := t))"
  by (simp add: set_ttl_def)

lemma ttl_cur_put [simp]: "ttl (cur_put k x w) = ttl w"
  by (simp add: cur_put_def)

lemma cur_set_ttl [simp]: "cur (set_ttl k t w) = cur w"
  by (simp add: cur_def)

lemma dbs_cur_put [simp]: "dbs (cur_put k x w) = (dbs w)(sel w := (cur w)(k \<mapsto> x))"
  by (simp add: cur_put_def)

lemma cur_select [simp]: "cur (w\<lparr>sel := n\<rparr>) = dbs w n"
  by (simp add: cur_def)

lemma effect_sel: "sel (redis_effect w c) = (case c of Select n \<Rightarrow> n | _ \<Rightarrow> sel w)"
  by (cases c) (auto simp: Let_def split: option.splits)

lemma effect_other_db: "n \<noteq> sel w \<Longrightarrow> dbs (redis_effect w c) n = dbs w n"
  by (cases c) (auto simp: Let_def split: option.splits)

lemma only_db_simps [simp]:
  "only_db n []" "only_db n (c # cs) \<longleftrightarrow> (\<forall>m. c = Select m \<longrightarrow> m = n) \<and> only_db n cs"
  by (auto simp: only_db_def)

lemma foldl_effect_only_db:
  assumes "only_db n cs" and "sel w = n"
  shows "sel (foldl redis_effect w cs) = n \<and> (\<forall>m. m \<noteq> n \<longrightarrow> dbs (foldl redis_effect w cs) m = dbs w m)"
  using assms
proof (induction cs arbitrary: w)
  case (Cons c cs)
  then have "sel (redis_effect w c) = n" by (auto simp: effect_sel split: cmd.split)
  with Cons.IH[of "redis_effect w c"] Cons.prems show ?case by (simp add: effect_other_db)
qed simp

section \<open>The in-memory server implements the interface\<close>

lemma mem_view_sel [simp]: "sel (mem_view m) = m_sel m"
  by (simp add: mem_view_def)

lemma mem_view_cur: "cur (mem_view m) k = map_option abs_mval (map_of (m_cur m) k)"
  by (simp add: mem_view_def cur_def m_cur_def)

lemma mem_view_put: "mem_view (m_put k x m) = cur_put k (abs_mval x) (mem_view m)"
  by (auto simp: mem_view_def cur_put_def cur_def m_put_def m_cur_def fun_eq_iff)

lemma mem_view_set_ttl: "mem_view (m_set_ttl k t m) = set_ttl k t (mem_view m)"
  by (auto simp: mem_view_def set_ttl_def m_set_ttl_def fun_eq_iff delete_conv' split: option.splits)

lemma mem_view_hash: "hash_at (mem_view m) k = map_option map_of (m_hash m k)"
  by (auto simp: hash_at_def m_hash_def mem_view_cur split: option.splits mval.splits)

lemma map_of_foldl_update:
  "map_of (foldl (\<lambda>a fv. AList.update (fst fv) (snd fv) a) al fvs)
     = foldl (\<lambda>m fv. m(fst fv \<mapsto> snd fv)) (map_of al) fvs"
  by (induction fvs arbitrary: al) auto

lemma mem_effect: "mem_view (fst (mem_exec m c)) = redis_effect (mem_view m) c"
proof (cases c)
  case (Rename k k')
  have "mem_view (m\<lparr>m_dbs := (m_dbs m)(m_sel m := AList.update k' x (AList.delete k (m_cur m)))\<rparr>) =
      (mem_view m)\<lparr>dbs := (dbs (mem_view m))(m_sel m := (cur (mem_view m))(k := None, k' := Some (abs_mval x)))\<rparr>"
    for x by (auto simp: mem_view_def cur_def m_cur_def fun_eq_iff delete_conv')
  with Rename show ?thesis
    by (auto simp: mem_view_cur mem_view_set_ttl Let_def split: option.splits)
      (simp add: mem_view_def)+
qed (auto simp: mem_view_cur mem_view_put mem_view_set_ttl mem_view_hash map_of_foldl_update
    split: option.splits, auto simp: mem_view_def)

lemma mem_view_dom: "dom (cur (mem_view m)) = fst ` set (m_cur m)"
proof -
  have "dom (cur (mem_view m)) = dom (map_of (m_cur m))" by (auto simp: mem_view_cur)
  then show ?thesis by (simp add: dom_map_of_conv_image_fst)
qed

lemma mem_reply: "redis_reply (mem_view m) c (snd (mem_exec m c))"
proof (cases c)
  case (Keys p)
  then show ?thesis by (auto simp: mem_view_dom simp del: dom_def)
qed (auto simp: mem_view_cur mem_view_hash distinct_clearjunk map_of_clearjunk Let_def
    split: option.splits mval.splits)

interpretation mem: redis_server mem_exec mem_view
  by unfold_locales (rule mem_effect, rule mem_reply)

section \<open>Reachable states\<close>

lemma reach_arrive: "sched_reach ex A d0 (d, ps) \<Longrightarrow> p \<in> A \<Longrightarrow> sched_reach ex A d0 (d, ps @ [p])"
  by (rule sched_reach.step[OF _ sched_step.arrive])

lemma reach_segment:
  assumes "sched_reach ex A d0 (d, ps)" and "i < length ps" and "ps ! i = Send cs k"
    and "d' = fst (exec_all ex cs d)" and "ps' = ps[i := k (snd (exec_all ex cs d))]"
  shows "sched_reach ex A d0 (d', ps')"
  unfolding assms(4,5) by (rule sched_reach.step[OF assms(1) sched_step.segment[OF assms(2,3)]])

section \<open>Operations confined to one database\<close>

text \<open>An operation is confined to database \<open>n\<close> if it selects no other one and its first command
  selects \<open>n\<close>.  Whatever the interleaving, confined operations leave every other database as it
  was: once the first segment has run, the connection stays on \<open>n\<close>.\<close>

definition confined :: "nat \<Rightarrow> 'a proc \<Rightarrow> bool" where
  "confined n p = (all_segs (only_db n) p \<and> starts_select n p)"

lemma starts_selectE:
  assumes "starts_select n p"
  obtains cs k where "p = Send (Select n # cs) k"
  using assms by (cases "(n, p)" rule: starts_select.cases) auto

lemma all_segs_bind:
  "all_segs P p \<Longrightarrow> (\<And>x. all_segs P (f x)) \<Longrightarrow> all_segs P (bind_proc p f)"
  by (induction p) auto

lemma starts_select_bind: "starts_select n p \<Longrightarrow> starts_select n (bind_proc p f)"
  by (auto elim!: starts_selectE)

lemma confined_select_then: "all_segs (only_db n) p \<Longrightarrow> confined n (select_then n p)"
  by (auto simp: confined_def select_then_def split: list.split)

lemma confined_bind: "confined n p \<Longrightarrow> (\<And>x. all_segs (only_db n) (f x)) \<Longrightarrow> confined n (bind_proc p f)"
  by (simp add: confined_def all_segs_bind starts_select_bind)

lemma confined_segs: "confined n p \<Longrightarrow> all_segs (only_db n) p"
  by (simp add: confined_def)

lemma only_db_reads [simp]: "only_db n (map Get ks)" "only_db n (map Hgetall ks)"
  by (auto simp: only_db_def)

lemma confined_sync:
  assumes "confined n p" and "only_db n cs" and "cs = Select n # cs'"
  shows "confined n (sync_before cs p)"
proof -
  obtain ds k where "p = Send (Select n # ds) k" using assms(1) by (auto simp: confined_def elim: starts_selectE)
  then show ?thesis using assms by (auto simp: confined_def only_db_def)
qed

context redis_server
begin

definition isolated :: "nat \<Rightarrow> 'd \<Rightarrow> 'd \<times> 'a proc list \<Rightarrow> bool" where
  "isolated n d0 s = ((\<forall>m. m \<noteq> n \<longrightarrow> dbs (view (fst s)) m = dbs (view d0) m)
     \<and> (\<forall>p \<in> set (snd s). all_segs (only_db n) p)
     \<and> (sel (view (fst s)) = n \<or> (\<forall>p \<in> set (snd s). starts_select n p)))"

lemma isolated_segment:
  assumes inv: "isolated n d0 (d, ps)" and i: "i < length ps" "ps ! i = Send cs k"
  shows "isolated n d0 (fst (exec_all exec cs d), ps[i := k (snd (exec_all exec cs d))])"
proof -
  have p: "Send cs k \<in> set ps" using i by (metis nth_mem)
  have seg: "only_db n cs" "\<And>rs. all_segs (only_db n) (k rs)"
    using inv p by (force simp: isolated_def)+
  have sub: "set (ps[i := k rs]) \<subseteq> insert (k rs) (set ps)" for rs
    by (rule set_update_subset_insert)
  have w: "sel (foldl redis_effect (view d) cs) = n
     \<and> (\<forall>m. m \<noteq> n \<longrightarrow> dbs (foldl redis_effect (view d) cs) m = dbs (view d) m)"
  proof (cases "sel (view d) = n")
    case True
    then show ?thesis using seg(1) by (intro foldl_effect_only_db)
  next
    case False
    with inv p have "starts_select n (Send cs k)" by (auto simp: isolated_def)
    then obtain cs' where "cs = Select n # cs'" by (auto elim: starts_selectE)
    then show ?thesis using seg(1) foldl_effect_only_db[of n cs' "(view d)\<lparr>sel := n\<rparr>"] by simp
  qed
  have "\<forall>p \<in> set (ps[i := k rs]). all_segs (only_db n) p" for rs
    using inv sub[of rs] seg(2)[of rs] by (auto simp: isolated_def)
  then show ?thesis using inv w by (simp add: isolated_def)
qed

lemma isolated_step:
  assumes "isolated n d0 s" and "sched_step exec A s t" and "\<And>p. p \<in> A \<Longrightarrow> confined n p"
  shows "isolated n d0 t"
  using assms(2)
proof cases
  case (arrive p d ps)
  with assms show ?thesis by (auto simp: isolated_def confined_def)
next
  case (segment i ps cs k d)
  with assms(1) show ?thesis by (simp add: isolated_segment)
qed

lemma isolated_reach:
  assumes "sched_reach exec A d0 s" and "\<And>p. p \<in> A \<Longrightarrow> confined n p"
  shows "isolated n d0 s"
  using assms(1)
proof induction
  case start
  show ?case by (simp add: isolated_def)
next
  case (step s t)
  then show ?case using assms(2) isolated_step by blast
qed

end

end
