(* ===== verification/JS_Regex.thy ===== *)
theory JS_Regex
  imports QoS_Prelude
begin

text \<open>
  Regular expressions as the ECMAScript matcher runs them.  The matcher backtracks: it tries the
  alternatives of a pattern in order of priority (greedy or lazy) and the first one that lets the
  rest of the pattern succeed is the match.  Here a pattern maps a position of the input and the
  captures made so far to the list of all positions it can end at, in priority order; sequencing
  is the concatenation of the lists, and the match is the head of the list.

  A repetition drops an iteration that consumes nothing, as the standard's empty check does, so
  the number of remaining characters is enough fuel for it (\<open>star_iter_enough\<close>).  Captures inside
  a repetition do not occur in the program's patterns.
\<close>

type_synonym captures = "nat \<Rightarrow> string option"
type_synonym mstate = "string \<times> captures"

datatype re =
    Eps
  | Chr "char \<Rightarrow> bool"
  | Cat re re
  | Alt re re
  | Opt re
  | Star bool re
  | Grp nat re
  | EndA

text \<open>\<open>star_iter greedy f n x\<close> repeats \<open>f\<close> at most \<open>n\<close> times from \<open>x\<close>.\<close>

fun star_iter :: "bool \<Rightarrow> (mstate \<Rightarrow> mstate list) \<Rightarrow> nat \<Rightarrow> mstate \<Rightarrow> mstate list" where
  "star_iter g f 0 x = [x]"
| "star_iter g f (Suc n) x =
     (let more = concat (map (star_iter g f n)
                   (filter (\<lambda>y. length (fst y) < length (fst x)) (f x)))
      in if g then more @ [x] else x # more)"

primrec re_match :: "re \<Rightarrow> mstate \<Rightarrow> mstate list" where
  "re_match Eps x = [x]"
| "re_match (Chr P) x = (case fst x of [] \<Rightarrow> [] | c # s \<Rightarrow> if P c then [(s, snd x)] else [])"
| "re_match (Cat r1 r2) x = concat (map (re_match r2) (re_match r1 x))"
| "re_match (Alt r1 r2) x = re_match r1 x @ re_match r2 x"
| "re_match (Opt r) x = re_match r x @ [x]"
| "re_match (Star g r) x = star_iter g (re_match r) (length (fst x)) x"
| "re_match (Grp n r) x =
     map (\<lambda>y. (fst y, (snd y)(n \<mapsto> take (length (fst x) - length (fst y)) (fst x)))) (re_match r x)"
| "re_match EndA x = (if fst x = [] then [x] else [])"

text \<open>\<open>.\<close> matches every character but a line terminator.\<close>

definition dot :: re where
  "dot = Chr (\<lambda>c. c \<noteq> CHR 0x0A \<and> c \<noteq> CHR 0x0D)"

definition chr_class :: "string \<Rightarrow> re" where
  "chr_class cs = Chr (\<lambda>c. c \<in> set cs)"

definition chr_not :: "string \<Rightarrow> re" where
  "chr_not cs = Chr (\<lambda>c. c \<notin> set cs)"

definition digit_re :: re where
  "digit_re = chr_class ''0123456789''"

fun lit :: "string \<Rightarrow> re" where
  "lit [] = Eps"
| "lit (c # cs) = Cat (Chr (\<lambda>d. d = c)) (lit cs)"

fun re_seq :: "re list \<Rightarrow> re" where
  "re_seq [] = Eps"
| "re_seq [r] = r"
| "re_seq (r # r' # rs) = Cat r (re_seq (r' # rs))"

text \<open>An unanchored search: the first position with a match.  The result is the text skipped,
  the text left after the match, and the captures.\<close>

fun re_search :: "re \<Rightarrow> string \<Rightarrow> string \<Rightarrow> (string \<times> string \<times> captures) option" where
  "re_search r skipped [] = (case re_match r ([], Map.empty) of
     [] \<Rightarrow> None | y # _ \<Rightarrow> Some (rev skipped, y))"
| "re_search r skipped (c # s) = (case re_match r (c # s, Map.empty) of
     [] \<Rightarrow> re_search r (c # skipped) s | y # _ \<Rightarrow> Some (rev skipped, y))"

definition re_exec :: "re \<Rightarrow> string \<Rightarrow> captures option" where
  "re_exec r s = map_option (\<lambda>y. snd (snd y)) (re_search r [] s)"

definition re_test :: "re \<Rightarrow> string \<Rightarrow> bool" where
  "re_test r s = (re_search r [] s \<noteq> None)"

text \<open>A global replacement cuts the string into unmatched characters and matches.\<close>

function re_tokens :: "re \<Rightarrow> string \<Rightarrow> (char + string \<times> captures) list" where
  "re_tokens r [] = (case re_match r ([], Map.empty) of [] \<Rightarrow> [] | y # _ \<Rightarrow> [Inr ([], snd y)])"
| "re_tokens r (c # s) = (case re_match r (c # s, Map.empty) of
     [] \<Rightarrow> Inl c # re_tokens r s
   | y # _ \<Rightarrow> if length (fst y) < length (c # s)
        then Inr (take (length (c # s) - length (fst y)) (c # s), snd y) # re_tokens r (fst y)
        else Inr ([], snd y) # Inl c # re_tokens r s)"
  by pat_completeness auto
termination by (relation "measure (\<lambda>(r, s). length s)") auto

definition re_gsub :: "re \<Rightarrow> (string \<Rightarrow> captures \<Rightarrow> string) \<Rightarrow> string \<Rightarrow> string" where
  "re_gsub r f s = concat (map (\<lambda>t. case t of Inl c \<Rightarrow> [c] | Inr (w, cs) \<Rightarrow> f w cs) (re_tokens r s))"

section \<open>Fuel of repetitions\<close>

lemma star_iter_fuel:
  "length (fst x) \<le> n \<Longrightarrow> length (fst x) \<le> m \<Longrightarrow> star_iter g f n x = star_iter g f m x"
proof (induction n arbitrary: m x)
  case 0
  then show ?case by (cases m) (auto simp: Let_def)
next
  case (Suc n)
  show ?case
  proof (cases m)
    case 0
    with Suc.prems show ?thesis by (simp add: Let_def)
  next
    case (Suc k)
    have "star_iter g f n y = star_iter g f k y" if "length (fst y) < length (fst x)" for y
      using that Suc.prems Suc by (intro Suc.IH) auto
    then have "map (star_iter g f n) (filter (\<lambda>y. length (fst y) < length (fst x)) (f x))
        = map (star_iter g f k) (filter (\<lambda>y. length (fst y) < length (fst x)) (f x))"
      by (intro map_cong) auto
    then show ?thesis unfolding Suc by (simp only: star_iter.simps)
  qed
qed

lemma star_iter_enough:
  "length (fst x) \<le> n \<Longrightarrow> star_iter g (re_match r) n x = re_match (Star g r) x"
  unfolding re_match.simps by (rule star_iter_fuel) auto

text \<open>One iteration of a repeated character class.\<close>

lemma star_chr_unfold:
  "re_match (Star g (Chr P)) (c # s, cs) =
     (let more = (if P c then re_match (Star g (Chr P)) (s, cs) else [])
      in if g then more @ [(c # s, cs)] else (c # s, cs) # more)"
  by (simp add: Let_def)

lemma star_chr_nil: "re_match (Star g (Chr P)) ([], cs) = [([], cs)]"
  by simp

section \<open>Sequencing and heads\<close>

lemma concat_map_concat:
  "concat (map g (concat (map f xs))) = concat (map (\<lambda>y. concat (map g (f y))) xs)"
  by (induction xs) auto

lemma re_match_Cat_assoc:
  "re_match (Cat (Cat r1 r2) r3) x = re_match (Cat r1 (Cat r2 r3)) x"
  by (simp add: concat_map_concat cong: map_cong)

text \<open>\<open>re_first r x y\<close>: matching \<open>r\<close> at \<open>x\<close> succeeds, and ends at \<open>y\<close> with highest priority.\<close>

definition re_first :: "re \<Rightarrow> mstate \<Rightarrow> mstate \<Rightarrow> bool" where
  "re_first r x y = (\<exists>ys. re_match r x = y # ys)"

lemma re_first_Cat:
  "re_first r1 x y \<Longrightarrow> re_first r2 y z \<Longrightarrow> re_first (Cat r1 r2) x z"
  by (auto simp: re_first_def)

lemma re_first_lit: "re_first (lit w) (w @ t, cs) (t, cs)"
  by (induction w) (auto simp: re_first_def)

lemma re_match_lit_mismatch: "s \<noteq> [] \<Longrightarrow> hd s \<noteq> c \<Longrightarrow> re_match (lit (c # w)) (s, cs) = []"
  by (cases s) auto

text \<open>The end positions of a repeated character class: every split of the longest run, shortest
  first if lazy, longest first if greedy.\<close>

lemma re_match_star_chr:
  "re_match (Star g (Chr P)) (s, cs) =
     (if g then rev else id) (map (\<lambda>i. (drop i s, cs)) [0..<Suc (length (takeWhile P s))])"
proof (induction s)
  case (Cons c s)
  have up: "[0..<Suc (Suc n)] = 0 # map Suc [0..<Suc n]" for n
    by (simp add: map_Suc_upt upt_conv_Cons del: upt_Suc)
  show ?case
    by (cases "P c"; cases g)
      (use Cons.IH in \<open>simp_all add: star_chr_unfold Let_def up comp_def upt_rec[of 0 "Suc 0"] del: re_match.simps(6) upt_Suc\<close>)
qed simp

lemma re_match_grp_star_lazy:
  "re_match (Grp n (Star False (Chr P))) (s, cs) =
     map (\<lambda>i. (drop i s, cs(n \<mapsto> take i s))) [0..<Suc (length (takeWhile P s))]"
proof -
  have "length s - length (drop i s) = i" if "i < Suc (length (takeWhile P s))" for i
    using that length_takeWhile_le[of P s] by simp
  then show ?thesis by (simp add: re_match_star_chr del: re_match.simps(6) upt_Suc)
qed

lemma re_first_greedy:
  assumes "list_all P w" and "t = [] \<or> \<not> P (hd t)"
  shows "re_first (Star True (Chr P)) (w @ t, cs) (t, cs)"
proof -
  have "takeWhile P (w @ t) = w"
    using assms by (cases t) (auto simp: list_all_iff)
  then show ?thesis by (simp add: re_first_def re_match_star_chr del: re_match.simps(6))
qed

lemma concat_map_first:
  assumes "k < n" and "\<And>i. i < k \<Longrightarrow> f i = []" and "f k = y # ys"
  shows "\<exists>zs. concat (map f [0..<n]) = y # zs"
proof -
  have "[0..<n] = [0..<k] @ [k..<n]" using assms(1) upt_add_eq_append[of 0 k "n - k"] by simp
  also have "[k..<n] = k # [Suc k..<n]" using assms(1) by (rule upt_conv_Cons)
  finally have "concat (map f [0..<n]) = concat (map f [0..<k]) @ f k @ concat (map f [Suc k..<n])"
    by simp
  moreover have "concat (map f [0..<k]) = []" using assms(2) by simp
  ultimately show ?thesis using assms(3) by simp
qed

text \<open>A lazy repetition followed by a literal stops at the first place where the literal's first
  character occurs, if the literal is there; with a group, the skipped text is captured.\<close>

lemma lazy_until_aux:
  assumes "list_all P w" and "c \<notin> set w"
  shows "\<exists>ys. concat (map (\<lambda>i. re_match (lit (c # l)) (drop i (w @ (c # l) @ t), u i))
     [0..<Suc (length (takeWhile P (w @ (c # l) @ t)))]) = (t, u (length w)) # ys"
proof -
  let ?s = "w @ (c # l) @ t"
  obtain zs where "re_match (lit (c # l)) ((c # l) @ t, u (length w)) = (t, u (length w)) # zs"
    using re_first_lit unfolding re_first_def by blast
  moreover have "re_match (lit (c # l)) (drop i ?s, u i) = []" if "i < length w" for i
    using that assms(2) by (intro re_match_lit_mismatch) (auto simp: hd_drop_conv_nth nth_append)
  moreover have "length w < Suc (length (takeWhile P ?s))"
    using assms(1) by (simp add: takeWhile_append list_all_iff)
  ultimately show ?thesis
    by (intro concat_map_first[of "length w", where ys = zs]) (simp_all del: lit.simps)
qed

lemma re_first_lazy_until:
  assumes "list_all P w" and "c \<notin> set w"
  shows "re_first (Cat (Star False (Chr P)) (lit (c # l))) (w @ (c # l) @ t, cs) (t, cs)"
  using lazy_until_aux[OF assms, of l t "\<lambda>_. cs"]
  by (simp add: re_first_def re_match_star_chr comp_def del: re_match.simps(6) lit.simps upt_Suc)

lemma re_first_lazy_capture:
  assumes "list_all P w" and "c \<notin> set w"
  shows "re_first (Cat (Grp n (Star False (Chr P))) (lit (c # l))) (w @ (c # l) @ t, cs) (t, cs(n \<mapsto> w))"
  using lazy_until_aux[OF assms, of l t "\<lambda>i. cs(n \<mapsto> take i (w @ (c # l) @ t))"]
  unfolding re_first_def re_match.simps(3) re_match_grp_star_lazy by (simp add: comp_def del: lit.simps upt_Suc)

lemma re_first_greedy_capture:
  assumes "list_all P w" and "t = [] \<or> \<not> P (hd t)"
  shows "re_first (Grp n (Star True (Chr P))) (w @ t, cs) (t, cs(n \<mapsto> w))"
  using re_first_greedy[OF assms, of cs] by (auto simp: re_first_def simp del: re_match.simps(6))

lemma re_exec_first: "re_first r (s, Map.empty) (t, cs) \<Longrightarrow> re_exec r s = Some cs"
  by (cases s) (auto simp: re_first_def re_exec_def)

section \<open>Unanchored tests\<close>

lemma all_le_Suc: "(\<forall>i \<le> Suc n. P i) \<longleftrightarrow> P 0 \<and> (\<forall>i \<le> n. P (Suc i))"
  using All_less_Suc2[of "Suc n" P] by (simp add: less_Suc_eq_le)

lemma re_search_None:
  "re_search r sk s = None \<longleftrightarrow> (\<forall>i \<le> length s. re_match r (drop i s, Map.empty) = [])"
proof (induction r sk s rule: re_search.induct)
  case (1 r sk)
  then show ?case by (auto split: list.splits)
next
  case (2 r sk c s)
  have "(\<forall>i \<le> length (c # s). re_match r (drop i (c # s), Map.empty) = []) \<longleftrightarrow>
    re_match r (c # s, Map.empty) = [] \<and> (\<forall>i \<le> length s. re_match r (drop i s, Map.empty) = [])"
    by (simp add: all_le_Suc)
  with 2 show ?case by (auto split: list.splits)
qed

lemma re_test_iff: "re_test r s \<longleftrightarrow> (\<exists>i \<le> length s. re_match r (drop i s, Map.empty) \<noteq> [])"
  by (simp add: re_test_def re_search_None)

lemma re_match_lit_ne: "re_match (lit w) (s, cs) \<noteq> [] \<longleftrightarrow> prefix w s"
proof (induction w arbitrary: s)
  case (Cons c w)
  then show ?case by (cases s) auto
qed simp

lemma re_match_star_then:
  "re_match (Cat (Star g (Chr P)) r) (s, cs) \<noteq> [] \<longleftrightarrow>
     (\<exists>i \<le> length (takeWhile P s). re_match r (drop i s, cs) \<noteq> [])"
proof -
  have "(\<exists>x \<in> set ((if g then rev else id) (map (\<lambda>i. (drop i s, cs)) [0..<Suc n])). f x \<noteq> [])
    \<longleftrightarrow> (\<exists>i \<le> n. f (drop i s, cs) \<noteq> [])" for f :: "mstate \<Rightarrow> mstate list" and n
    by (cases g) (auto simp del: upt_Suc simp: less_Suc_eq_le)
  then show ?thesis unfolding re_match.simps(3) re_match_star_chr by (auto simp del: upt_Suc)
qed

end
