(* ===== verification/Broker_DAO.thy ===== *)
theory Broker_DAO
  imports Redis_Client JS_Regex
begin

text \<open>
  The broker's data access object, \<^verbatim>\<open>broker/BrokerServer/app/dao.js\<close>.  Every operation of the
  source is one definition: a \<open>proc\<close> whose segments are the commands the operation sends, with the
  promise it settles as the result.  Time, \<open>Math.random\<close> and the MD5 function of the crypto library
  are arguments.  Arguments that the client library turns into strings are strings here.
\<close>

type_synonym outcome = "(jsval, jsval) promise"
type_synonym op = "outcome proc"

section \<open>Helpers\<close>

definition REALM :: string where "REALM = ''orange.com''"

definition TTLUSER :: int where "TTLUSER = 604800"

text \<open>\<open>randomString(length)\<close>, with \<open>r\<close> the value of \<open>Math.random()\<close>.\<close>

definition random_number :: "nat \<Rightarrow> rat \<Rightarrow> jsnum" where
  "random_number len r =
     js_round (js_sub (Fin (36 ^ (len + 1))) (js_mul (Fin r) (Fin (36 ^ len))))"

fun num_to_base36 :: "jsnum \<Rightarrow> string" where
  "num_to_base36 (Fin q) = nat_to_base 36 (nat \<lfloor>q\<rfloor>)"
| "num_to_base36 a = js_to_string a"

definition randomString :: "nat \<Rightarrow> rat \<Rightarrow> string" where
  "randomString len r = drop 1 (num_to_base36 (random_number len r))"

section \<open>The traffic subscription\<close>

text \<open>The handler of \<open>pmessage\<close>: the channels already subscribed, and the channels to subscribe.\<close>

definition on_pmessage :: "string list \<Rightarrow> string \<Rightarrow> string list \<times> string list" where
  "on_pmessage subscribers message =
     (if message \<in> set subscribers \<or> message \<in> set object_members then (subscribers, [])
      else (subscribers @ [message], [message]))"

fun pmessages :: "string list \<Rightarrow> string list \<Rightarrow> string list \<times> string list" where
  "pmessages subs [] = (subs, [])"
| "pmessages subs (m # ms) =
     (let (subs1, out1) = on_pmessage subs m; (subs2, out2) = pmessages subs1 ms
      in (subs2, out1 @ out2))"

definition channel_re :: re where
  "channel_re = Cat (lit ''turn/'')
     (Cat (Cat (Star False dot) (lit ''/''))
     (Cat (Cat (Star False dot) (lit ''/realm/''))
     (Cat (Cat (Star False dot) (lit ''/user/''))
     (Cat (Cat (Grp 1 (Star False dot)) (lit ''/allocation/''))
     (Cat (Grp 2 (Star True digit_re)) (lit ''/''))))))"

definition traffic_re :: re where
  "traffic_re = Cat (lit ''rcvp='') (Cat (Star True digit_re)
     (Cat (lit '', rcvb='') (Cat (Grp 1 (Star True digit_re))
     (Cat (lit '', sentp='') (Cat (Star True digit_re)
     (Cat (lit '', sentb='') (Grp 2 (Star True digit_re))))))))"

text \<open>The user and the sent bytes of a published message, or nothing.\<close>

definition parseTurnTraffic :: "string \<Rightarrow> string \<Rightarrow> (string \<times> string) option" where
  "parseTurnTraffic channel message =
     (case re_exec channel_re channel of None \<Rightarrow> None
      | Some cs1 \<Rightarrow> (case re_exec traffic_re message of None \<Rightarrow> None
          | Some cs2 \<Rightarrow> (case (cs1 1, cs2 2) of
              (Some user, Some sent) \<Rightarrow> Some (user, sent) | _ \<Rightarrow> None)))"

section \<open>Reading provider records\<close>

definition str_obj :: "(string \<times> string) list \<Rightarrow> jsval" where
  "str_obj al = JObj (map (\<lambda>(k, v). (k, JStr v)) al)"

text \<open>The callback of \<open>hgetall\<close>: reject an error, resolve anything else.\<close>

fun hgetall_result :: "reply \<Rightarrow> outcome" where
  "hgetall_result (RErr e) = Rejected (JStr e)"
| "hgetall_result (RHash al) = Fulfilled (str_obj al)"
| "hgetall_result _ = Fulfilled JNull"

definition getCSPInfos :: "string \<Rightarrow> op" where
  "getCSPInfos cspkey = select_then 2 (Send [Hgetall cspkey] (\<lambda>rs. Return (hgetall_result (rs ! 0))))"

definition getCSPConso :: "string \<Rightarrow> op" where
  "getCSPConso cspConsoKey = select_then 2
     (Send [Hgetall (cspConsoKey @ '':conso'')] (\<lambda>rs. Return (hgetall_result (rs ! 0))))"

text \<open>The quota record and the consumption of a provider in one object.  A missing record is
  \<open>null\<close>, so the assignment to \<open>cspName\<close> throws and the handler rejects.\<close>

definition with_conso :: "jsval \<Rightarrow> outcome \<Rightarrow> outcome" where
  "with_conso cspInfos r =
     (case r of
        Fulfilled consoResult \<Rightarrow>
          (case js_get consoResult ''data'' of
             None \<Rightarrow> Rejected (JStr ''CSP consumption unknown'')
           | Some x \<Rightarrow> (case js_put cspInfos ''dataConso'' x of
               None \<Rightarrow> Rejected (JStr ''CSP consumption unknown'') | Some info \<Rightarrow> Fulfilled info))
      | Rejected _ \<Rightarrow> Rejected (JStr ''CSP consumption unknown'')
      | Unsettled \<Rightarrow> Unsettled)"

definition getCspInfoAndConso :: "string \<Rightarrow> op" where
  "getCspInfoAndConso cspName =
     (let cspKey = ''prov:'' @ cspName in
      bind_proc (getCSPInfos cspKey) (\<lambda>r. case r of
        Fulfilled reply \<Rightarrow>
          (case js_put reply ''cspName'' (JStr cspName) of
             None \<Rightarrow> Return (Rejected (JStr ''CSP not found''))
           | Some cspInfos \<Rightarrow>
               bind_proc (getCSPConso cspKey) (\<lambda>c. Return (with_conso cspInfos c)))
      | Rejected _ \<Rightarrow> Return (Rejected (JStr ''CSP not found''))
      | Unsettled \<Rightarrow> Return Unsettled))"

section \<open>TURN servers and the allocation of one\<close>

text \<open>The list of \<open>get\<close> replies: the first error rejects, otherwise every key becomes an entry.\<close>

fun turn_status :: "reply \<Rightarrow> jsval" where
  "turn_status (RBulk s) = JStr s"
| "turn_status _ = JNull"

definition turn_entry :: "string \<Rightarrow> reply \<Rightarrow> jsval" where
  "turn_entry turnName r = JObj [(''turnUrl'', JStr turnName), (''turnStatus'', turn_status r)]"

fun first_err :: "reply list \<Rightarrow> string option" where
  "first_err [] = None"
| "first_err (RErr e # rs) = Some e"
| "first_err (_ # rs) = first_err rs"

definition turn_list :: "string list \<Rightarrow> reply list \<Rightarrow> outcome" where
  "turn_list ks rs = (case first_err rs of Some e \<Rightarrow> Rejected (JStr e)
     | None \<Rightarrow> Fulfilled (JArr (map2 turn_entry ks rs)))"

definition getTurnServers :: op where
  "getTurnServers = select_then 2 (Send [Keys ''turnservers:*''] (\<lambda>rs. case rs ! 0 of
       RErr e \<Rightarrow> Return (Rejected (JStr e))
     | RList ks \<Rightarrow> if ks = [] then Return (Rejected (JStr ''No turn found''))
         else Send (map Get ks) (\<lambda>rs'. Return (turn_list ks rs'))
     | _ \<Rightarrow> Return Unsettled))"

definition registerUser :: "string \<Rightarrow> string \<Rightarrow> cmd list" where
  "registerUser csp user = [Select 2, Set_cmd (''users:'' @ user) csp, Expire (''users:'' @ user) TTLUSER]"

definition quota_exceeded :: "jsval \<Rightarrow> bool" where
  "quota_exceeded info = (case (js_get info ''dataConso'', js_get info ''dataQuota'') of
     (Some c, Some q) \<Rightarrow> js_gt (to_number c) (to_number q) | _ \<Rightarrow> False)"

text \<open>The addresses without the key prefix, and the index drawn with \<open>Math.random()\<close>.\<close>

definition turn_address :: "jsval \<Rightarrow> jsval" where
  "turn_address entry = (case js_get entry ''turnUrl'' of
     Some (JStr u) \<Rightarrow> JStr (js_replace ''turnservers:'' '''' u) | _ \<Rightarrow> JUndef)"

definition random_index :: "rat \<Rightarrow> nat \<Rightarrow> int" where
  "random_index r n = (case js_floor (js_mul (Fin r) (Fin (of_nat n))) of Fin q \<Rightarrow> \<lfloor>q\<rfloor> | _ \<Rightarrow> - 1)"

definition pick_turn :: "rat \<Rightarrow> jsval list \<Rightarrow> jsval" where
  "pick_turn r ts = (let i = random_index r (length ts) in
     if 0 \<le> i then (case js_nth (map turn_address ts) (nat i) of None \<Rightarrow> JUndef | Some v \<Rightarrow> v)
     else JUndef)"

text \<open>A caught error in a string concatenation.\<close>

fun err_str :: "jsval \<Rightarrow> string" where
  "err_str (JStr s) = s"
| "err_str _ = ''TypeError''"

definition answer_turn :: "rat \<Rightarrow> string \<Rightarrow> outcome \<Rightarrow> outcome" where
  "answer_turn r clientId t = (case t of
     Fulfilled (JArr ts) \<Rightarrow> Fulfilled (JArr [pick_turn r ts, JStr clientId])
   | Fulfilled _ \<Rightarrow> Unsettled
   | Rejected e \<Rightarrow> Rejected e
   | Unsettled \<Rightarrow> Unsettled)"

definition client_id :: "(string \<Rightarrow> string) \<Rightarrow> string \<Rightarrow> string \<Rightarrow> string \<Rightarrow> string" where
  "client_id MD5 now cspName clientname = MD5 (cspName @ '':'' @ clientname @ now)"

definition getAppropriateTurn ::
  "(string \<Rightarrow> string) \<Rightarrow> string \<Rightarrow> rat \<Rightarrow> string \<Rightarrow> string \<Rightarrow> op" where
  "getAppropriateTurn MD5 now r cspName clientname =
     (let clientId = client_id MD5 now cspName clientname in
      sync_before (registerUser cspName clientId)
        (bind_proc (getCspInfoAndConso cspName) (\<lambda>res. case res of
           Fulfilled info \<Rightarrow>
             if quota_exceeded info
             then Return (Rejected (JStr (''Unable to get a turn server : '' @ ''data consumption exceeded'')))
             else bind_proc getTurnServers (\<lambda>t. Return (answer_turn r clientId t))
         | Rejected e \<Rightarrow> Return (Rejected (JStr (''Unable to get a turn server : '' @ err_str e)))
         | Unsettled \<Rightarrow> Return Unsettled)))"

section \<open>Credentials\<close>

definition credential_key :: "string \<Rightarrow> string" where
  "credential_key clientId = ''turn/realm/'' @ REALM @ ''/user/'' @ clientId @ ''/key''"

definition createTurnCredentials :: "(string \<Rightarrow> string) \<Rightarrow> rat \<Rightarrow> string \<Rightarrow> op" where
  "createTurnCredentials MD5 r clientId =
     (let password = randomString 6 r in
      select_then 0 (Send [Set_cmd (credential_key clientId) (MD5 (clientId @ '':'' @ REALM @ '':'' @ password))]
        (\<lambda>rs. Return (case rs ! 0 of RErr e \<Rightarrow> Rejected (JStr e) | _ \<Rightarrow> Fulfilled (JStr password)))))"

text \<open>The outer promise has no handler for a rejection of the inner one.\<close>

definition getCredentials :: "(string \<Rightarrow> string) \<Rightarrow> rat \<Rightarrow> string option \<Rightarrow> op" where
  "getCredentials MD5 r clientId =
     bind_proc (createTurnCredentials MD5 r (opt_str clientId)) (\<lambda>p. Return (case p of
       Fulfilled password \<Rightarrow> Fulfilled (JObj [(''clientId'', opt_val clientId), (''password'', password)])
     | _ \<Rightarrow> Unsettled))"

section \<open>Provisioning\<close>

record csp_form =
  servicename :: "string option"
  audio :: "string option"
  video :: "string option"
  qdata :: "string option"

definition asGB :: jsnum where
  "asGB = js_int (1024 * 1024 * 1024)"

definition optional_quota :: "string option \<Rightarrow> jsnum" where
  "optional_quota x = (case x of None \<Rightarrow> Fin 0 | Some s \<Rightarrow> js_parseInt s)"

definition quota_arg :: "jsnum \<Rightarrow> string" where
  "quota_arg q = js_to_string (js_mul q asGB)"

definition registerCSP_cmds :: "csp_form \<Rightarrow> cmd list" where
  "registerCSP_cmds fd =
     (let redisKey = ''prov:'' @ opt_str (servicename fd); consoKey = redisKey @ '':conso'' in
      [Hsetnx redisKey ''audioQuota'' (quota_arg (optional_quota (audio fd))),
       Hsetnx redisKey ''videoQuota'' (quota_arg (optional_quota (video fd))),
       Hsetnx redisKey ''dataQuota'' (quota_arg (js_parseInt (opt_str (qdata fd)))),
       Hsetnx redisKey ''conso'' consoKey,
       Hsetnx consoKey ''audio'' ''0'',
       Hsetnx consoKey ''video'' ''0'',
       Hsetnx consoKey ''data'' ''0''])"

text \<open>The value is returned at once; the commands run in the background.\<close>

definition registerCSP :: "csp_form \<Rightarrow> jsval \<Rightarrow> jsval \<times> op" where
  "registerCSP fd TTL =
     (JObj [(''clientId'', opt_val (servicename fd)), (''TTL'', TTL)],
      select_then 2 (Send (registerCSP_cmds fd) (\<lambda>_. Return (Fulfilled JUndef))))"

definition updateCSPQuotas :: "string \<Rightarrow> string \<Rightarrow> string \<Rightarrow> string \<Rightarrow> op" where
  "updateCSPQuotas cspkey audioQuota videoQuota dataQuota = select_then 2
     (Send [Hmset cspkey [(''audioQuota'', audioQuota), (''videoQuota'', videoQuota), (''dataQuota'', dataQuota)]]
       (\<lambda>rs. Return (case rs ! 0 of RErr e \<Rightarrow> Rejected (JStr e) | _ \<Rightarrow> Fulfilled (JStr ''OK''))))"

definition deleteCSP :: "string \<Rightarrow> op" where
  "deleteCSP cspkey =
     Send [Select 2, Rename (cspkey @ '':conso'') (''histo'' @ cspkey @ '':conso''),
           Rename cspkey (''histo'' @ cspkey)]
       (\<lambda>rs. Return (case rs ! 2 of RErr e \<Rightarrow> Rejected (JStr e) | _ \<Rightarrow> Fulfilled (JNum (Fin 1))))"

section \<open>Listing the providers\<close>

definition conso_re :: re where
  "conso_re = Cat (Star True dot) (lit '':conso'')"

definition conso_end_re :: re where
  "conso_end_re = Cat (Star True dot) (Cat (lit '':conso'') EndA)"

definition prov_keys :: "string list \<Rightarrow> string list" where
  "prov_keys reply = filter (\<lambda>k. \<not> re_test conso_re k) reply"

text \<open>The callbacks of \<open>hgetall\<close> in reply order: an error rejects; a missing record throws in the
  callback, so the promise is never resolved; the last record resolves with all of them.\<close>

fun collect_infos :: "nat \<Rightarrow> jsval list \<Rightarrow> (string \<times> reply) list \<Rightarrow> outcome" where
  "collect_infos n infos [] = Unsettled"
| "collect_infos n infos ((k, RErr e) # rest) = Rejected (JStr e)"
| "collect_infos n infos ((k, RHash al) # rest) =
     (let infos' = infos @ [JObj (AList.update ''csp'' (JStr k) (map (\<lambda>(f, v). (f, JStr v)) al))]
      in if length infos' = n then Fulfilled (JArr infos') else collect_infos n infos' rest)"
| "collect_infos n infos ((k, _) # rest) = Unsettled"

definition getAllCspInfo :: op where
  "getAllCspInfo = Send [Select 2, Keys ''prov:*''] (\<lambda>rs. case rs ! 1 of
       RList reply \<Rightarrow>
         (let provKeys = prov_keys reply; ks = filter (\<lambda>k. \<not> re_test conso_end_re k) provKeys in
          Send (map Hgetall ks) (\<lambda>rs'. Return (collect_infos (length provKeys) [] (zip ks rs'))))
     | _ \<Rightarrow> Return Unsettled)"

section \<open>Charging traffic\<close>

text \<open>\<open>null\<close> in a string concatenation is \<open>"null"\<close>.\<close>

definition owner_str :: "reply \<Rightarrow> string" where
  "owner_str r = (case r of RBulk s \<Rightarrow> s | _ \<Rightarrow> ''null'')"

definition addCSPConso :: "(string \<times> string) option \<Rightarrow> op" where
  "addCSPConso parsedTraffic = select_then 2 (case parsedTraffic of
       None \<Rightarrow> Return Unsettled
     | Some (user, sent_bytes) \<Rightarrow> Send [Get (''users:'' @ user)] (\<lambda>rs.
         if is_err (rs ! 0) then Return Unsettled
         else Send [Hincrby (''prov:'' @ owner_str (rs ! 0) @ '':conso'') ''data'' sent_bytes]
           (\<lambda>rs'. Return (case rs' ! 0 of RErr e \<Rightarrow> Rejected (JStr e)
              | RInt n \<Rightarrow> Fulfilled (JNum (js_rnd (of_int n))) | _ \<Rightarrow> Fulfilled JNull))))"

text \<open>The handler of a published message.\<close>

definition on_message :: "string \<Rightarrow> string \<Rightarrow> op" where
  "on_message channel message = addCSPConso (parseTurnTraffic channel message)"

text \<open>The factory: only one database type is known.\<close>

datatype dao = RedisDAO string string

definition DAO :: "string \<Rightarrow> string \<Rightarrow> string \<Rightarrow> dao option" where
  "DAO dbType port host = (if dbType = ''redis'' then Some (RedisDAO port host) else None)"

section \<open>Running operations\<close>

lemma exec_all_append:
  "exec_all ex (cs @ cs') d =
     (let x = exec_all ex cs d; y = exec_all ex cs' (fst x) in (fst y, snd x @ snd y))"
  by (induction cs arbitrary: d) (simp_all add: Let_def)

lemma length_exec_all [simp]: "length (snd (exec_all ex cs d)) = length cs"
  by (induction cs arbitrary: d) (simp_all add: Let_def)

lemma run_bind: "run (bind_proc p f) ex d = run (f (snd (run p ex d))) ex (fst (run p ex d))"
  by (induction p arbitrary: d) simp_all

lemma run_sync_before: "run (sync_before cs p) ex d = run p ex (fst (exec_all ex cs d))"
  by (cases p) (simp_all add: exec_all_append Let_def)

end
