(* ===== verification/Broker_Allocation.thy ===== *)
theory Broker_Allocation
  imports Broker_DAO
begin

text \<open>
  The allocation of a TURN server: what \<open>getCspInfoAndConso\<close>, \<open>getTurnServers\<close> and
  \<open>getAppropriateTurn\<close> of \<^verbatim>\<open>dao.js\<close> answer and leave in the database.
\<close>

section \<open>The provider records\<close>

lemma js_get_str_obj [simp]:
  "js_get (str_obj al) f = Some (case map_of al f of None \<Rightarrow> JUndef | Some s \<Rightarrow> JStr s)"
  by (induction al) (auto simp: str_obj_def)

lemma js_put_str_obj [simp]:
  "js_put (str_obj al) f x = Some (JObj (AList.update f x (map (\<lambda>(k, v). (k, JStr v)) al)))"
  by (simp add: str_obj_def)

lemma map_of_JStr: "map_of (map (\<lambda>(k, v). (k, JStr v)) al) f = map_option JStr (map_of al f)"
  by (induction al) auto

text \<open>A provider is registered with data quota \<open>q\<close> and data consumption \<open>c\<close> (the stored strings).\<close>

definition provider_at :: "rview \<Rightarrow> string \<Rightarrow> string \<Rightarrow> string \<Rightarrow> bool" where
  "provider_at w csp q c = (\<exists>h hc. dbs w 2 (''prov:'' @ csp) = Some (Hash h) \<and> h ''dataQuota'' = Some q
     \<and> dbs w 2 (''prov:'' @ csp @ '':conso'') = Some (Hash hc) \<and> hc ''data'' = Some c)"

context redis_server
begin

lemma run_hgetall:
  "fst (run (Send [Hgetall k] (\<lambda>rs. Return (hgetall_result (rs ! 0)))) exec d) = fst (exec d (Hgetall k))"
  "snd (run (Send [Hgetall k] (\<lambda>rs. Return (hgetall_result (rs ! 0)))) exec d) = hgetall_result (snd (exec d (Hgetall k)))"
  by (simp_all add: Let_def)

lemma getCSPInfos_view [simp]: "view (fst (run (getCSPInfos k) exec d)) = (view d)\<lparr>sel := 2\<rparr>"
  by (simp add: getCSPInfos_def effect Let_def)

lemma getCSPConso_view [simp]: "view (fst (run (getCSPConso k) exec d)) = (view d)\<lparr>sel := 2\<rparr>"
  by (simp add: getCSPConso_def effect Let_def)

lemma getCSPInfos_missing:
  "dbs (view d) 2 k = None \<Longrightarrow> snd (run (getCSPInfos k) exec d) = Fulfilled JNull"
  by (simp add: getCSPInfos_def effect reply_Hgetall_None Let_def)

lemma getCSPInfos_hash:
  assumes "dbs (view d) 2 k = Some (Hash h)"
  obtains al where "snd (run (getCSPInfos k) exec d) = Fulfilled (str_obj al)" "map_of al = h"
proof -
  have "cur (view (fst (exec d (Select 2)))) k = Some (Hash h)" using assms by (simp add: effect)
  then obtain al where "snd (exec (fst (exec d (Select 2))) (Hgetall k)) = RHash al" "map_of al = h"
    using reply_Hgetall by blast
  then show thesis by (intro that[of al]) (simp_all add: getCSPInfos_def Let_def)
qed

lemma getCSPConso_infos: "getCSPConso k = getCSPInfos (k @ '':conso'')"
  by (simp add: getCSPConso_def getCSPInfos_def)

lemma getCspInfoAndConso_missing:
  "dbs (view d) 2 (''prov:'' @ csp) = None \<Longrightarrow>
   snd (run (getCspInfoAndConso csp) exec d) = Rejected (JStr ''CSP not found'')"
  by (simp add: getCspInfoAndConso_def run_bind getCSPInfos_missing Let_def)

lemma getCspInfoAndConso_view:
  "view (fst (run (getCspInfoAndConso csp) exec d)) = (view d)\<lparr>sel := 2\<rparr>"
  by (auto simp: getCspInfoAndConso_def run_bind Let_def split: promise.splits option.splits)

lemma getCspInfoAndConso_found:
  assumes "provider_at (view d) csp q c"
  obtains info where "snd (run (getCspInfoAndConso csp) exec d) = Fulfilled info"
    "js_get info ''dataQuota'' = Some (JStr q)" "js_get info ''dataConso'' = Some (JStr c)"
proof -
  let ?d1 = "fst (run (getCSPInfos (''prov:'' @ csp)) exec d)"
  obtain h hc where h: "dbs (view d) 2 (''prov:'' @ csp) = Some (Hash h)" "h ''dataQuota'' = Some q"
    and hc: "dbs (view d) 2 (''prov:'' @ csp @ '':conso'') = Some (Hash hc)" "hc ''data'' = Some c"
    using assms unfolding provider_at_def by blast
  obtain al where al: "snd (run (getCSPInfos (''prov:'' @ csp)) exec d) = Fulfilled (str_obj al)" "map_of al = h"
    using getCSPInfos_hash[OF h(1)] by blast
  have "dbs (view ?d1) 2 (''prov:'' @ csp @ '':conso'') = Some (Hash hc)" using hc by simp
  then obtain al2 where al2: "snd (run (getCSPConso (''prov:'' @ csp)) exec ?d1) = Fulfilled (str_obj al2)" "map_of al2 = hc"
    using getCSPInfos_hash unfolding getCSPConso_infos by (metis append.assoc)
  show thesis
    by (rule that) (use al al2 h hc in \<open>auto simp: getCspInfoAndConso_def run_bind Let_def with_conso_def map_of_JStr\<close>)
qed

end

section \<open>Allocation of a TURN server\<close>

lemma glob_star [simp]: "glob_match ''*'' s"
  by (induction s) auto

lemma glob_prefix: "CHR ''*'' \<notin> set p \<Longrightarrow> glob_match (p @ ''*'') s \<longleftrightarrow> prefix p s"
proof (induction p arbitrary: s)
  case (Cons c p)
  then show ?case by (cases s) auto
qed simp

lemma glob_turnservers: "glob_match ''turnservers:*'' k \<longleftrightarrow> prefix ''turnservers:'' k"
  using glob_prefix[of "''turnservers:''" k] by simp

lemma glob_prov: "glob_match ''prov:*'' k \<longleftrightarrow> prefix ''prov:'' k"
  using glob_prefix[of "''prov:''" k] by simp

text \<open>The TURN servers a view lists, and that their entries are strings.\<close>

definition turn_keys :: "rview \<Rightarrow> string set" where
  "turn_keys w = {k \<in> dom (dbs w 2). prefix ''turnservers:'' k}"

definition turn_entries_ok :: "rview \<Rightarrow> bool" where
  "turn_entries_ok w = (\<forall>k \<in> turn_keys w. \<exists>s. dbs w 2 k = Some (Str s))"

lemma random_index_range:
  assumes "0 \<le> r" and "r \<le> 1 - 1 / 2 ^ 53" and "0 < n" and "n \<le> 2 ^ 53"
  shows "0 \<le> random_index r n \<and> random_index r n < int n"
proof -
  have n: "0 < int n" "int n \<le> 2 ^ 53" using assms(3,4)
    by (simp, metis of_nat_le_iff of_nat_numeral of_nat_power)
  obtain x where "js_mul (Fin r) (Fin (of_int (int n))) = Fin x" "0 \<le> x" "x < of_int (int n)"
    using js_mul_random[OF assms(1,2) n] by blast
  then show ?thesis by (simp add: random_index_def floor_less_iff)
qed

lemma turn_address_entry: "turn_address (turn_entry k r) = JStr (js_replace ''turnservers:'' '''' k)"
  by (simp add: turn_address_def turn_entry_def)

lemma pick_turn_entry:
  assumes "0 \<le> r" and "r \<le> 1 - 1 / 2 ^ 53" and "ks \<noteq> []" and "length ks \<le> 2 ^ 53"
    and "length rs = length ks"
  obtains k where "k \<in> set ks"
    "pick_turn r (map2 turn_entry ks rs) = JStr (js_replace ''turnservers:'' '''' k)"
proof -
  let ?i = "random_index r (length ks)"
  have i: "0 \<le> ?i" "nat ?i < length ks" using random_index_range[OF assms(1,2) _ assms(4)] assms(3) by auto
  have "pick_turn r (map2 turn_entry ks rs) = JStr (js_replace ''turnservers:'' '''' (ks ! nat ?i))"
    using i assms(5) by (simp add: pick_turn_def Let_def turn_address_entry)
  moreover have "ks ! nat ?i \<in> set ks" using i by simp
  ultimately show thesis by (rule that[rotated])
qed

lemma first_err_None: "\<forall>r \<in> set rs. \<not> is_err r \<Longrightarrow> first_err rs = None"
proof (induction rs)
  case (Cons r rs)
  then show ?case by (cases r) auto
qed simp

context redis_server
begin

lemma exec_Gets:
  assumes "\<And>k. k \<in> set ks \<Longrightarrow> \<exists>s. cur (view d) k = Some (Str s)"
  shows "\<forall>r \<in> set (snd (exec_all exec (map Get ks) d)). \<not> is_err r"
  using assms
proof (induction ks arbitrary: d)
  case (Cons k ks)
  then obtain s where "cur (view d) k = Some (Str s)" by (meson list.set_intros(1))
  then have "snd (exec d (Get k)) = RBulk s" by (rule reply_Get_Str)
  moreover have "\<forall>r \<in> set (snd (exec_all exec (map Get ks) (fst (exec d (Get k))))). \<not> is_err r"
    using Cons.prems by (intro Cons.IH) (simp add: effect)
  ultimately show ?case by (simp add: Let_def)
qed simp

lemma foldl_Gets [simp]: "foldl redis_effect w (map Get ks) = w"
  by (induction ks) auto

lemma foldl_Hgetalls [simp]: "foldl redis_effect w (map Hgetall ks) = w"
  by (induction ks) auto

lemma getTurnServers_view: "view (fst (run getTurnServers exec d)) = (view d)\<lparr>sel := 2\<rparr>"
  by (auto simp: getTurnServers_def effect Let_def split: reply.splits)

lemma getTurnServers_none:
  assumes "turn_keys (view d) = {}"
  shows "snd (run getTurnServers exec d) = Rejected (JStr ''No turn found'')"
proof -
  let ?d = "fst (exec d (Select 2))"
  obtain ks where ks: "snd (exec ?d (Keys ''turnservers:*'')) = RList ks"
    "set ks = {k \<in> dom (cur (view ?d)). glob_match ''turnservers:*'' k}" by (rule reply_Keys)
  then have "set ks = {}" using assms by (simp add: turn_keys_def glob_turnservers)
  then have "ks = []" by simp
  with ks show ?thesis by (simp add: getTurnServers_def Let_def)
qed

lemma getTurnServers_some:
  assumes "turn_keys (view d) \<noteq> {}" and "turn_entries_ok (view d)"
  obtains ks rs where "snd (run getTurnServers exec d) = Fulfilled (JArr (map2 turn_entry ks rs))"
    "set ks = turn_keys (view d)" "distinct ks" "length rs = length ks"
proof -
  let ?d = "fst (exec d (Select 2))"
  let ?e = "fst (exec ?d (Keys ''turnservers:*''))"
  obtain ks where ks: "snd (exec ?d (Keys ''turnservers:*'')) = RList ks" "distinct ks"
    "set ks = {k \<in> dom (cur (view ?d)). glob_match ''turnservers:*'' k}" by (rule reply_Keys)
  then have set: "set ks = turn_keys (view d)" by (simp add: turn_keys_def glob_turnservers effect)
  have "\<forall>r \<in> set (snd (exec_all exec (map Get ks) ?e)). \<not> is_err r"
    using set assms(2) by (intro exec_Gets) (simp add: effect turn_entries_ok_def)
  then have "first_err (snd (exec_all exec (map Get ks) ?e)) = None" by (rule first_err_None)
  moreover have "ks \<noteq> []" using set assms(1) by auto
  ultimately show thesis using ks set
    by (intro that[of ks "snd (exec_all exec (map Get ks) ?e)"])
      (simp_all add: getTurnServers_def turn_list_def Let_def)
qed

text \<open>Recording the client first touches only the \<open>users:\<close> key.\<close>

definition after_register :: "string \<Rightarrow> string \<Rightarrow> 'd \<Rightarrow> 'd" where
  "after_register csp user d = fst (exec_all exec (registerUser csp user) d)"

lemma after_register_view:
  "sel (view (after_register csp user d)) = 2"
  "dbs (view (after_register csp user d)) = (dbs (view d))(2 := (dbs (view d) 2)(''users:'' @ user \<mapsto> Str csp))"
  "ttl (view (after_register csp user d)) = (ttl (view d))(2 := (ttl (view d) 2)(''users:'' @ user \<mapsto> TTLUSER))"
  by (simp_all add: after_register_def registerUser_def)

lemma after_register_other:
  "\<not> prefix ''users:'' k \<Longrightarrow> dbs (view (after_register csp user d)) 2 k = dbs (view d) 2 k"
  by (auto simp: after_register_view)

lemma after_register_provider:
  "provider_at (view (after_register csp user d)) p q c \<longleftrightarrow> provider_at (view d) p q c"
  by (simp add: provider_at_def after_register_other)

lemma after_register_turn:
  "turn_keys (view (after_register csp user d)) = turn_keys (view d)"
  "turn_entries_ok (view (after_register csp user d)) \<longleftrightarrow> turn_entries_ok (view d)"
proof -
  have *: "dbs (view (after_register csp user d)) 2 k = dbs (view d) 2 k"
    if "prefix ''turnservers:'' k" for k
    using that by (intro after_register_other) (auto simp: prefix_def)
  then show **: "turn_keys (view (after_register csp user d)) = turn_keys (view d)"
    by (auto simp: turn_keys_def simp del: fun_upd_apply)
  show "turn_entries_ok (view (after_register csp user d)) \<longleftrightarrow> turn_entries_ok (view d)"
    unfolding turn_entries_ok_def ** using * by (simp add: turn_keys_def)
qed

lemma getAppropriateTurn_run:
  "run (getAppropriateTurn MD5 now r csp name) exec d =
     run (bind_proc (getCspInfoAndConso csp) (\<lambda>res. case res of
           Fulfilled info \<Rightarrow>
             if quota_exceeded info
             then Return (Rejected (JStr (''Unable to get a turn server : '' @ ''data consumption exceeded'')))
             else bind_proc getTurnServers (\<lambda>t. Return (answer_turn r (client_id MD5 now csp name) t))
         | Rejected e \<Rightarrow> Return (Rejected (JStr (''Unable to get a turn server : '' @ err_str e)))
         | Unsettled \<Rightarrow> Return Unsettled)) exec (after_register csp (client_id MD5 now csp name) d)"
  unfolding getAppropriateTurn_def Let_def by (simp only: run_sync_before after_register_def)

lemma getAppropriateTurn_view:
  "view (fst (run (getAppropriateTurn MD5 now r csp name) exec d))
     = view (after_register csp (client_id MD5 now csp name) d)"
proof -
  have "(view (after_register csp u d))\<lparr>sel := 2\<rparr> = view (after_register csp u d)" for u
    by (simp add: after_register_view(1)[of csp u d, symmetric])
  then show ?thesis
    by (auto simp: getAppropriateTurn_run run_bind getCspInfoAndConso_view getTurnServers_view
        split: promise.splits)
qed

lemma getAppropriateTurn_unknown:
  assumes "dbs (view d) 2 (''prov:'' @ csp) = None"
  shows "snd (run (getAppropriateTurn MD5 now r csp name) exec d)
     = Rejected (JStr ''Unable to get a turn server : CSP not found'')"
proof -
  have "dbs (view (after_register csp u d)) 2 (''prov:'' @ csp) = None" for u
    using assms by (simp add: after_register_other)
  then show ?thesis by (simp add: getAppropriateTurn_run run_bind getCspInfoAndConso_missing)
qed

lemma getAppropriateTurn_denied:
  assumes "provider_at (view d) csp q c" and "js_gt (js_Number c) (js_Number q)"
  shows "snd (run (getAppropriateTurn MD5 now r csp name) exec d)
     = Rejected (JStr ''Unable to get a turn server : data consumption exceeded'')"
proof -
  let ?d = "after_register csp (client_id MD5 now csp name) d"
  obtain info where "snd (run (getCspInfoAndConso csp) exec ?d) = Fulfilled info"
    "js_get info ''dataQuota'' = Some (JStr q)" "js_get info ''dataConso'' = Some (JStr c)"
    using getCspInfoAndConso_found[of ?d csp q c] assms(1) by (auto simp: after_register_provider)
  then show ?thesis using assms(2) by (simp add: getAppropriateTurn_run run_bind quota_exceeded_def)
qed

lemma getAppropriateTurn_allowed:
  assumes "provider_at (view d) csp q c" and "\<not> js_gt (js_Number c) (js_Number q)"
  shows "snd (run (getAppropriateTurn MD5 now r csp name) exec d) =
    answer_turn r (client_id MD5 now csp name) (snd (run getTurnServers exec
      (fst (run (getCspInfoAndConso csp) exec (after_register csp (client_id MD5 now csp name) d)))))"
proof -
  let ?d = "after_register csp (client_id MD5 now csp name) d"
  obtain info where "snd (run (getCspInfoAndConso csp) exec ?d) = Fulfilled info"
    "js_get info ''dataQuota'' = Some (JStr q)" "js_get info ''dataConso'' = Some (JStr c)"
    using getCspInfoAndConso_found[of ?d csp q c] assms(1) by (auto simp: after_register_provider)
  then show ?thesis using assms(2) by (simp add: getAppropriateTurn_run run_bind quota_exceeded_def)
qed

lemma getAppropriateTurn_granted:
  assumes "provider_at (view d) csp q c" and "\<not> js_gt (js_Number c) (js_Number q)"
    and "turn_keys (view d) \<noteq> {}" and "turn_entries_ok (view d)" and "card (turn_keys (view d)) \<le> 2 ^ 53"
    and "0 \<le> r" and "r \<le> 1 - 1 / 2 ^ 53"
  shows "\<exists>addr. ''turnservers:'' @ addr \<in> turn_keys (view d) \<and>
    snd (run (getAppropriateTurn MD5 now r csp name) exec d)
      = Fulfilled (JArr [JStr addr, JStr (client_id MD5 now csp name)])"
proof -
  let ?d = "fst (run (getCspInfoAndConso csp) exec (after_register csp (client_id MD5 now csp name) d))"
  have v: "turn_keys (view ?d) = turn_keys (view d)" "turn_entries_ok (view ?d)"
    using assms(4) after_register_turn
    by (simp_all add: getCspInfoAndConso_view turn_keys_def turn_entries_ok_def)
  obtain ks rs where t: "snd (run getTurnServers exec ?d) = Fulfilled (JArr (map2 turn_entry ks rs))"
    "set ks = turn_keys (view d)" "distinct ks" "length rs = length ks"
    using getTurnServers_some[of ?d] v assms(3) by metis
  have ne: "ks \<noteq> []" using t(2) assms(3) by auto
  have len: "length ks \<le> 2 ^ 53" using t(2,3) assms(5) distinct_card by metis
  obtain k where k: "k \<in> set ks"
    "pick_turn r (map2 turn_entry ks rs) = JStr (js_replace ''turnservers:'' '''' k)"
    by (rule pick_turn_entry[OF assms(6,7) ne len t(4)])
  obtain addr where "k = ''turnservers:'' @ addr" using k(1) t(2) by (auto simp: turn_keys_def prefix_def)
  then have "''turnservers:'' @ addr \<in> turn_keys (view d)" "js_replace ''turnservers:'' '''' k = addr"
    using k(1) t(2) js_replace_prefix[of "''turnservers:''" "''''" addr] by simp_all
  then show ?thesis using t(1) k(2) getAppropriateTurn_allowed[OF assms(1,2)] by (simp add: answer_turn_def)
qed

end

context redis_server
begin

lemma getAppropriateTurn_no_server:
  assumes "provider_at (view d) csp q c" and "\<not> js_gt (js_Number c) (js_Number q)" and "turn_keys (view d) = {}"
  shows "snd (run (getAppropriateTurn MD5 now r csp name) exec d) = Rejected (JStr ''No turn found'')"
proof -
  let ?d = "fst (run (getCspInfoAndConso csp) exec (after_register csp (client_id MD5 now csp name) d))"
  have "turn_keys (view ?d) = {}"
    using assms(3) after_register_turn by (simp add: getCspInfoAndConso_view turn_keys_def)
  then show ?thesis
    using getAppropriateTurn_allowed[OF assms(1,2)] by (simp add: getTurnServers_none answer_turn_def)
qed

end

section \<open>A small populated server\<close>

text \<open>The database of the witnesses: provider \<open>acme\<close> is over its quota of 1 GB, \<open>beta\<close> is not.\<close>

definition demo_keys :: "(string \<times> mval) list" where
  "demo_keys =
     [(''prov:acme'', MHash [(''audioQuota'', ''0''), (''videoQuota'', ''0''), (''dataQuota'', ''1073741824''),
         (''conso'', ''prov:acme:conso'')]),
      (''prov:acme:conso'', MHash [(''audio'', ''0''), (''video'', ''0''), (''data'', ''1073741825'')]),
      (''prov:beta'', MHash [(''audioQuota'', ''0''), (''videoQuota'', ''0''), (''dataQuota'', ''1073741824''),
         (''conso'', ''prov:beta:conso'')]),
      (''prov:beta:conso'', MHash [(''audio'', ''0''), (''video'', ''0''), (''data'', ''10'')]),
      (''turnservers:turn1'', MStr ''up''), (''users:u1'', MStr ''beta'')]"

definition demo_mem :: mem where
  "demo_mem = empty_mem\<lparr>m_dbs := (\<lambda>_. [])(2 := demo_keys)\<rparr>"

lemma demo_dbs: "dbs (mem_view demo_mem) 2 k = map_option abs_mval (map_of demo_keys k)"
  by (simp add: mem_view_def demo_mem_def empty_mem_def)

lemma demo_acme: "provider_at (mem_view demo_mem) ''acme'' ''1073741824'' ''1073741825''"
  by (simp add: provider_at_def demo_dbs demo_keys_def)

lemma demo_beta: "provider_at (mem_view demo_mem) ''beta'' ''1073741824'' ''10''"
  by (simp add: provider_at_def demo_dbs demo_keys_def)

lemma demo_turn_keys: "turn_keys (mem_view demo_mem) = {''turnservers:turn1''}"
  by (auto simp: turn_keys_def demo_dbs demo_keys_def split: if_splits)

lemma demo_entries: "turn_entries_ok (mem_view demo_mem)"
  unfolding turn_entries_ok_def demo_turn_keys by (simp add: demo_dbs demo_keys_def)

lemma demo_over: "js_gt (js_Number ''1073741825'') (js_Number ''1073741824'')"
  by (simp add: digit_eval js_gt_def)

lemma demo_under: "\<not> js_gt (js_Number ''10'') (js_Number ''1073741824'')"
  by (simp add: digit_eval js_gt_def)

section \<open>Properties\<close>

text \<open>
  C2. Quota enforcement: whatever the server, a request for a provider whose recorded data
  consumption is greater than its data quota (as numbers) is rejected, with the reason, and no TURN
  server is handed out.
\<close>

theorem quota_denied:
  assumes "redis_server exec view"
    and "provider_at (view d) csp q c" and "js_gt (js_Number c) (js_Number q)"
  shows "snd (run (getAppropriateTurn MD5 now r csp name) exec d)
     = Rejected (JStr ''Unable to get a turn server : data consumption exceeded'')"
  using assms by (rule redis_server.getAppropriateTurn_denied)

theorem quota_denied_witness:
  "js_gt (js_Number ''1073741825'') (js_Number ''1073741824'') \<and>
   snd (run (getAppropriateTurn rev ''2016'' 0 ''acme'' ''bob'') mem_exec demo_mem)
     = Rejected (JStr ''Unable to get a turn server : data consumption exceeded'')"
  using quota_denied[OF mem.redis_server_axioms demo_acme demo_over] demo_over by simp

text \<open>
  C5. A request within the quota gets a TURN server: one of the registered servers, without the
  key prefix, together with the client identifier, for every value \<open>Math.random()\<close> can return (a
  double below 1).
\<close>

theorem allocation_granted:
  assumes "redis_server exec view"
    and "provider_at (view d) csp q c" and "\<not> js_gt (js_Number c) (js_Number q)"
    and "turn_keys (view d) \<noteq> {}" and "turn_entries_ok (view d)" and "card (turn_keys (view d)) \<le> 2 ^ 53"
    and "0 \<le> r" and "r \<le> 1 - 1 / 2 ^ 53"
  shows "\<exists>addr. ''turnservers:'' @ addr \<in> turn_keys (view d) \<and>
    snd (run (getAppropriateTurn MD5 now r csp name) exec d)
      = Fulfilled (JArr [JStr addr, JStr (client_id MD5 now csp name)])"
  using assms by (rule redis_server.getAppropriateTurn_granted)

theorem allocation_granted_witness:
  "snd (run (getAppropriateTurn rev ''2016'' (1 / 2) ''beta'' ''bob'') mem_exec demo_mem)
     = Fulfilled (JArr [JStr ''turn1'', JStr (client_id rev ''2016'' ''beta'' ''bob'')])"
  using allocation_granted[OF mem.redis_server_axioms demo_beta demo_under, of "1 / 2" rev "''2016''" "''bob''"]
    demo_entries by (simp add: demo_turn_keys)

text \<open>
  C39. Errors of the allocation: an unregistered provider, and a provider within its quota when no
  TURN server is registered, are both rejected with their own reason.
\<close>

theorem allocation_errors:
  assumes "redis_server exec view"
  shows "(dbs (view d) 2 (''prov:'' @ csp) = None \<longrightarrow>
      snd (run (getAppropriateTurn MD5 now r csp name) exec d)
        = Rejected (JStr ''Unable to get a turn server : CSP not found''))
    \<and> (provider_at (view d) csp q c \<and> \<not> js_gt (js_Number c) (js_Number q) \<and> turn_keys (view d) = {} \<longrightarrow>
      snd (run (getAppropriateTurn MD5 now r csp name) exec d) = Rejected (JStr ''No turn found''))"
  using redis_server.getAppropriateTurn_unknown[OF assms] redis_server.getAppropriateTurn_no_server[OF assms]
  by blast

theorem allocation_errors_witness:
  "snd (run (getAppropriateTurn rev ''2016'' 0 ''gamma'' ''bob'') mem_exec demo_mem)
     = Rejected (JStr ''Unable to get a turn server : CSP not found'')"
proof -
  have "dbs (mem_view demo_mem) 2 (''prov:'' @ ''gamma'') = None" by (simp add: demo_dbs demo_keys_def)
  then show ?thesis using allocation_errors[OF mem.redis_server_axioms] by blast
qed

text \<open>
  C10. Effect of an allocation on the database, whatever its outcome: the client identifier is
  recorded as a user of the provider for one week, and nothing else changes.
\<close>

theorem allocation_effect:
  assumes "redis_server exec view"
  shows "dbs (view (fst (run (getAppropriateTurn MD5 now r csp name) exec d)))
      = (dbs (view d))(2 := (dbs (view d) 2)(''users:'' @ client_id MD5 now csp name \<mapsto> Str csp))
    \<and> ttl (view (fst (run (getAppropriateTurn MD5 now r csp name) exec d)))
      = (ttl (view d))(2 := (ttl (view d) 2)(''users:'' @ client_id MD5 now csp name \<mapsto> TTLUSER))"
  using redis_server.getAppropriateTurn_view[OF assms] redis_server.after_register_view[OF assms] by metis

theorem allocation_effect_witness:
  "dbs (mem_view (fst (run (getAppropriateTurn rev ''2016'' 0 ''acme'' ''bob'') mem_exec demo_mem))) 2
     (''users:'' @ client_id rev ''2016'' ''acme'' ''bob'') = Some (Str ''acme'')"
  using allocation_effect[OF mem.redis_server_axioms] by simp

end
