(* ===== verification/Broker_Provisioning.thy ===== *)
theory Broker_Provisioning
  imports Broker_Allocation
begin

text \<open>
  Provisioning of service providers: registration, update of the quotas, deletion, listing.
\<close>

section \<open>Provisioning\<close>

text \<open>The two hashes a registration creates.\<close>

definition quota_hash :: "csp_form \<Rightarrow> string \<rightharpoonup> string" where
  "quota_hash fd = [''audioQuota'' \<mapsto> quota_arg (optional_quota (audio fd)),
     ''videoQuota'' \<mapsto> quota_arg (optional_quota (video fd)),
     ''dataQuota'' \<mapsto> quota_arg (js_parseInt (opt_str (qdata fd))),
     ''conso'' \<mapsto> ''prov:'' @ opt_str (servicename fd) @ '':conso'']"

definition zero_conso :: "string \<rightharpoonup> string" where
  "zero_conso = [''audio'' \<mapsto> ''0'', ''video'' \<mapsto> ''0'', ''data'' \<mapsto> ''0'']"

text \<open>A record as every registration leaves it: all fields are there.\<close>

definition provisioned :: "rview \<Rightarrow> string \<Rightarrow> bool" where
  "provisioned w csp = (\<exists>h hc. dbs w 2 (''prov:'' @ csp) = Some (Hash h)
     \<and> {''audioQuota'', ''videoQuota'', ''dataQuota'', ''conso''} \<subseteq> dom h
     \<and> dbs w 2 (''prov:'' @ csp @ '':conso'') = Some (Hash hc)
     \<and> {''audio'', ''video'', ''data''} \<subseteq> dom hc)"

lemma hsetnx_present:
  "cur w k = Some (Hash h) \<Longrightarrow> f \<in> dom h \<Longrightarrow> redis_effect w (Hsetnx k f s) = w"
  by (auto simp: hash_at_def)

lemma hsetnx_absent:
  "cur w k = None \<Longrightarrow> redis_effect w (Hsetnx k f s) = cur_put k (Hash [f \<mapsto> s]) w"
  by (auto simp: hash_at_def)

lemma hsetnx_new:
  "cur w k = Some (Hash h) \<Longrightarrow> h f = None \<Longrightarrow>
   redis_effect w (Hsetnx k f s) = cur_put k (Hash (h(f \<mapsto> s))) w"
  by (auto simp: hash_at_def)

lemma cur_put_twice [simp]: "cur_put k x (cur_put k y w) = cur_put k x w"
  by (simp add: cur_put_def cur_def)

lemma registerCSP_present:
  assumes "provisioned w (opt_str (servicename fd))" and "sel w = 2"
  shows "foldl redis_effect w (registerCSP_cmds fd) = w"
proof -
  define k where "k = ''prov:'' @ opt_str (servicename fd)"
  obtain h hc where h: "cur w k = Some (Hash h)"
    "{''audioQuota'', ''videoQuota'', ''dataQuota'', ''conso''} \<subseteq> dom h"
    "cur w (k @ '':conso'') = Some (Hash hc)" "{''audio'', ''video'', ''data''} \<subseteq> dom hc"
    using assms unfolding provisioned_def by (auto simp: cur_def k_def)
  have "redis_effect w (Hsetnx k f s) = w" if "f \<in> {''audioQuota'', ''videoQuota'', ''dataQuota'', ''conso''}" for f s
    using that h(2) by (intro hsetnx_present[OF h(1)]) blast
  moreover have "redis_effect w (Hsetnx (k @ '':conso'') f s) = w" if "f \<in> {''audio'', ''video'', ''data''}" for f s
    using that h(4) by (intro hsetnx_present[OF h(3)]) blast
  ultimately show ?thesis
    unfolding registerCSP_cmds_def Let_def k_def[symmetric] by (simp del: redis_effect.simps)
qed

lemma registerCSP_fresh:
  assumes "cur w (''prov:'' @ opt_str (servicename fd)) = None"
    and "cur w (''prov:'' @ opt_str (servicename fd) @ '':conso'') = None"
  shows "foldl redis_effect w (registerCSP_cmds fd) =
    cur_put (''prov:'' @ opt_str (servicename fd) @ '':conso'') (Hash zero_conso)
      (cur_put (''prov:'' @ opt_str (servicename fd)) (Hash (quota_hash fd)) w)"
proof -
  define k where "k = ''prov:'' @ opt_str (servicename fd)"
  define kc where "kc = k @ '':conso''"
  have neq: "kc \<noteq> k" "k \<noteq> kc" by (simp_all add: kc_def)
  have a: "cur w k = None" "cur w kc = None" using assms by (simp_all add: k_def kc_def)
  show ?thesis
    unfolding registerCSP_cmds_def Let_def k_def[symmetric] kc_def[symmetric] append_assoc[symmetric]
    using a neq by (simp add: hsetnx_absent hsetnx_new quota_hash_def zero_conso_def k_def[symmetric]
        kc_def[symmetric] append_assoc[symmetric] del: redis_effect.simps append_assoc)
      (simp add: k_def kc_def)
qed

section \<open>Deletion and update\<close>

context redis_server
begin

lemma deleteCSP_moves:
  assumes "dbs (view d) 2 k = Some x" and "dbs (view d) 2 (k @ '':conso'') = Some y"
  shows "dbs (view (fst (run (deleteCSP k) exec d))) = (dbs (view d))(2 :=
      (dbs (view d) 2)(k := None, k @ '':conso'' := None, ''histo'' @ k \<mapsto> x, ''histo'' @ k @ '':conso'' \<mapsto> y))
    \<and> snd (run (deleteCSP k) exec d) = Fulfilled (JNum (Fin 1))"
proof -
  have neq: "length a \<noteq> length b \<Longrightarrow> a \<noteq> b" for a b :: string by auto
  let ?d2 = "fst (exec (fst (exec d (Select 2))) (Rename (k @ '':conso'') (''histo'' @ k @ '':conso'')))"
  have c: "cur (view ?d2) k = Some x" using assms
    by (simp add: cur_def Let_def neq)
  then have "snd (exec ?d2 (Rename k (''histo'' @ k))) = ROk"
    using reply[of ?d2 "Rename k (''histo'' @ k)"] by simp
  moreover have "dbs (view (fst (run (deleteCSP k) exec d))) = (dbs (view d))(2 :=
      (dbs (view d) 2)(k := None, k @ '':conso'' := None, ''histo'' @ k \<mapsto> x, ''histo'' @ k @ '':conso'' \<mapsto> y))"
    using assms by (auto simp: deleteCSP_def cur_def Let_def fun_eq_iff neq)
  ultimately show ?thesis by (simp add: deleteCSP_def numeral_2_eq_2)
qed

lemma deleteCSP_missing:
  assumes "dbs (view d) 2 k = None"
  obtains e where "snd (run (deleteCSP k) exec d) = Rejected (JStr e)"
proof -
  have neq: "length a \<noteq> length b \<Longrightarrow> a \<noteq> b" for a b :: string by auto
  let ?d2 = "fst (exec (fst (exec d (Select 2))) (Rename (k @ '':conso'') (''histo'' @ k @ '':conso'')))"
  have "cur (view ?d2) k = None" using assms by (auto simp: cur_def Let_def neq split: option.split)
  then obtain e where "snd (exec ?d2 (Rename k (''histo'' @ k))) = RErr e"
    using reply[of ?d2 "Rename k (''histo'' @ k)"] by auto
  then show thesis by (intro that[of e]) (simp add: deleteCSP_def numeral_2_eq_2)
qed

lemma updateCSPQuotas_sets:
  assumes "dbs (view d) 2 k = Some (Hash h)"
  shows "view (fst (run (updateCSPQuotas k a v q) exec d)) =
      cur_put k (Hash (h(''audioQuota'' \<mapsto> a, ''videoQuota'' \<mapsto> v, ''dataQuota'' \<mapsto> q))) ((view d)\<lparr>sel := 2\<rparr>)
    \<and> snd (run (updateCSPQuotas k a v q) exec d) = Fulfilled (JStr ''OK'')"
proof -
  let ?d1 = "fst (exec d (Select 2))"
  let ?c = "Hmset k [(''audioQuota'', a), (''videoQuota'', v), (''dataQuota'', q)]"
  have "hash_at (view ?d1) k = Some h" using assms by (simp add: hash_at_def)
  moreover from this have "snd (exec ?d1 ?c) = ROk" using reply[of ?d1 ?c] by simp
  ultimately show ?thesis by (simp add: updateCSPQuotas_def)
qed

lemma registerCSP_run:
  "view (fst (run (snd (registerCSP fd t)) exec d)) = foldl redis_effect ((view d)\<lparr>sel := 2\<rparr>) (registerCSP_cmds fd)"
  by (simp add: registerCSP_def)

end

section \<open>Listing the providers\<close>

lemma re_test_conso: "re_test conso_re s \<longleftrightarrow> sublist '':conso'' s"
proof
  assume "re_test conso_re s"
  then obtain i j where "prefix '':conso'' (drop j (drop i s))"
    unfolding re_test_iff conso_re_def dot_def re_match_star_then re_match_lit_ne by blast
  then show "sublist '':conso'' s"
    by (metis prefix_imp_sublist sublist_drop sublist_order.order_trans)
next
  assume "sublist '':conso'' s"
  then obtain p q where s: "s = p @ '':conso'' @ q" unfolding sublist_def by blast
  have "prefix '':conso'' (drop 0 (drop (length p) s))" by (simp add: s)
  moreover have "length p \<le> length s" by (simp add: s)
  ultimately show "re_test conso_re s"
    unfolding re_test_iff conso_re_def dot_def re_match_star_then re_match_lit_ne
    by (intro exI[of _ "length p"] exI[of _ 0] conjI) simp_all
qed

lemma re_test_conso_end: "re_test conso_end_re s \<Longrightarrow> re_test conso_re s"
proof -
  have "re_match (Cat (lit w) EndA) x \<noteq> [] \<Longrightarrow> re_match (lit w) x \<noteq> []" for w x by auto
  then show "re_test conso_end_re s \<Longrightarrow> re_test conso_re s"
    unfolding re_test_iff conso_re_def conso_end_re_def dot_def re_match_star_then by blast
qed

lemma prov_keys_all: "filter (\<lambda>k. \<not> re_test conso_end_re k) (prov_keys ks) = prov_keys ks"
  using re_test_conso_end by (auto simp: prov_keys_def intro!: filter_cong)

text \<open>The keys of the provider records in a view.\<close>

definition provider_keys :: "rview \<Rightarrow> string set" where
  "provider_keys w = {k \<in> dom (dbs w 2). prefix ''prov:'' k \<and> \<not> sublist '':conso'' k}"

definition info_of :: "string \<Rightarrow> (string \<times> string) list \<Rightarrow> jsval" where
  "info_of k al = JObj (AList.update ''csp'' (JStr k) (map (\<lambda>(f, v). (f, JStr v)) al))"

lemma collect_infos_hashes:
  assumes "length ks = length als" and "ks \<noteq> []" and "length infos + length ks = n"
  shows "collect_infos n infos (zip ks (map RHash als)) = Fulfilled (JArr (infos @ map2 info_of ks als))"
  using assms
proof (induction ks als arbitrary: infos rule: list_induct2)
  case (Cons k ks al als)
  then show ?case by (cases "ks = []") (auto simp: info_of_def Let_def)
qed simp

context redis_server
begin

lemma exec_Hgetalls:
  assumes "\<And>k. k \<in> set ks \<Longrightarrow> \<exists>h. cur (view d) k = Some (Hash h)"
  obtains als where "snd (exec_all exec (map Hgetall ks) d) = map RHash als" "length ks = length als"
    "\<forall>i < length ks. cur (view d) (ks ! i) = Some (Hash (map_of (als ! i)))"
  using assms
proof (induction ks arbitrary: d thesis)
  case (Cons k ks)
  obtain h where h: "cur (view d) k = Some (Hash h)" using Cons.prems(2) by (meson list.set_intros(1))
  obtain al where al: "snd (exec d (Hgetall k)) = RHash al" "map_of al = h" using reply_Hgetall[OF h] by blast
  have "\<exists>h. cur (view (fst (exec d (Hgetall k)))) k' = Some (Hash h)" if "k' \<in> set ks" for k'
    using Cons.prems(2) that by simp
  then obtain als where als: "snd (exec_all exec (map Hgetall ks) (fst (exec d (Hgetall k)))) = map RHash als"
    "length ks = length als"
    "\<forall>i < length ks. cur (view (fst (exec d (Hgetall k)))) (ks ! i) = Some (Hash (map_of (als ! i)))"
    using Cons.IH by blast
  show ?case
    by (rule Cons.prems(1)[of "al # als"]) (use al als h in \<open>auto simp: nth_Cons split: nat.split\<close>)
qed simp

lemma getAllCspInfo_reply:
  obtains ks where "distinct ks" "set ks = provider_keys (view d)"
    "run getAllCspInfo exec d = (let d2 = fst (exec (fst (exec d (Select 2))) (Keys ''prov:*'')) in
       (fst (exec_all exec (map Hgetall ks) d2),
        collect_infos (length ks) [] (zip ks (snd (exec_all exec (map Hgetall ks) d2)))))"
proof -
  let ?d = "fst (exec d (Select 2))"
  obtain ks where ks: "snd (exec ?d (Keys ''prov:*'')) = RList ks" "distinct ks"
    "set ks = {k \<in> dom (cur (view ?d)). glob_match ''prov:*'' k}" by (rule reply_Keys)
  show thesis
  proof (rule that[of "prov_keys ks"])
    show "distinct (prov_keys ks)" using ks(2) by (simp add: prov_keys_def)
    show "set (prov_keys ks) = provider_keys (view d)"
      using ks(3) by (auto simp: prov_keys_def provider_keys_def glob_prov re_test_conso)
  qed (use ks in \<open>simp add: getAllCspInfo_def prov_keys_all Let_def\<close>)
qed

lemma getAllCspInfo_all:
  assumes "provider_keys (view d) \<noteq> {}"
    and "\<And>k. k \<in> provider_keys (view d) \<Longrightarrow> \<exists>h. dbs (view d) 2 k = Some (Hash h)"
  shows "\<exists>ks als. distinct ks \<and> set ks = provider_keys (view d) \<and> length als = length ks
    \<and> (\<forall>i < length ks. dbs (view d) 2 (ks ! i) = Some (Hash (map_of (als ! i))))
    \<and> snd (run getAllCspInfo exec d) = Fulfilled (JArr (map2 info_of ks als))"
proof -
  let ?d = "fst (exec (fst (exec d (Select 2))) (Keys ''prov:*''))"
  obtain ks where ks: "distinct ks" "set ks = provider_keys (view d)"
    and r: "snd (run getAllCspInfo exec d)
       = collect_infos (length ks) [] (zip ks (snd (exec_all exec (map Hgetall ks) ?d)))"
    by (rule getAllCspInfo_reply[of d]) (simp add: Let_def)
  obtain als where als: "snd (exec_all exec (map Hgetall ks) ?d) = map RHash als" "length ks = length als"
    "\<forall>i < length ks. cur (view ?d) (ks ! i) = Some (Hash (map_of (als ! i)))"
    using exec_Hgetalls[of ks ?d] ks(2) assms(2) by auto
  have "ks \<noteq> []" using ks(2) assms(1) by auto
  then have "snd (run getAllCspInfo exec d) = Fulfilled (JArr (map2 info_of ks als))"
    using collect_infos_hashes[OF als(2), of "[]" "length ks"] als(1) r by simp
  with ks als show ?thesis by (intro exI[of _ ks] exI[of _ als]) auto
qed

lemma getAllCspInfo_none:
  assumes "provider_keys (view d) = {}"
  shows "snd (run getAllCspInfo exec d) = Unsettled"
  using assms by (rule_tac getAllCspInfo_reply[of d]) (simp add: Let_def)

end

section \<open>Quota values\<close>

text \<open>A whole number of gigabytes survives the round trip through the stored string.\<close>

lemma quota_roundtrip:
  assumes "n \<le> 2 ^ 23"
  shows "js_Number (quota_arg (js_parseInt (nat_to_base 10 n))) = Fin (of_nat (n * 2 ^ 30))"
proof -
  have big: "n * 2 ^ 30 \<le> (2 ^ 53 :: nat)" using mult_le_mono1[OF assms, of "2 ^ 30"] by simp
  have "js_parseInt (nat_to_base 10 n) = js_rnd (of_nat n)"
    using nat_to_base_10[of n] js_parseInt_digits[of "nat_to_base 10 n"] by simp
  also have "\<dots> = Fin (of_nat n)" using assms by (intro js_rnd_nat) simp
  finally have "js_mul (js_parseInt (nat_to_base 10 n)) asGB = js_rnd (of_nat (n * 2 ^ 30))"
    by (simp add: asGB_def)
  also have "\<dots> = Fin (of_nat (n * 2 ^ 30))" using big by (rule js_rnd_nat)
  finally show ?thesis unfolding quota_arg_def using js_Number_to_string[OF big] by (simp only:)
qed

lemma quota_not_a_number:
  assumes "js_Number q = NaN"
  shows "\<not> js_gt (js_Number c) (js_Number q)"
  using assms by (cases "js_Number c") (auto simp: js_gt_def)

section \<open>Properties of the provisioning\<close>

text \<open>
  C29. Registering a new provider creates exactly its two records, the quotas (in bytes) and the
  consumption at zero, and changes nothing else.
\<close>

theorem register_fresh:
  assumes "redis_server exec view"
    and "dbs (view d) 2 (''prov:'' @ opt_str (servicename fd)) = None"
    and "dbs (view d) 2 (''prov:'' @ opt_str (servicename fd) @ '':conso'') = None"
  shows "dbs (view (fst (run (snd (registerCSP fd t)) exec d))) = (dbs (view d))(2 := (dbs (view d) 2)
     (''prov:'' @ opt_str (servicename fd) \<mapsto> Hash (quota_hash fd),
      ''prov:'' @ opt_str (servicename fd) @ '':conso'' \<mapsto> Hash zero_conso))"
  using registerCSP_fresh[of "(view d)\<lparr>sel := 2\<rparr>" fd] assms(2,3)
  by (simp add: redis_server.registerCSP_run[OF assms(1)])

definition demo_form :: csp_form where
  "demo_form = \<lparr>servicename = Some ''gamma'', audio = None, video = Some ''2'', qdata = Some ''3''\<rparr>"

theorem register_fresh_witness:
  "dbs (mem_view (fst (run (snd (registerCSP demo_form JUndef)) mem_exec demo_mem))) 2 ''prov:gamma''
     = Some (Hash (quota_hash demo_form))"
proof -
  have a: "dbs (mem_view demo_mem) 2 (''prov:'' @ opt_str (servicename demo_form)) = None"
    "dbs (mem_view demo_mem) 2 (''prov:'' @ opt_str (servicename demo_form) @ '':conso'') = None"
    by (simp_all add: demo_form_def demo_dbs demo_keys_def opt_str_def)
  show ?thesis using register_fresh[OF mem.redis_server_axioms a] by (simp add: demo_form_def opt_str_def)
qed

text \<open>
  Registration never overwrites: registering a provider whose records are complete leaves the
  whole database unchanged, so neither its quotas nor its consumption can be reset this way.
\<close>

theorem register_keeps:
  assumes "redis_server exec view" and "provisioned (view d) (opt_str (servicename fd))"
  shows "dbs (view (fst (run (snd (registerCSP fd t)) exec d))) = dbs (view d)"
  using registerCSP_present[of "(view d)\<lparr>sel := 2\<rparr>" fd] assms(2)
  by (simp add: redis_server.registerCSP_run[OF assms(1)] provisioned_def)

theorem register_keeps_witness:
  "dbs (mem_view (fst (run (snd (registerCSP (demo_form\<lparr>servicename := Some ''acme''\<rparr>) JUndef)) mem_exec demo_mem)))
     = dbs (mem_view demo_mem)"
proof -
  have "provisioned (mem_view demo_mem) (opt_str (servicename (demo_form\<lparr>servicename := Some ''acme''\<rparr>)))"
    by (simp add: provisioned_def demo_dbs demo_keys_def opt_str_def)
  then show ?thesis by (rule register_keeps[OF mem.redis_server_axioms])
qed

text \<open>
  C38. Quota arithmetic: a quota of \<open>n\<close> gigabytes (up to \<open>2^23\<close>) typed in the form is stored as a string
  that reads back as exactly \<open>n * 2^30\<close> bytes; no rounding of doubles takes place.
\<close>

theorem quota_exact:
  assumes "n \<le> 2 ^ 23"
  shows "js_Number (quota_arg (js_parseInt (nat_to_base 10 n))) = Fin (of_nat (n * 2 ^ 30))"
  using assms by (rule quota_roundtrip)

theorem quota_exact_witness:
  "(5 :: nat) \<le> 2 ^ 23 \<and> js_Number (quota_arg (js_parseInt (nat_to_base 10 5))) = Fin 5368709120"
  using quota_exact[of 5] by simp

text \<open>
  A provider registered without a readable data quota is never stopped: the quota is stored as
  \<open>NaN\<close>, and no consumption whatever exceeds it.
\<close>

theorem unreadable_quota_unlimited:
  assumes "js_parseInt (opt_str (qdata fd)) = NaN"
  shows "quota_hash fd ''dataQuota'' = Some ''NaN''
    \<and> \<not> quota_exceeded (JObj [(''dataQuota'', JStr ''NaN''), (''dataConso'', JStr c)])"
proof -
  have "quota_hash fd ''dataQuota'' = Some ''NaN''" using assms by (simp add: quota_hash_def quota_arg_def asGB_def)
  moreover have "\<not> js_gt (js_Number c) (js_Number ''NaN'')" by (rule quota_not_a_number) simp
  ultimately show ?thesis by (simp add: quota_exceeded_def)
qed

theorem unreadable_quota_unlimited_witness:
  "js_parseInt (opt_str (qdata (demo_form\<lparr>qdata := None\<rparr>))) = NaN
   \<and> quota_hash (demo_form\<lparr>qdata := None\<rparr>) ''dataQuota'' = Some ''NaN''"
proof -
  have n: "js_parseInt (opt_str (qdata (demo_form\<lparr>qdata := None\<rparr>))) = NaN"
    by (simp add: demo_form_def opt_str_def) code_simp
  show ?thesis using unreadable_quota_unlimited[OF n] n by blast
qed

text \<open>
  Changing the quotas of a provider replaces exactly its three quota fields.
\<close>

theorem quotas_updated:
  assumes "redis_server exec view" and "dbs (view d) 2 k = Some (Hash h)"
  shows "dbs (view (fst (run (updateCSPQuotas k a v q) exec d))) = (dbs (view d))(2 := (dbs (view d) 2)
      (k \<mapsto> Hash (h(''audioQuota'' \<mapsto> a, ''videoQuota'' \<mapsto> v, ''dataQuota'' \<mapsto> q))))
    \<and> snd (run (updateCSPQuotas k a v q) exec d) = Fulfilled (JStr ''OK'')"
  using redis_server.updateCSPQuotas_sets[OF assms] by simp

theorem quotas_updated_witness:
  "snd (run (updateCSPQuotas ''prov:beta'' ''1'' ''2'' ''3'') mem_exec demo_mem) = Fulfilled (JStr ''OK'')"
proof -
  have "\<exists>h. dbs (mem_view demo_mem) 2 ''prov:beta'' = Some (Hash h)" by (simp add: demo_dbs demo_keys_def)
  then obtain h where "dbs (mem_view demo_mem) 2 ''prov:beta'' = Some (Hash h)" ..
  then show ?thesis using quotas_updated[OF mem.redis_server_axioms] by blast
qed

text \<open>
  C30. Deleting a provider moves both its records under the prefix \<open>histo\<close>, changes nothing else, and
  afterwards every request for a TURN server in its name is rejected as unknown.
\<close>

theorem delete_archives:
  assumes "redis_server exec view"
    and "dbs (view d) 2 (''prov:'' @ csp) = Some x" and "dbs (view d) 2 (''prov:'' @ csp @ '':conso'') = Some y"
  defines "d' \<equiv> fst (run (deleteCSP (''prov:'' @ csp)) exec d)"
  shows "dbs (view d') = (dbs (view d))(2 := (dbs (view d) 2)
      (''prov:'' @ csp := None, ''prov:'' @ csp @ '':conso'' := None,
       ''histoprov:'' @ csp \<mapsto> x, ''histoprov:'' @ csp @ '':conso'' \<mapsto> y))
    \<and> snd (run (getAppropriateTurn MD5 now r csp name) exec d')
        = Rejected (JStr ''Unable to get a turn server : CSP not found'')"
proof -
  have v: "dbs (view d') = (dbs (view d))(2 := (dbs (view d) 2)
      (''prov:'' @ csp := None, ''prov:'' @ csp @ '':conso'' := None,
       ''histoprov:'' @ csp \<mapsto> x, ''histoprov:'' @ csp @ '':conso'' \<mapsto> y))"
    using redis_server.deleteCSP_moves[OF assms(1), of d "''prov:'' @ csp" x y] assms(2,3)
    by (simp add: d'_def)
  moreover have "dbs (view d') 2 (''prov:'' @ csp) = None" unfolding v by simp
  ultimately show ?thesis using redis_server.getAppropriateTurn_unknown[OF assms(1)] by blast
qed

theorem delete_archives_witness:
  "snd (run (getAppropriateTurn rev ''2016'' 0 ''beta'' ''bob'') mem_exec
     (fst (run (deleteCSP (''prov:'' @ ''beta'')) mem_exec demo_mem)))
   = Rejected (JStr ''Unable to get a turn server : CSP not found'')"
proof -
  have "\<exists>x y. dbs (mem_view demo_mem) 2 (''prov:'' @ ''beta'') = Some x
      \<and> dbs (mem_view demo_mem) 2 (''prov:'' @ ''beta'' @ '':conso'') = Some y"
    by (simp add: demo_dbs demo_keys_def)
  then obtain x y where "dbs (mem_view demo_mem) 2 (''prov:'' @ ''beta'') = Some x"
      "dbs (mem_view demo_mem) 2 (''prov:'' @ ''beta'' @ '':conso'') = Some y" by blast
  then show ?thesis using delete_archives[OF mem.redis_server_axioms] by blast
qed

text \<open>
  Listing is complete: when every provider key holds a hash, \<open>getAllCspInfo\<close> answers one
  object per provider, no provider twice, each with all stored fields and its key.
\<close>

theorem listing_complete:
  assumes "redis_server exec view" and "provider_keys (view d) \<noteq> {}"
    and "\<And>k. k \<in> provider_keys (view d) \<Longrightarrow> \<exists>h. dbs (view d) 2 k = Some (Hash h)"
  shows "\<exists>ks als. distinct ks \<and> set ks = provider_keys (view d) \<and> length als = length ks
    \<and> (\<forall>i < length ks. dbs (view d) 2 (ks ! i) = Some (Hash (map_of (als ! i))))
    \<and> snd (run getAllCspInfo exec d) = Fulfilled (JArr (map2 info_of ks als))"
  using assms by (rule redis_server.getAllCspInfo_all)

lemma demo_provider_keys: "provider_keys (mem_view demo_mem) = {''prov:acme'', ''prov:beta''}"
proof -
  have "k \<in> provider_keys (mem_view demo_mem) \<longleftrightarrow>
    k \<in> set (filter (\<lambda>k. prefix ''prov:'' k \<and> \<not> sublist '':conso'' k) (map fst demo_keys))" for k
    by (auto simp: provider_keys_def demo_dbs dom_def map_of_eq_None_iff image_iff)
  moreover have "filter (\<lambda>k. prefix ''prov:'' k \<and> \<not> sublist '':conso'' k) (map fst demo_keys) = [''prov:acme'', ''prov:beta'']"
    by code_simp
  ultimately show ?thesis by auto
qed

theorem listing_complete_witness:
  "\<exists>ks als. set ks = {''prov:acme'', ''prov:beta''} \<and> distinct ks
    \<and> snd (run getAllCspInfo mem_exec demo_mem) = Fulfilled (JArr (map2 info_of ks als))"
proof -
  have "\<exists>h. dbs (mem_view demo_mem) 2 k = Some (Hash h)" if "k \<in> provider_keys (mem_view demo_mem)" for k
    using that unfolding demo_provider_keys by (auto simp: demo_dbs demo_keys_def)
  then show ?thesis
    using listing_complete[OF mem.redis_server_axioms, of demo_mem] unfolding demo_provider_keys by blast
qed

text \<open>
  With no provider registered, \<open>getAllCspInfo\<close> never settles its promise.
\<close>

theorem listing_empty_hangs:
  assumes "redis_server exec view" and "provider_keys (view d) = {}"
  shows "snd (run getAllCspInfo exec d) = Unsettled"
  using assms by (rule redis_server.getAllCspInfo_none)

theorem listing_empty_hangs_witness: "snd (run getAllCspInfo mem_exec empty_mem) = Unsettled"
  by (rule listing_empty_hangs[OF mem.redis_server_axioms])
    (simp add: provider_keys_def mem_view_def empty_mem_def)

end
