(* ===== verification/Broker_Accounting.thy ===== *)
theory Broker_Accounting
  imports Broker_Allocation
begin

text \<open>
  Traffic accounting: the messages the TURN server publishes, the subscriptions to its channels and
  the consumption they are charged to.
\<close>

section \<open>Integers of the server\<close>

lemma nat_to_base_hd: "0 < n \<Longrightarrow> hd (nat_to_base 10 n) \<noteq> CHR ''0''"
proof (induction "10 :: nat" n rule: nat_to_base.induct)
  case (1 n)
  show ?case
  proof (cases "n < 10")
    case True
    have "digit_value (digit_char n) = Some n" using True by simp
    moreover have "digit_value (CHR ''0'') = Some 0" by (simp add: digit_value_def)
    ultimately have "digit_char n \<noteq> CHR ''0''" using 1(2) by (metis option.inject less_irrefl)
    then show ?thesis using True by (simp add: nat_to_base.simps)
  next
    case False
    then have "hd (nat_to_base 10 (n div 10)) \<noteq> CHR ''0''" using 1 by simp
    then show ?thesis using False nat_to_base_10[of "n div 10"] by (simp add: nat_to_base.simps[of 10 n])
  qed
qed

lemma nat_to_base_0: "nat_to_base 10 0 = ''0''"
  by (simp add: nat_to_base.simps digit_char_def char_of_48)

lemma plain_digits_nat: "plain_digits (nat_to_base 10 n)"
  using nat_to_base_10[of n] nat_to_base_hd[of n] by (cases n) (auto simp: plain_digits_def nat_to_base_0)

lemma parse_int64_nat: "int n < 2 ^ 63 \<Longrightarrow> parse_int64 (nat_to_base 10 n) = Some (int n)"
proof -
  assume n: "int n < 2 ^ 63"
  obtain c cs where s: "nat_to_base 10 n = c # cs" using nat_to_base_10[of n] by (metis neq_Nil_conv)
  then have "is_digit 10 c" using nat_to_base_10[of n] by simp
  then have "c \<noteq> CHR ''-''" by auto
  then show ?thesis using s n nat_to_base_10[of n] plain_digits_nat[of n]
    by (simp add: parse_int64_def int64_ok_def)
qed

lemma parse_int64_int: "int64_ok n \<Longrightarrow> parse_int64 (int_to_string n) = Some n"
proof (cases "n < 0")
  case True
  moreover assume "int64_ok n"
  ultimately show ?thesis using nat_to_base_10[of "nat (- n)"] plain_digits_nat
    by (simp add: int_to_string_def parse_int64_def)
next
  case False
  moreover assume "int64_ok n"
  ultimately show ?thesis using parse_int64_nat[of "nat n"] by (simp add: int_to_string_def int64_ok_def)
qed

section \<open>Charging traffic\<close>

definition conso_value :: "rview \<Rightarrow> string \<Rightarrow> int option" where
  "conso_value w csp = (case dbs w 2 (''prov:'' @ csp @ '':conso'') of
     Some (Hash h) \<Rightarrow> Option.bind (h ''data'') parse_int64 | _ \<Rightarrow> None)"

definition owner :: "rview \<Rightarrow> string \<Rightarrow> string option" where
  "owner w user = (case dbs w 2 (''users:'' @ user) of Some (Str p) \<Rightarrow> Some p | _ \<Rightarrow> None)"

definition charge :: "string \<Rightarrow> int \<Rightarrow> rview \<Rightarrow> rview" where
  "charge csp n w = (case dbs w 2 (''prov:'' @ csp @ '':conso'') of
     Some (Hash h) \<Rightarrow> cur_put (''prov:'' @ csp @ '':conso'') (Hash (h(''data'' \<mapsto> int_to_string n))) (w\<lparr>sel := 2\<rparr>)
   | _ \<Rightarrow> w\<lparr>sel := 2\<rparr>)"

lemma conso_value_charge:
  assumes "conso_value w csp \<noteq> None" and "int64_ok n"
  shows "conso_value (charge csp n w) p = (if p = csp then Some n else conso_value w p)"
  using assms by (auto simp: conso_value_def charge_def parse_int64_int split: option.splits rval.splits)

lemma owner_charge [simp]: "owner (charge csp n w) u = owner w u"
  by (auto simp: owner_def charge_def split: option.splits rval.splits)

lemma sel_charge [simp]: "sel (charge csp n w) = 2"
  by (auto simp: charge_def split: option.splits rval.splits)

text \<open>The bytes of a list of reports that belong to a provider.\<close>

definition charged :: "rview \<Rightarrow> string \<Rightarrow> (string \<times> nat) list \<Rightarrow> nat" where
  "charged w csp ts = sum_list (map snd (filter (\<lambda>t. owner w (fst t) = Some csp) ts))"

fun run_all :: "'a proc list \<Rightarrow> ('d \<Rightarrow> cmd \<Rightarrow> 'd \<times> reply) \<Rightarrow> 'd \<Rightarrow> 'd" where
  "run_all [] ex d = d"
| "run_all (p # ps) ex d = run_all ps ex (fst (run p ex d))"

definition report :: "string \<times> nat \<Rightarrow> op" where
  "report t = addCSPConso (Some (fst t, nat_to_base 10 (snd t)))"

context redis_server
begin

lemma addCSPConso_owned:
  assumes "owner (view d) u = Some p" and "conso_value (view d) p = Some m"
    and "parse_int64 b = Some n" and "int64_ok (m + n)"
  shows "view (fst (run (addCSPConso (Some (u, b))) exec d)) = charge p (m + n) (view d)
    \<and> snd (run (addCSPConso (Some (u, b))) exec d) = Fulfilled (JNum (js_rnd (of_int (m + n))))"
proof -
  let ?d1 = "fst (exec d (Select 2))"
  let ?d2 = "fst (exec ?d1 (Get (''users:'' @ u)))"
  obtain h s where h: "dbs (view d) 2 (''prov:'' @ p @ '':conso'') = Some (Hash h)"
    "h ''data'' = Some s" "parse_int64 s = Some m"
    using assms(2) by (auto simp: conso_value_def bind_eq_Some_conv split: option.splits rval.splits)
  have "cur (view ?d1) (''users:'' @ u) = Some (Str p)"
    using assms(1) by (auto simp: owner_def split: option.splits rval.splits)
  then have g: "snd (exec ?d1 (Get (''users:'' @ u))) = RBulk p" by (rule reply_Get_Str)
  have i: "hash_at (view ?d2) (''prov:'' @ p @ '':conso'') = Some h" "incr_field h ''data'' b = Some (m + n)"
    using h assms by (simp_all add: hash_at_def incr_field_def add.commute)
  have r: "snd (exec ?d2 (Hincrby (''prov:'' @ p @ '':conso'') ''data'' b)) = RInt (m + n)"
    using reply[of ?d2 "Hincrby (''prov:'' @ p @ '':conso'') ''data'' b"] i by simp
  show ?thesis using g r i h by (simp add: addCSPConso_def owner_str_def charge_def)
qed

lemma run_reports:
  assumes "\<And>u b. (u, b) \<in> set ts \<Longrightarrow> \<exists>p. owner (view d) u = Some p \<and> conso_value (view d) p \<noteq> None"
    and "\<And>p m. conso_value (view d) p = Some m \<Longrightarrow> 0 \<le> m \<and> m + int (sum_list (map snd ts)) < 2 ^ 63"
    and "conso_value (view d) csp = Some m"
  shows "conso_value (view (run_all (map report ts) exec d)) csp = Some (m + int (charged (view d) csp ts))"
  using assms
proof (induction ts arbitrary: d m)
  case Nil
  then show ?case by (simp add: charged_def)
next
  case (Cons t ts)
  obtain u b where t: "t = (u, b)" by fastforce
  obtain p k where p: "owner (view d) u = Some p" "conso_value (view d) p = Some k"
    using Cons.prems(1)[of u b] t by auto
  have bounds: "0 \<le> k" "k + (int b + int (sum_list (map snd ts))) < 2 ^ 63" using Cons.prems(2)[OF p(2)] t by auto
  then have ok: "int64_ok (k + int b)" "int b < 2 ^ 63" by (auto simp: int64_ok_def)
  let ?d = "fst (run (report t) exec d)"
  have v: "view ?d = charge p (k + int b) (view d)"
    using addCSPConso_owned[OF p parse_int64_nat[OF ok(2)] ok(1)] t by (simp add: report_def)
  have cv: "conso_value (view ?d) q = (if q = p then Some (k + int b) else conso_value (view d) q)" for q
    using p(2) ok(1) by (simp add: v conso_value_charge)
  have ow: "owner (view ?d) x = owner (view d) x" for x by (simp add: v)
  have ch: "charged (view ?d) csp ts = charged (view d) csp ts" by (simp add: charged_def ow)
  have IH: "conso_value (view (run_all (map report ts) exec ?d)) csp
      = Some ((if csp = p then k + int b else m) + int (charged (view ?d) csp ts))"
  proof (rule Cons.IH)
    show "\<exists>q. owner (view ?d) v = Some q \<and> conso_value (view ?d) q \<noteq> None" if "(v, c) \<in> set ts" for v c
    proof -
      have "(v, c) \<in> set (t # ts)" using that by simp
      from Cons.prems(1)[OF this] obtain q where "owner (view d) v = Some q" "conso_value (view d) q \<noteq> None"
        by blast
      then show ?thesis by (intro exI[of _ q]) (simp add: ow cv)
    qed
    show "0 \<le> l \<and> l + int (sum_list (map snd ts)) < 2 ^ 63" if "conso_value (view ?d) q = Some l" for q l
      using that[unfolded cv] bounds Cons.prems(2)[of q] t by (auto split: if_splits)
    show "conso_value (view ?d) csp = Some (if csp = p then k + int b else m)"
      using Cons.prems(3) by (simp add: cv)
  qed
  have eq: "m = k" if "csp = p" using that p(2) Cons.prems(3) by simp
  have "charged (view d) csp (t # ts) = (if csp = p then b else 0) + charged (view d) csp ts"
    using p(1) t by (simp add: charged_def)
  then show ?case using IH[unfolded ch] eq by simp
qed

lemma addCSPConso_unknown:
  assumes "dbs (view d) 2 (''users:'' @ u) = None" and "conso_value (view d) ''null'' = Some m"
    and "parse_int64 b = Some n" and "int64_ok (m + n)"
  shows "conso_value (view (fst (run (addCSPConso (Some (u, b))) exec d))) ''null'' = Some (m + n)"
proof -
  let ?d1 = "fst (exec d (Select 2))"
  let ?d2 = "fst (exec ?d1 (Get (''users:'' @ u)))"
  have "snd (exec ?d1 (Get (''users:'' @ u))) = RNil" using assms(1) by (intro reply_Get) simp
  moreover obtain h s where "dbs (view d) 2 ''prov:null:conso'' = Some (Hash h)"
    "h ''data'' = Some s" "parse_int64 s = Some m"
    using assms(2) by (auto simp: conso_value_def bind_eq_Some_conv split: option.splits rval.splits)
  ultimately show ?thesis using assms
    by (simp add: addCSPConso_def owner_str_def hash_at_def incr_field_def conso_value_def
        parse_int64_int add.commute)
qed

lemma addCSPConso_malformed:
  "view (fst (run (addCSPConso None) exec d)) = (view d)\<lparr>sel := 2\<rparr>
   \<and> snd (run (addCSPConso None) exec d) = Unsettled"
  by (simp add: addCSPConso_def)

end

section \<open>The traffic messages\<close>

text \<open>A channel and a message as the TURN server publishes them.\<close>

definition channel_of :: "string \<Rightarrow> string \<Rightarrow> string \<Rightarrow> string \<Rightarrow> nat \<Rightarrow> string" where
  "channel_of a b realm user n = ''turn/'' @ a @ ''/'' @ b @ ''/realm/'' @ realm @ ''/user/'' @ user
     @ ''/allocation/'' @ nat_to_base 10 n @ ''/traffic''"

definition traffic_of :: "nat \<Rightarrow> nat \<Rightarrow> nat \<Rightarrow> nat \<Rightarrow> string" where
  "traffic_of rcvp rcvb sentp sentb = ''rcvp='' @ nat_to_base 10 rcvp @ '', rcvb='' @ nat_to_base 10 rcvb
     @ '', sentp='' @ nat_to_base 10 sentp @ '', sentb='' @ nat_to_base 10 sentb"

text \<open>A path segment: no slash and no line break.\<close>

definition plain_segment :: "string \<Rightarrow> bool" where
  "plain_segment s = (list_all (\<lambda>c. c \<noteq> CHR 0x0A \<and> c \<noteq> CHR 0x0D) s \<and> CHR ''/'' \<notin> set s)"

lemma digit_chars: "is_digit 10 c \<longleftrightarrow> c \<in> set ''0123456789''"
proof -
  have "is_digit 10 c \<longleftrightarrow> 48 \<le> (of_char c :: nat) \<and> (of_char c :: nat) \<le> 57"
    by (auto simp: is_digit_def digit_value_def Let_def split: option.splits if_splits)
  also have "\<dots> \<longleftrightarrow> (of_char c :: nat) \<in> {48, 49, 50, 51, 52, 53, 54, 55, 56, 57}"
  proof -
    have "48 \<le> m \<and> m \<le> 57 \<longleftrightarrow> m \<in> {48, 49, 50, 51, 52, 53, 54, 55, 56, 57}" for m :: nat
      unfolding insert_iff empty_iff by presburger
    then show ?thesis by blast
  qed
  also have "\<dots> \<longleftrightarrow> c \<in> set ''0123456789''"
  proof -
    have "of_char c = (of_char e :: nat) \<longleftrightarrow> c = e" for e by simp
    from this[of "CHR ''0''"] this[of "CHR ''1''"] this[of "CHR ''2''"] this[of "CHR ''3''"]
      this[of "CHR ''4''"] this[of "CHR ''5''"] this[of "CHR ''6''"] this[of "CHR ''7''"]
      this[of "CHR ''8''"] this[of "CHR ''9''"]
    show ?thesis by (simp del: of_char_eq_iff)
  qed
  finally show ?thesis .
qed

lemma digits_all: "list_all (\<lambda>c. c \<in> set ''0123456789'') (nat_to_base 10 n)"
  using nat_to_base_10[of n] unfolding list_all_iff digit_chars[symmetric] by blast

lemma first_lazy:
  "plain_segment w \<Longrightarrow> l = CHR ''/'' # l' \<Longrightarrow> re_first (Cat (Star False dot) (lit l)) (w @ l @ t, cs) (t, cs)"
  unfolding dot_def by (simp only: plain_segment_def) (rule re_first_lazy_until, simp_all)

lemma first_lazy_capture:
  "plain_segment w \<Longrightarrow> l = CHR ''/'' # l' \<Longrightarrow>
   re_first (Cat (Grp n (Star False dot)) (lit l)) (w @ l @ t, cs) (t, cs(n \<mapsto> w))"
  unfolding dot_def by (simp only: plain_segment_def) (rule re_first_lazy_capture, simp_all)

lemma first_digits:
  "t = [] \<or> hd t \<notin> set ''0123456789'' \<Longrightarrow> re_first (Star True digit_re) (nat_to_base 10 n @ t, cs) (t, cs)"
  unfolding digit_re_def chr_class_def by (rule re_first_greedy[OF digits_all])

lemma first_digits_capture:
  "t = [] \<or> hd t \<notin> set ''0123456789'' \<Longrightarrow>
   re_first (Grp k (Star True digit_re)) (nat_to_base 10 n @ t, cs) (t, cs(k \<mapsto> nat_to_base 10 n))"
  unfolding digit_re_def chr_class_def by (rule re_first_greedy_capture[OF digits_all])

lemma channel_first:
  assumes "plain_segment a" "plain_segment b" "plain_segment realm" "plain_segment user"
  shows "re_first channel_re (channel_of a b realm user n, Map.empty)
    (''traffic'', [1 \<mapsto> user, 2 \<mapsto> nat_to_base 10 n])"
proof -
  have slash: "''/traffic'' = ''/'' @ ''traffic''" by simp
  have r: "re_first (Cat (Grp 2 (Star True digit_re)) (lit ''/''))
     (nat_to_base 10 n @ ''/'' @ ''traffic'', [1 \<mapsto> user]) (''traffic'', [1 \<mapsto> user, 2 \<mapsto> nat_to_base 10 n])"
    by (rule re_first_Cat[OF first_digits_capture re_first_lit]) simp
  show ?thesis unfolding channel_of_def channel_re_def slash
    by (rule re_first_Cat[OF re_first_lit]
        re_first_Cat[OF first_lazy[OF assms(1) refl]]
        re_first_Cat[OF first_lazy[OF assms(2) refl]]
        re_first_Cat[OF first_lazy[OF assms(3) refl]]
        re_first_Cat[OF first_lazy_capture[OF assms(4) refl] r])+
qed

lemma traffic_first:
  "re_first traffic_re (traffic_of rp rb sp sb, Map.empty) ([], [1 \<mapsto> nat_to_base 10 rb, 2 \<mapsto> nat_to_base 10 sb])"
proof -
  let ?c1 = "[1 \<mapsto> nat_to_base 10 rb] :: captures"
  have e: "nat_to_base 10 sb = nat_to_base 10 sb @ []" by simp
  have r4: "re_first (Grp 2 (Star True digit_re)) (nat_to_base 10 sb, ?c1) ([], ?c1(2 \<mapsto> nat_to_base 10 sb))"
    using first_digits_capture[of "[]" 2 sb ?c1] by simp
  show ?thesis unfolding traffic_of_def traffic_re_def
    by (rule re_first_Cat[OF re_first_lit] re_first_Cat[OF first_digits]
        re_first_Cat[OF first_digits_capture] r4 | simp)+
qed

lemma parseTurnTraffic_printed:
  assumes "plain_segment a" "plain_segment b" "plain_segment realm" "plain_segment user"
  shows "parseTurnTraffic (channel_of a b realm user n) (traffic_of rp rb sp sb) = Some (user, nat_to_base 10 sb)"
  unfolding parseTurnTraffic_def re_exec_first[OF channel_first[OF assms]]
    re_exec_first[OF traffic_first] option.case by simp

section \<open>Subscriptions\<close>

lemma pmessages_once:
  "distinct subs \<Longrightarrow> distinct (snd (pmessages subs ms))
   \<and> set (snd (pmessages subs ms)) = set ms - set subs - set object_members
   \<and> fst (pmessages subs ms) = subs @ snd (pmessages subs ms)"
proof (induction ms arbitrary: subs)
  case (Cons m ms)
  show ?case
  proof (cases "m \<in> set subs \<or> m \<in> set object_members")
    case True
    then have "pmessages subs (m # ms) = pmessages subs ms" by (simp add: on_pmessage_def case_prod_beta)
    with Cons.IH[OF Cons.prems] True show ?thesis by auto
  next
    case False
    let ?P = "pmessages (subs @ [m]) ms"
    have eq: "pmessages subs (m # ms) = (fst ?P, m # snd ?P)"
      using False by (simp add: on_pmessage_def case_prod_beta)
    have IH: "distinct (snd ?P)" "set (snd ?P) = set ms - set (subs @ [m]) - set object_members"
      "fst ?P = (subs @ [m]) @ snd ?P"
      using Cons.IH[of "subs @ [m]"] Cons.prems False by simp_all
    show ?thesis unfolding eq using IH False by auto
  qed
qed simp

section \<open>Published messages\<close>

text \<open>The reports of a TURN server: user, allocation number and the four counters.\<close>

definition publish :: "string \<times> nat \<Rightarrow> op" where
  "publish t = on_message (channel_of ''server'' ''0'' REALM (fst t) 1) (traffic_of 2 3 4 (snd t))"

lemma plain_realm: "plain_segment REALM" "plain_segment ''server''" "plain_segment ''0''"
  by (simp_all add: plain_segment_def REALM_def)

lemma on_message_report:
  assumes "plain_segment a" "plain_segment b" "plain_segment realm" "plain_segment u"
  shows "on_message (channel_of a b realm u n) (traffic_of rp rb sp sb) = report (u, sb)"
  by (simp add: on_message_def report_def parseTurnTraffic_printed[OF assms])

lemma publish_report: "plain_segment (fst t) \<Longrightarrow> publish t = report t"
  unfolding publish_def by (simp add: on_message_report plain_realm)

context redis_server
begin

lemma run_published:
  assumes "\<And>u b. (u, b) \<in> set ts \<Longrightarrow> plain_segment u \<and> (\<exists>p. owner (view d) u = Some p \<and> conso_value (view d) p \<noteq> None)"
    and "\<And>p m. conso_value (view d) p = Some m \<Longrightarrow> 0 \<le> m \<and> m + int (sum_list (map snd ts)) < 2 ^ 63"
    and "conso_value (view d) csp = Some m"
  shows "conso_value (view (run_all (map publish ts) exec d)) csp = Some (m + int (charged (view d) csp ts))"
proof -
  have "map publish ts = map report ts" using assms(1) publish_report by (auto intro!: map_cong)
  then show ?thesis using run_reports[of ts d csp m] assms by metis
qed

lemma addCSPConso_unknown_fresh:
  assumes "dbs (view d) 2 (''users:'' @ u) = None" and "dbs (view d) 2 ''prov:null:conso'' = None"
    and "parse_int64 b = Some n"
  shows "dbs (view (fst (run (addCSPConso (Some (u, b))) exec d))) 2
     = (dbs (view d) 2)(''prov:null:conso'' \<mapsto> Hash [''data'' \<mapsto> int_to_string n])"
proof -
  let ?d1 = "fst (exec d (Select 2))"
  have "snd (exec ?d1 (Get (''users:'' @ u))) = RNil" using assms(1) by (intro reply_Get) simp
  moreover have "int64_ok n" using assms(3) by (auto simp: parse_int64_def Let_def split: list.splits if_splits)
  ultimately show ?thesis using assms
    by (simp add: addCSPConso_def owner_str_def hash_at_def incr_field_def)
qed

end

section \<open>Frames\<close>

lemma js_Number_int64:
  assumes "parse_int64 s = Some (int m)"
  shows "js_Number s = js_rnd (of_nat m)"
proof (cases "\<exists>ds. s = CHR ''-'' # ds")
  case True
  then show ?thesis using assms by (auto simp: parse_int64_def Let_def split: if_splits)
next
  case False
  then have "plain_digits s \<and> int (digits_value 10 s) = int m" using assms
    by (auto simp: parse_int64_def Let_def split: list.splits if_splits)
  then show ?thesis using js_Number_digits[of s] by (simp add: plain_digits_def)
qed

context redis_server
begin

lemma addCSPConso_frame:
  assumes "\<And>p. k \<noteq> ''prov:'' @ p @ '':conso''"
  shows "dbs (view (fst (run (addCSPConso t) exec d))) 2 k = dbs (view d) 2 k"
proof (cases t)
  case None
  then show ?thesis by (simp add: addCSPConso_def)
next
  case (Some ub)
  obtain u b where "ub = (u, b)" by fastforce
  with Some show ?thesis using assms
    by (auto simp: addCSPConso_def split: option.split)
qed

lemma reports_frame:
  assumes "\<And>p. k \<noteq> ''prov:'' @ p @ '':conso''"
  shows "dbs (view (run_all (map report ts) exec d)) 2 k = dbs (view d) 2 k"
proof (induction ts arbitrary: d)
  case (Cons t ts)
  then show ?case by (simp add: report_def addCSPConso_frame[OF assms])
qed simp

end

section \<open>Properties of the accounting\<close>


lemma demo_conso: "conso_value (mem_view demo_mem) p =
  (if p = ''acme'' then Some 1073741825 else if p = ''beta'' then Some 10 else None)"
  by (auto simp: conso_value_def demo_dbs demo_keys_def parse_int64_def plain_digits_def int64_ok_def digit_eval)

lemma demo_owner: "owner (mem_view demo_mem) ''u1'' = Some ''beta''"
  by (simp add: owner_def demo_dbs demo_keys_def)


text \<open>
  C28. Round trip of a traffic report: a channel and a message as the TURN server prints them (for
  any segments without slash or line break, and any counters) parse to the user and the decimal
  number of sent bytes.
\<close>

theorem parse_printed_traffic:
  assumes "plain_segment a" "plain_segment b" "plain_segment realm" "plain_segment user"
  shows "parseTurnTraffic (channel_of a b realm user n) (traffic_of rp rb sp sb) = Some (user, nat_to_base 10 sb)"
  using assms by (rule parseTurnTraffic_printed)

theorem parse_printed_traffic_witness:
  "parseTurnTraffic (channel_of ''server'' ''0'' REALM ''u1'' 1) (traffic_of 1 2 3 500) = Some (''u1'', nat_to_base 10 500)"
  using parse_printed_traffic[OF plain_realm(2,3,1), of "''u1''" 1 1 2 3 500] by (simp add: plain_segment_def)

text \<open>
  A message that is not a traffic report changes no record and settles no promise.
\<close>

theorem malformed_traffic:
  assumes "redis_server exec view" and "parseTurnTraffic channel message = None"
  shows "dbs (view (fst (run (on_message channel message) exec d))) = dbs (view d)
    \<and> ttl (view (fst (run (on_message channel message) exec d))) = ttl (view d)
    \<and> snd (run (on_message channel message) exec d) = Unsettled"
  using redis_server.addCSPConso_malformed[OF assms(1), of d] assms(2) by (simp add: on_message_def)

theorem malformed_traffic_witness:
  "parseTurnTraffic ''x'' ''y'' = None \<and>
   dbs (mem_view (fst (run (on_message ''x'' ''y'') mem_exec demo_mem))) = dbs (mem_view demo_mem)"
proof -
  have n: "parseTurnTraffic ''x'' ''y'' = None" by code_simp
  show ?thesis using malformed_traffic[OF mem.redis_server_axioms n, of demo_mem] n by blast
qed

text \<open>
  Traffic of a user the broker does not know (or no longer knows, after a week) is charged to
  the key \<open>prov:null:conso\<close>, which the first such message creates; no other key changes.
\<close>

theorem unknown_user_traffic:
  assumes "redis_server exec view"
    and "dbs (view d) 2 (''users:'' @ u) = None" and "dbs (view d) 2 ''prov:null:conso'' = None"
    and "parse_int64 b = Some n"
  shows "dbs (view (fst (run (addCSPConso (Some (u, b))) exec d))) 2
     = (dbs (view d) 2)(''prov:null:conso'' \<mapsto> Hash [''data'' \<mapsto> int_to_string n])"
  using assms by (rule redis_server.addCSPConso_unknown_fresh)

theorem unknown_user_traffic_witness:
  "dbs (mem_view (fst (run (addCSPConso (Some (''u9'', ''500''))) mem_exec demo_mem))) 2 ''prov:null:conso''
     = Some (Hash [''data'' \<mapsto> int_to_string 500])"
proof -
  have n: "parse_int64 ''500'' = Some 500"
    by (simp add: parse_int64_def plain_digits_def int64_ok_def digit_eval)
  have a: "dbs (mem_view demo_mem) 2 (''users:'' @ ''u9'') = None" "dbs (mem_view demo_mem) 2 ''prov:null:conso'' = None"
    by (simp_all add: demo_dbs demo_keys_def)
  show ?thesis using unknown_user_traffic[OF mem.redis_server_axioms a n] by simp
qed

text \<open>
  Subscriptions: over any sequence of pattern messages each channel is subscribed exactly once
  (the names every JavaScript object inherits count as subscribed already).
\<close>

theorem subscribed_once:
  "distinct (snd (pmessages [] ms)) \<and> set (snd (pmessages [] ms)) = set ms - set object_members
   \<and> fst (pmessages [] ms) = snd (pmessages [] ms)"
  using pmessages_once[of "[]" ms] by simp

end
