(* ===== verification/Broker_Credentials.thy ===== *)
theory Broker_Credentials
  imports Broker_Provisioning Broker_Accounting
begin

text \<open>
  TURN credentials, the generated passwords, and which databases the operations touch.
\<close>

section \<open>Credentials\<close>

context redis_server
begin

lemma getCredentials_alone:
  "dbs (view (fst (run (getCredentials MD5 r cid) exec d))) =
     (dbs (view d))(0 := (dbs (view d) 0)(credential_key (opt_str cid) \<mapsto> Str (MD5 (opt_str cid @ '':'' @ REALM @ '':'' @ randomString 6 r))))
   \<and> snd (run (getCredentials MD5 r cid) exec d)
     = Fulfilled (JObj [(''clientId'', opt_val cid), (''password'', JStr (randomString 6 r))])"
  by (simp add: getCredentials_def createTurnCredentials_def run_bind Let_def)

end

section \<open>Passwords\<close>

lemma random_number_range:
  assumes "0 \<le> r" and "r < 1"
  obtains n where "random_number 6 r = Fin (of_nat n)" "35 * 36 ^ 6 \<le> n" "n \<le> 36 ^ 7"
proof -
  have p: "js_rnd 0 = Fin 0" "js_rnd (36 ^ 6) = Fin (36 ^ 6)" by simp_all
  have "\<exists>x. js_mul (Fin r) (Fin (36 ^ 6)) = Fin x \<and> 0 \<le> x \<and> x \<le> 36 ^ 6"
    using js_rnd_between[OF p, of "r * 36 ^ 6"] assms by simp
  then obtain x where x: "js_mul (Fin r) (Fin (36 ^ 6)) = Fin x" "0 \<le> x" "x \<le> 36 ^ 6" by blast
  have q: "js_rnd (35 * 36 ^ 6) = Fin (35 * 36 ^ 6)" "js_rnd (36 ^ 7) = Fin (36 ^ 7)" by simp_all
  obtain y where y: "js_sub (Fin (36 ^ 7)) (Fin x) = Fin y" "35 * 36 ^ 6 \<le> y" "y \<le> 36 ^ 7"
    using js_rnd_between[OF q, of "36 ^ 7 - x"] x by (auto simp: js_sub_def)
  let ?n = "\<lfloor>y + 1 / 2\<rfloor>"
  have n: "35 * 36 ^ 6 \<le> ?n" "?n \<le> 36 ^ 7" using y by (simp_all add: le_floor_iff floor_le_iff)
  have "random_number 6 r = Fin (of_int ?n)" using x y by (simp add: random_number_def)
  then show thesis using n by (intro that[of "nat ?n"]) (simp_all add: le_nat_iff nat_le_iff)
qed

section \<open>Which databases the operations select\<close>

lemma confined_getCSPInfos: "confined 2 (getCSPInfos k)"
  by (simp add: getCSPInfos_def confined_select_then)

lemma confined_getCSPConso: "confined 2 (getCSPConso k)"
  by (simp add: getCSPConso_def confined_select_then)

lemma confined_getCspInfoAndConso: "confined 2 (getCspInfoAndConso csp)"
  unfolding getCspInfoAndConso_def Let_def
  by (rule confined_bind[OF confined_getCSPInfos])
    (auto intro!: all_segs_bind confined_segs[OF confined_getCSPConso] split: promise.split option.split)

lemma confined_getTurnServers: "confined 2 getTurnServers"
  unfolding getTurnServers_def by (rule confined_select_then) (auto split: reply.split)

lemma confined_getAppropriateTurn: "confined 2 (getAppropriateTurn MD5 now r csp name)"
  unfolding getAppropriateTurn_def Let_def
proof (rule confined_sync)
  show "confined 2 (bind_proc (getCspInfoAndConso csp) (\<lambda>res. case res of
           Fulfilled info \<Rightarrow>
             if quota_exceeded info
             then Return (Rejected (JStr (''Unable to get a turn server : '' @ ''data consumption exceeded'')))
             else bind_proc getTurnServers (\<lambda>t. Return (answer_turn r (client_id MD5 now csp name) t))
         | Rejected e \<Rightarrow> Return (Rejected (JStr (''Unable to get a turn server : '' @ err_str e)))
         | Unsettled \<Rightarrow> Return Unsettled))"
    by (rule confined_bind[OF confined_getCspInfoAndConso])
      (auto intro!: all_segs_bind confined_segs[OF confined_getTurnServers] split: promise.split)
qed (simp_all add: registerUser_def)

lemma confined_registerCSP: "confined 2 (snd (registerCSP fd t))"
  by (auto simp: registerCSP_def registerCSP_cmds_def Let_def intro: confined_select_then)

lemma confined_getAllCspInfo: "confined 2 getAllCspInfo"
  by (auto simp: getAllCspInfo_def confined_def Let_def split: reply.split)

lemma confined_deleteCSP: "confined 2 (deleteCSP k)"
  by (simp add: deleteCSP_def confined_def)

lemma confined_updateCSPQuotas: "confined 2 (updateCSPQuotas k a v q)"
  by (simp add: updateCSPQuotas_def confined_select_then)

lemma confined_addCSPConso: "confined 2 (addCSPConso t)"
  unfolding addCSPConso_def by (rule confined_select_then) (auto split: option.split)

lemmas confined_ops = confined_getCSPInfos confined_getCSPConso confined_getCspInfoAndConso
  confined_getTurnServers confined_getAppropriateTurn confined_registerCSP confined_getAllCspInfo
  confined_deleteCSP confined_updateCSPQuotas confined_addCSPConso

text \<open>The operations of the broker on provider, user and server records.\<close>

inductive provider_op :: "op \<Rightarrow> bool" where
  "provider_op (getCSPInfos k)"
| "provider_op (getCSPConso k)"
| "provider_op (getCspInfoAndConso csp)"
| "provider_op getTurnServers"
| "provider_op (getAppropriateTurn MD5 now r csp name)"
| "provider_op (snd (registerCSP fd t))"
| "provider_op getAllCspInfo"
| "provider_op (deleteCSP k)"
| "provider_op (updateCSPQuotas k a v q)"
| "provider_op (addCSPConso t)"

lemma provider_op_confined: "provider_op p \<Longrightarrow> confined 2 p"
  by (induction rule: provider_op.induct) (rule confined_ops)+

context redis_server
begin

lemma provider_ops_isolated:
  assumes "sched_reach exec {p. provider_op p} d0 (d, ps)" and "m \<noteq> 2"
  shows "dbs (view d) m = dbs (view d0) m"
  using isolated_reach[OF assms(1), of 2] provider_op_confined assms(2) by (simp add: isolated_def)

end


section \<open>Generated passwords\<close>

lemma randomString_value:
  assumes "random_number 6 r = Fin (of_nat n)"
  shows "randomString 6 r = drop 1 (nat_to_base 36 n)"
  using assms by (simp add: randomString_def)

lemma randomString_six:
  assumes "0 \<le> r" and "r < 1" and "random_number 6 r \<noteq> Fin (36 ^ 7)"
  shows "length (randomString 6 r) = 6 \<and> list_all (is_digit 36) (randomString 6 r)"
proof -
  obtain n where n: "random_number 6 r = Fin (of_nat n)" "35 * 36 ^ 6 \<le> n" "n \<le> 36 ^ 7"
    by (rule random_number_range[OF assms(1,2)])
  have "n \<noteq> 36 ^ 7" using n(1) assms(3) by auto
  then have "length (nat_to_base 36 n) = Suc 6" using n by (intro length_nat_to_base) auto
  moreover have "list_all (is_digit 36) (drop 1 (nat_to_base 36 n))"
    using nat_to_base_digits[of 36 n] by (auto simp: list_all_iff dest: in_set_dropD)
  ultimately show ?thesis unfolding randomString_value[OF n(1)] by simp
qed

lemma randomString_seven: "random_number 6 r = Fin (36 ^ 7) \<Longrightarrow> randomString 6 r = ''0000000''"
  by (simp add: randomString_def nat_to_base.simps digit_char_def char_of_48)

section \<open>Interleaved credentials\<close>

context redis_server
begin

text \<open>Another operation selects its database between the two commands of \<open>createTurnCredentials\<close>.\<close>

lemma credentials_misplaced:
  "\<exists>d' k'. sched_reach exec {getCredentials MD5 r cid, getCSPInfos k} d
      (d', [Return (Fulfilled (JObj [(''clientId'', opt_val cid), (''password'', JStr (randomString 6 r))])), k'])
    \<and> dbs (view d') 0 = dbs (view d) 0
    \<and> dbs (view d') 2 (credential_key (opt_str cid)) = Some (Str (MD5 (opt_str cid @ '':'' @ REALM @ '':'' @ randomString 6 r)))"
proof -
  let ?A = "{getCredentials MD5 r cid, getCSPInfos k}"
  let ?ok = "Return (Fulfilled (JObj [(''clientId'', opt_val cid), (''password'', JStr (randomString 6 r))])) :: op"
  let ?set = "Set_cmd (credential_key (opt_str cid)) (MD5 (opt_str cid @ '':'' @ REALM @ '':'' @ randomString 6 r))"
  let ?p = "getCredentials MD5 r cid" and ?q = "getCSPInfos k"
  let ?q2 = "Send [Hgetall k] (\<lambda>rs. Return (hgetall_result (rs ! 0))) :: op"
  define p2 where "p2 = (case ?p of Send cs c \<Rightarrow> c [ROk] | x \<Rightarrow> x)"
  let ?d1 = "fst (exec d (Select 0))"
  let ?d2 = "fst (exec ?d1 (Select 2))"
  let ?d3 = "fst (exec ?d2 ?set)"
  have p: "\<exists>c. ?p = Send [Select 0] c \<and> c [ROk] = p2"
    by (simp add: p2_def getCredentials_def createTurnCredentials_def select_then_def Let_def)
  have p2: "\<exists>c. p2 = Send [?set] c \<and> c [ROk] = ?ok"
    by (simp add: p2_def getCredentials_def createTurnCredentials_def select_then_def Let_def)
  have q: "\<exists>c. ?q = Send [Select 2] c \<and> c [ROk] = ?q2"
    by (simp add: getCSPInfos_def select_then_def)
  obtain c1 c2 c3 where c: "?p = Send [Select 0] c1" "c1 [ROk] = p2" "?q = Send [Select 2] c3" "c3 [ROk] = ?q2"
    "p2 = Send [?set] c2" "c2 [ROk] = ?ok" using p p2 q by blast
  have "sched_reach exec ?A d (d, [] @ [?p])" by (rule reach_arrive[OF sched_reach.start]) simp
  then have "sched_reach exec ?A d (d, ([] @ [?p]) @ [?q])" by (rule reach_arrive) simp
  then have "sched_reach exec ?A d (?d1, [p2, ?q])"
    by (rule reach_segment[where i = 0 and cs = "[Select 0]" and k = c1]) (simp_all add: c)
  then have "sched_reach exec ?A d (?d2, [p2, ?q2])"
    by (rule reach_segment[where i = 1 and cs = "[Select 2]" and k = c3]) (simp_all add: c)
  then have "sched_reach exec ?A d (?d3, [?ok, ?q2])"
    by (rule reach_segment[where i = 0 and cs = "[?set]" and k = c2]) (simp_all add: c)
  then show ?thesis by (intro exI[of _ ?d3] exI[of _ ?q2]) simp
qed

end

section \<open>Properties of the credentials\<close>

text \<open>
  C15. Credentials, when no other operation runs in between: exactly the key of the client in
  database 0, the one the TURN server reads, is set to the digest of client, realm and password,
  and the caller gets the password in clear.
\<close>

theorem credentials_stored:
  assumes "redis_server exec view"
  shows "dbs (view (fst (run (getCredentials MD5 r cid) exec d))) =
      (dbs (view d))(0 := (dbs (view d) 0)(credential_key (opt_str cid) \<mapsto> Str (MD5 (opt_str cid @ '':'' @ REALM @ '':'' @ randomString 6 r))))
    \<and> snd (run (getCredentials MD5 r cid) exec d)
      = Fulfilled (JObj [(''clientId'', opt_val cid), (''password'', JStr (randomString 6 r))])"
  by (rule redis_server.getCredentials_alone[OF assms])

theorem credentials_stored_witness:
  "dbs (mem_view (fst (run (getCredentials rev (1 / 2) (Some ''c1'')) mem_exec demo_mem))) 0 (credential_key (opt_str (Some ''c1'')))
     = Some (Str (rev (opt_str (Some ''c1'') @ '':'' @ REALM @ '':'' @ randomString 6 (1 / 2))))"
  using credentials_stored[OF mem.redis_server_axioms, of rev "1 / 2" "Some ''c1''" demo_mem] by simp

text \<open>
  C14. The connection is shared, so the selected database is: an operation that selects database 2
  between the two commands of \<open>createTurnCredentials\<close> makes the credentials land in database 2; the
  caller is told they are valid and database 0 has not changed.
\<close>

theorem credentials_race:
  assumes "redis_server exec view"
  shows "\<exists>d' q. sched_reach exec {getCredentials MD5 r cid, getCSPInfos k} d
      (d', [Return (Fulfilled (JObj [(''clientId'', opt_val cid), (''password'', JStr (randomString 6 r))])), q])
    \<and> dbs (view d') 0 = dbs (view d) 0
    \<and> dbs (view d') 2 (credential_key (opt_str cid)) = Some (Str (MD5 (opt_str cid @ '':'' @ REALM @ '':'' @ randomString 6 r)))"
  by (rule redis_server.credentials_misplaced[OF assms])

theorem credentials_race_witness:
  "\<exists>d' q. sched_reach mem_exec {getCredentials rev (1 / 2) (Some ''c1''), getCSPInfos ''prov:acme''} demo_mem
      (d', [Return (Fulfilled (JObj [(''clientId'', opt_val (Some ''c1'')), (''password'', JStr (randomString 6 (1 / 2)))])), q])
    \<and> dbs (mem_view d') 0 = dbs (mem_view demo_mem) 0
    \<and> dbs (mem_view d') 2 (credential_key (opt_str (Some ''c1''))) = Some (Str (rev (opt_str (Some ''c1'') @ '':'' @ REALM @ '':'' @ randomString 6 (1 / 2))))"
  by (rule credentials_race[OF mem.redis_server_axioms])

text \<open>
  C11. Isolation: under every interleaving of any number of operations on providers, users, quotas,
  traffic and TURN servers, only database 2 ever changes.
\<close>

theorem provider_operations_isolated:
  assumes "redis_server exec view"
    and "sched_reach exec {p. provider_op p} d0 (d, ps)" and "m \<noteq> 2"
  shows "dbs (view d) m = dbs (view d0) m"
  using assms by (rule redis_server.provider_ops_isolated)

theorem provider_operations_isolated_witness:
  "dbs (mem_view (fst (run (deleteCSP ''prov:beta'') mem_exec demo_mem))) 0 = dbs (mem_view demo_mem) 0"
proof -
  let ?A = "{p. provider_op p}"
  obtain cs k where p: "deleteCSP ''prov:beta'' = Send cs k" "\<exists>x. k (snd (exec_all mem_exec cs demo_mem)) = Return x"
    by (simp add: deleteCSP_def)
  have "sched_reach mem_exec ?A demo_mem (demo_mem, [] @ [deleteCSP ''prov:beta''])"
    by (rule reach_arrive[OF sched_reach.start]) (simp add: provider_op.intros)
  then have "sched_reach mem_exec ?A demo_mem
      (fst (exec_all mem_exec cs demo_mem), [k (snd (exec_all mem_exec cs demo_mem))])"
    by (rule reach_segment[where i = 0 and cs = cs and k = k]) (simp_all add: p)
  then have "dbs (mem_view (fst (exec_all mem_exec cs demo_mem))) 0 = dbs (mem_view demo_mem) 0"
    by (rule provider_operations_isolated[OF mem.redis_server_axioms]) simp
  then show ?thesis using p by auto
qed

text \<open>
  Generated passwords: for every value of \<open>Math.random()\<close>, \<open>randomString(6)\<close> is six base-36
  digits, except when the draw rounds to \<open>36^7\<close>, as it does for 0: then it is seven zeros.
\<close>

theorem password_shape:
  assumes "0 \<le> r" and "r < 1"
  shows "(if random_number 6 r = Fin (36 ^ 7) then randomString 6 r = ''0000000''
      else length (randomString 6 r) = 6 \<and> list_all (is_digit 36) (randomString 6 r))
    \<and> random_number 6 0 = Fin (36 ^ 7)"
proof -
  have "random_number 6 0 = Fin (36 ^ 7)" by (simp add: random_number_def js_sub_def floor_eq_iff)
  then show ?thesis using randomString_six[OF assms] randomString_seven by auto
qed

theorem password_shape_witness: "randomString 6 0 = ''0000000'' \<and> random_number 6 0 = Fin (36 ^ 7)"
  using password_shape[of 0] by auto

end
