(* ===== verification/Broker_Types.thy ===== *)
theory Broker_Types
  imports Broker_Credentials
begin

text \<open>
  The types of the database records.  The prefixes of the keys say what a record is: users,
  servers and credentials are strings, providers, their consumption and their archived copies are
  hashes.  Redis does not enforce this; the commands that \<^verbatim>\<open>broker/BrokerServer/app/dao.js\<close> sends
  keep it, under any interleaving, as long as the provider keys of the requests are provider keys.
\<close>

section \<open>Typed keys and commands\<close>

definition str_key :: "string \<Rightarrow> bool" where
  "str_key k = (prefix ''users:'' k \<or> prefix ''turn'' k)"

definition hash_key :: "string \<Rightarrow> bool" where
  "hash_key k = (prefix ''prov:'' k \<or> prefix ''histoprov:'' k)"

fun is_hash :: "rval \<Rightarrow> bool" where
  "is_hash (Hash h) = True"
| "is_hash (Str s) = False"

definition typed_val :: "string \<Rightarrow> rval \<Rightarrow> bool" where
  "typed_val k x = ((str_key k \<longrightarrow> \<not> is_hash x) \<and> (hash_key k \<longrightarrow> is_hash x))"

definition well_typed :: "rview \<Rightarrow> bool" where
  "well_typed w = (\<forall>n k x. dbs w n k = Some x \<longrightarrow> typed_val k x)"

fun typed_cmd :: "cmd \<Rightarrow> bool" where
  "typed_cmd (Set_cmd k s) = (\<not> hash_key k)"
| "typed_cmd (Hsetnx k f s) = (\<not> str_key k)"
| "typed_cmd (Hmset k fvs) = (\<not> str_key k)"
| "typed_cmd (Hincrby k f i) = (\<not> str_key k)"
| "typed_cmd (Rename k k') = (hash_key k \<and> \<not> str_key k')"
| "typed_cmd _ = True"

abbreviation typed_op :: "'a proc \<Rightarrow> bool" where
  "typed_op p \<equiv> all_segs (list_all typed_cmd) p"

lemma key_disjoint: "str_key k \<Longrightarrow> \<not> hash_key k"
  by (auto simp: str_key_def hash_key_def prefix_def)

lemma hash_keys [simp]: "hash_key (''prov:'' @ k)" "hash_key (''histoprov:'' @ k)" "\<not> str_key (''prov:'' @ k)"
  "\<not> str_key (''histoprov:'' @ k)"
  by (auto simp: hash_key_def str_key_def prefix_def)

lemma str_keys [simp]: "str_key (''users:'' @ k)" "str_key (''turn/'' @ k)" "\<not> hash_key (''users:'' @ k)" "\<not> hash_key (''turn/'' @ k)"
  by (auto simp: hash_key_def str_key_def prefix_def)

lemma well_typed_put: "well_typed w \<Longrightarrow> typed_val k x \<Longrightarrow> well_typed (cur_put k x w)"
  by (auto simp: well_typed_def cur_def split: if_splits)

lemma well_typed_dbs: "dbs w = dbs w' \<Longrightarrow> well_typed w \<longleftrightarrow> well_typed w'"
  by (simp add: well_typed_def)

lemma well_typed_effect:
  assumes "well_typed w" "typed_cmd c"
  shows "well_typed (redis_effect w c)"
proof (cases c)
  case (Rename k k')
  show ?thesis
  proof (cases "cur w k")
    case (Some x)
    then have "is_hash x" using assms Rename by (auto simp: well_typed_def cur_def typed_val_def)
    then have "typed_val k' x" using assms(2) Rename by (simp add: typed_val_def)
    then have "well_typed (w\<lparr>dbs := (dbs w)(sel w := (cur w)(k := None, k' := Some x))\<rparr>)"
      using assms(1) by (auto simp: well_typed_def cur_def split: if_splits)
    then show ?thesis using Rename Some by (simp add: Let_def well_typed_def)
  qed (use assms Rename in simp)
next
  case (Set_cmd k s)
  then show ?thesis using assms well_typed_put[OF assms(1), of k "Str s"] by (simp add: well_typed_def typed_val_def)
next
  case (Hsetnx k f s)
  then show ?thesis using assms by (auto intro!: well_typed_put simp: typed_val_def split: option.split)
next
  case (Hmset k fvs)
  then show ?thesis using assms by (auto intro!: well_typed_put simp: typed_val_def split: option.split)
next
  case (Hincrby k f i)
  then show ?thesis using assms by (auto intro!: well_typed_put simp: typed_val_def split: option.split)
qed (use assms in \<open>auto simp: well_typed_def\<close>)

lemma well_typed_effects: "well_typed w \<Longrightarrow> list_all typed_cmd cs \<Longrightarrow> well_typed (foldl redis_effect w cs)"
  by (induction cs arbitrary: w) (simp_all add: well_typed_effect)

section \<open>Typed operations\<close>

lemma typed_select_then: "typed_op p \<Longrightarrow> typed_op (select_then n p)"
  by (auto simp: select_then_def split: list.split)

lemma typed_reads [simp]: "list_all typed_cmd (map Get ks)" "list_all typed_cmd (map Hgetall ks)"
  by (simp_all add: list_all_iff)

lemma typed_sync: "typed_op p \<Longrightarrow> list_all typed_cmd cs \<Longrightarrow> typed_op (sync_before cs p)"
  by (cases p) auto

lemma typed_getCSPInfos: "typed_op (getCSPInfos k)"
  by (simp add: getCSPInfos_def typed_select_then)

lemma typed_getCSPConso: "typed_op (getCSPConso k)"
  by (simp add: getCSPConso_def typed_select_then)

lemma typed_getCspInfoAndConso: "typed_op (getCspInfoAndConso csp)"
  unfolding getCspInfoAndConso_def Let_def
  by (rule all_segs_bind[OF typed_getCSPInfos])
    (auto intro!: all_segs_bind typed_getCSPConso split: promise.split option.split)

lemma typed_getTurnServers: "typed_op getTurnServers"
  unfolding getTurnServers_def by (rule typed_select_then) (auto split: reply.split)

lemma typed_getAppropriateTurn: "typed_op (getAppropriateTurn MD5 now r csp name)"
  unfolding getAppropriateTurn_def Let_def
  by (rule typed_sync, rule all_segs_bind[OF typed_getCspInfoAndConso])
    (auto intro!: all_segs_bind typed_getTurnServers simp: registerUser_def hash_key_def split: promise.split)

lemma typed_registerCSP: "typed_op (snd (registerCSP fd t))"
  by (auto simp: registerCSP_def registerCSP_cmds_def Let_def str_key_def intro!: typed_select_then)

lemma typed_getAllCspInfo: "typed_op getAllCspInfo"
  by (auto simp: getAllCspInfo_def Let_def split: reply.split)

lemma typed_deleteCSP: "typed_op (deleteCSP (''prov:'' @ csp))"
  by (simp add: deleteCSP_def) (simp add: hash_key_def str_key_def prefix_def)

lemma typed_updateCSPQuotas: "typed_op (updateCSPQuotas (''prov:'' @ csp) a v q)"
  by (simp add: updateCSPQuotas_def typed_select_then str_key_def)

lemma typed_addCSPConso: "typed_op (addCSPConso t)"
  unfolding addCSPConso_def by (rule typed_select_then) (auto simp: str_key_def split: option.split)

lemma typed_getCredentials: "typed_op (getCredentials MD5 r cid)"
  unfolding getCredentials_def createTurnCredentials_def Let_def
  by (rule all_segs_bind) (auto intro!: typed_select_then simp: credential_key_def hash_key_def)

text \<open>The operations of the broker, with provider keys where a request names a provider's record.\<close>

inductive broker_op :: "op \<Rightarrow> bool" where
  "broker_op (getCSPInfos k)"
| "broker_op (getCSPConso k)"
| "broker_op (getCspInfoAndConso csp)"
| "broker_op getTurnServers"
| "broker_op (getAppropriateTurn MD5 now r csp name)"
| "broker_op (snd (registerCSP fd t))"
| "broker_op getAllCspInfo"
| "broker_op (deleteCSP (''prov:'' @ csp))"
| "broker_op (updateCSPQuotas (''prov:'' @ csp) a v q)"
| "broker_op (addCSPConso t)"
| "broker_op (getCredentials MD5 r cid)"

lemma broker_op_typed: "broker_op p \<Longrightarrow> typed_op p"
  by (induction rule: broker_op.induct)
    (rule typed_getCSPInfos typed_getCSPConso typed_getCspInfoAndConso typed_getTurnServers typed_getAppropriateTurn
      typed_registerCSP typed_getAllCspInfo typed_deleteCSP typed_updateCSPQuotas typed_addCSPConso typed_getCredentials)+

context redis_server
begin

lemma typed_reach:
  assumes "sched_reach exec A d0 s" "well_typed (view d0)" "\<And>p. p \<in> A \<Longrightarrow> typed_op p"
  shows "well_typed (view (fst s)) \<and> (\<forall>p \<in> set (snd s). typed_op p)"
  using assms(1)
proof induction
  case start
  then show ?case using assms(2) by simp
next
  case (step s t)
  from step(2) show ?case
  proof cases
    case (arrive p d ps)
    then show ?thesis using step.IH assms(3) by auto
  next
    case (segment i ps cs k d)
    have p: "typed_op (Send cs k)" using step.IH segment by (metis fst_conv nth_mem snd_conv)
    then have "well_typed (view (fst (exec_all exec cs d)))" using step.IH segment by (simp add: well_typed_effects)
    moreover have "\<forall>p \<in> set (ps[i := k rs]). typed_op p" for rs
      using step.IH segment p set_update_subset_insert[of ps i "k rs"] by auto
    ultimately show ?thesis using segment by simp
  qed
qed

lemma typed_replies:
  assumes "well_typed (view d)"
  shows "hash_key k \<Longrightarrow> \<not> is_err (snd (exec d (Hgetall k)))" "str_key k \<Longrightarrow> \<not> is_err (snd (exec d (Get k)))"
proof -
  have t: "typed_val k x" if "cur (view d) k = Some x" for x using assms that by (auto simp: well_typed_def cur_def)
  show "\<not> is_err (snd (exec d (Hgetall k)))" if "hash_key k"
    using reply[of d "Hgetall k"] t that by (auto simp: typed_val_def split: option.splits rval.splits)
  show "\<not> is_err (snd (exec d (Get k)))" if "str_key k"
    using reply[of d "Get k"] t that by (auto simp: typed_val_def split: option.splits rval.splits)
qed

text \<open>A request that names the key of a user that does not exist makes a hash of it.\<close>

lemma update_of_foreign_key:
  assumes "dbs (view d) 2 (''users:'' @ u) = None"
  shows "\<not> well_typed (view (fst (run (updateCSPQuotas (''users:'' @ u) a v q) exec d)))"
proof -
  have "dbs (view (fst (run (updateCSPQuotas (''users:'' @ u) a v q) exec d))) 2 (''users:'' @ u)
      = Some (Hash [''audioQuota'' \<mapsto> a, ''videoQuota'' \<mapsto> v, ''dataQuota'' \<mapsto> q])"
    using assms by (simp add: updateCSPQuotas_def hash_at_def)
  then show ?thesis unfolding well_typed_def typed_val_def using str_keys(1)[of u] by (metis is_hash.simps(1))
qed

end

section \<open>Properties\<close>

text \<open>
  C12. The types of the records.  From a well-typed database, every interleaving of broker operations,
  credentials included, whose provider keys are provider keys leads to a well-typed database: users,
  servers and credentials are strings, provider records are hashes, whatever database is selected.
  There, reading a provider record or a user never fails for a wrong type.
\<close>

theorem records_well_typed:
  assumes "redis_server exec view" "well_typed (view d0)" "sched_reach exec {p. broker_op p} d0 (d, ps)"
  shows "well_typed (view d)
    \<and> (hash_key k \<longrightarrow> \<not> is_err (snd (exec d (Hgetall k)))) \<and> (str_key u \<longrightarrow> \<not> is_err (snd (exec d (Get u))))"
proof -
  have w: "well_typed (view d)"
    using redis_server.typed_reach[OF assms(1,3,2)] broker_op_typed by simp
  with redis_server.typed_replies[OF assms(1) w] show ?thesis by blast
qed

lemma empty_well_typed: "well_typed (mem_view empty_mem)"
  by (simp add: well_typed_def mem_view_def empty_mem_def)

theorem records_well_typed_witness:
  "well_typed (mem_view (fst (exec_all mem_exec [Select 2] empty_mem)))"
proof -
  have "sched_reach mem_exec {p. broker_op p} empty_mem (empty_mem, [] @ [getTurnServers])"
    by (rule reach_arrive[OF sched_reach.start]) (simp add: broker_op.intros)
  obtain k where g: "getTurnServers = Send [Select 2] k" by (auto simp: getTurnServers_def select_then_def)
  have "sched_reach mem_exec {p. broker_op p} empty_mem (fst (exec_all mem_exec [Select 2] empty_mem),
      ([] @ [getTurnServers])[0 := k (snd (exec_all mem_exec [Select 2] empty_mem))])"
    using reach_segment[OF \<open>sched_reach mem_exec {p. broker_op p} empty_mem (empty_mem, [] @ [getTurnServers])\<close>, of 0 "[Select 2]" k]
    by (simp add: g)
  from records_well_typed[OF mem.redis_server_axioms empty_well_typed this] show ?thesis by blast
qed

end
