(* ===== verification/Broker_Routes.thy ===== *)
theory Broker_Routes
  imports Broker_Credentials
begin

text \<open>
  The HTTP interface of the broker: \<^verbatim>\<open>broker/BrokerServer/server.js\<close> (configuration, authentication,
  middleware) and \<^verbatim>\<open>broker/BrokerServer/app/routes.js\<close> (the handlers).

  Express is not part of the repository.  What its static file middleware serves for a path is the
  argument \<open>static\<close>; a request is what Express hands to a handler, with every query and form
  parameter given at most once; route paths match without regard to case and to a final slash.  A handler either
  responds at once, possibly leaving an operation of the data access object in the background, or
  responds when the promise of such an operation settles, or never responds.
\<close>

section \<open>Requests and responses\<close>

datatype http_method = GET | POST | PUT | DELETE

record request =
  rmethod :: http_method
  rpath :: string
  query :: "string \<rightharpoonup> string"
  form :: "string \<rightharpoonup> string"
  authorization :: "(string \<times> string) option"

datatype body = NoBody | Json jsval | Text jsval | File string

record response =
  status :: nat
  headers :: "(string \<times> string) list"
  rbody :: body

abbreviation plain_response :: "nat \<Rightarrow> body \<Rightarrow> response" where
  "plain_response n b \<equiv> \<lparr>status = n, headers = [], rbody = b\<rparr>"

text \<open>\<open>Await p k\<close> responds with \<open>k\<close> of the settled promise, if \<open>k\<close> has a response for it.\<close>

datatype action = Respond response | Background response op | Await op "outcome \<Rightarrow> response option" | Silent

section \<open>Configuration and authentication\<close>

record server_config =
  cfg_DB_HOST :: string
  cfg_DB_PORT :: string
  cfg_SERVICE_PORT :: nat
  cfg_LOGIN :: string
  cfg_PASSWD :: string

text \<open>\<open>process.env.X || config.X\<close>\<close>

definition env_or :: "string option \<Rightarrow> string \<Rightarrow> string" where
  "env_or e c = (case e of Some s \<Rightarrow> if s = [] then c else s | None \<Rightarrow> c)"

definition subscription_pattern :: string where
  "subscription_pattern = ''turn/*/*/realm/*/user/*/allocation/*/traffic''"

text \<open>What the start of the server sets up: the data access object, the port and the pattern.\<close>

definition boot :: "server_config \<Rightarrow> string option \<Rightarrow> string option \<Rightarrow> dao option \<times> nat \<times> string" where
  "boot config env_host env_port =
     (let DB_HOST = env_or env_host (cfg_DB_HOST config); DB_PORT = env_or env_port (cfg_DB_PORT config)
      in (DAO ''redis'' DB_PORT DB_HOST, cfg_SERVICE_PORT config, subscription_pattern))"

definition unauthorized :: action where
  "unauthorized = Respond \<lparr>status = 401, headers = [(''WWW-Authenticate'', ''Basic realm=Authorization Required'')],
     rbody = Text (JStr ''Unauthorized'')\<rparr>"

definition auth :: "server_config \<Rightarrow> request \<Rightarrow> action \<Rightarrow> action" where
  "auth config req next =
     (case authorization req of
        None \<Rightarrow> unauthorized
      | Some (name, pass) \<Rightarrow>
          if name = [] \<or> pass = [] then unauthorized
          else if name = cfg_LOGIN config \<and> pass = cfg_PASSWD config then next
          else unauthorized)"

section \<open>Handlers\<close>

definition dashboard_page :: action where
  "dashboard_page = Respond (plain_response 200 (File ''dashboard.html''))"

definition apidoc_page :: action where
  "apidoc_page = Respond (plain_response 200 (File ''apidoc/index.html''))"

definition form_csp :: "(string \<rightharpoonup> string) \<Rightarrow> csp_form" where
  "form_csp f = \<lparr>servicename = f ''servicename'', audio = f ''audio'', video = f ''video'', qdata = f ''qdata''\<rparr>"

definition post_provRequest :: "request \<Rightarrow> action" where
  "post_provRequest req =
     Background \<lparr>status = 302, headers = [(''Location'', ''/dashboard.html'')], rbody = NoBody\<rparr>
       (snd (registerCSP (form_csp (form req)) (JNum (Fin 3200))))"

definition turn_response :: "outcome \<Rightarrow> response option" where
  "turn_response r = (case r of
     Fulfilled reply \<Rightarrow> Some (plain_response 200 (Json reply))
   | Rejected error \<Rightarrow> Some (plain_response 404 (Text error))
   | Unsettled \<Rightarrow> None)"

definition get_getAppropriateTurn :: "(string \<Rightarrow> string) \<Rightarrow> string \<Rightarrow> rat \<Rightarrow> request \<Rightarrow> action" where
  "get_getAppropriateTurn MD5 now r req =
     Await (getAppropriateTurn MD5 now r (opt_str (query req ''cspId'')) (opt_str (query req ''clientName'')))
       turn_response"

definition all_response :: "outcome \<Rightarrow> response option" where
  "all_response r = (case r of
     Fulfilled result \<Rightarrow> Some (plain_response 200 (Json result))
   | Rejected err \<Rightarrow> Some (plain_response 500 (Text err))
   | Unsettled \<Rightarrow> None)"

definition get_getAllCspInfo :: "request \<Rightarrow> action" where
  "get_getAllCspInfo req = Await getAllCspInfo all_response"

text \<open>A handler with no rejection branch: a rejected promise gives no response.\<close>

definition json_response :: "outcome \<Rightarrow> response option" where
  "json_response r = (case r of Fulfilled reply \<Rightarrow> Some (plain_response 200 (Json reply)) | _ \<Rightarrow> None)"

definition ok_response :: "outcome \<Rightarrow> response option" where
  "ok_response r = (case r of Fulfilled reply \<Rightarrow> Some (plain_response 200 (Text (JStr ''OK''))) | _ \<Rightarrow> None)"

definition get_getCspConso :: "request \<Rightarrow> action" where
  "get_getCspConso req = Await (getCSPConso (opt_str (query req ''cspkey''))) json_response"

definition get_getCredentials :: "(string \<Rightarrow> string) \<Rightarrow> rat \<Rightarrow> request \<Rightarrow> action" where
  "get_getCredentials MD5 r req = Await (getCredentials MD5 r (query req ''clientId'')) json_response"

definition delete_deleteCSP :: "request \<Rightarrow> action" where
  "delete_deleteCSP req = (case query req ''cspkey'' of
     Some cspkey \<Rightarrow> Await (deleteCSP cspkey) ok_response
   | None \<Rightarrow> Silent)"

definition get_changeQuotas :: "request \<Rightarrow> action" where
  "get_changeQuotas req =
     Await (updateCSPQuotas (opt_str (query req ''cspKey'')) (opt_str (query req ''audioQuota''))
         (opt_str (query req ''videoQuota'')) (opt_str (query req ''dataQuota''))) ok_response"

section \<open>The application\<close>

definition not_found :: action where
  "not_found = Respond (plain_response 404 (Text (JStr ''Not Found'')))"

text \<open>The values an application instance depends on: configuration, digest, clock, random draw.\<close>

record env =
  config :: server_config
  MD5 :: "string \<Rightarrow> string"
  now :: string
  rand :: rat

definition at_path :: "request \<Rightarrow> string \<Rightarrow> bool" where
  "at_path req p = (let q = rpath req; q' = (if 1 < length q \<and> last q = CHR ''/'' then butlast q else q)
     in js_lower q' = js_lower p)"

definition routes :: "env \<Rightarrow> request \<Rightarrow> action" where
  "routes e req =
     (if rmethod req = GET then
        (if at_path req ''/dashboard'' then auth (config e) req dashboard_page
         else if at_path req ''/apidoc'' then auth (config e) req apidoc_page
         else if at_path req ''/getAppropriateTurn'' then get_getAppropriateTurn (MD5 e) (now e) (rand e) req
         else if at_path req ''/getAllCspInfo'' then get_getAllCspInfo req
         else if at_path req ''/getCspConso'' then get_getCspConso req
         else if at_path req ''/getCredentials'' then get_getCredentials (MD5 e) (rand e) req
         else if at_path req ''/changeQuotas'' then get_changeQuotas req
         else not_found)
      else if rmethod req = POST \<and> at_path req ''/provRequest'' then post_provRequest req
      else if rmethod req = DELETE \<and> at_path req ''/deleteCSP'' then delete_deleteCSP req
      else not_found)"

definition cors_headers :: "(string \<times> string) list" where
  "cors_headers = [(''Access-Control-Allow-Origin'', ''*''),
     (''Access-Control-Allow-Headers'', ''Origin, X-Requested-With, Content-Type, Accept'')]"

definition with_cors :: "response \<Rightarrow> response" where
  "with_cors r = r\<lparr>headers := cors_headers @ headers r\<rparr>"

primrec add_cors :: "action \<Rightarrow> action" where
  "add_cors (Respond r) = Respond (with_cors r)"
| "add_cors (Background r p) = Background (with_cors r) p"
| "add_cors (Await p k) = Await p (map_option with_cors \<circ> k)"
| "add_cors Silent = Silent"

text \<open>The middleware chain: static files first, then the body parser, the headers and the routes.\<close>

definition app :: "(request \<Rightarrow> response option) \<Rightarrow> env \<Rightarrow> request \<Rightarrow> action" where
  "app static e req = (case static req of Some r \<Rightarrow> Respond r | None \<Rightarrow> add_cors (routes e req))"

text \<open>A request whose operation nothing interrupts: the new server state and the response, if any.\<close>

primrec serve_action :: "action \<Rightarrow> ('d \<Rightarrow> cmd \<Rightarrow> 'd \<times> reply) \<Rightarrow> 'd \<Rightarrow> 'd \<times> response option" where
  "serve_action (Respond r) ex d = (d, Some r)"
| "serve_action (Background r p) ex d = (fst (run p ex d), Some r)"
| "serve_action (Await p k) ex d = (let x = run p ex d in (fst x, k (snd x)))"
| "serve_action Silent ex d = (d, None)"

section \<open>Route paths\<close>

lemma at_path_unique: "at_path req p \<Longrightarrow> at_path req q \<longleftrightarrow> js_lower q = js_lower p"
  by (auto simp: at_path_def Let_def)

lemma path_lower:
  "js_lower ''/dashboard'' = ''/dashboard''" "js_lower ''/apidoc'' = ''/apidoc''"
  "js_lower ''/getAppropriateTurn'' = ''/getappropriateturn''" "js_lower ''/getAllCspInfo'' = ''/getallcspinfo''"
  "js_lower ''/getCspConso'' = ''/getcspconso''" "js_lower ''/getCredentials'' = ''/getcredentials''"
  "js_lower ''/changeQuotas'' = ''/changequotas''" "js_lower ''/provRequest'' = ''/provrequest''"
  "js_lower ''/deleteCSP'' = ''/deletecsp''"
  by code_simp+

lemmas path_simps = at_path_unique path_lower

lemma at_path_self: "last p \<noteq> CHR ''/'' \<Longrightarrow> rpath req = p \<Longrightarrow> at_path req p"
  by (simp add: at_path_def)

lemma at_path_authorization [simp]: "at_path (req\<lparr>authorization := a\<rparr>) p = at_path req p"
  by (simp add: at_path_def)

section \<open>Settling\<close>

lemma settled_turn_list: "is_settled (turn_list ks rs)"
  by (simp add: turn_list_def split: option.split)

lemma settled_hgetall: "is_settled (hgetall_result r)"
  by (cases r) simp_all

lemma settled_with_conso: "is_settled r \<Longrightarrow> is_settled (with_conso x r)"
  by (cases r) (auto simp: with_conso_def split: option.split)

context redis_server
begin

lemma getCSPInfos_settles: "is_settled (snd (run (getCSPInfos k) exec d))"
  by (simp add: getCSPInfos_def settled_hgetall)

lemma getCSPConso_settles: "is_settled (snd (run (getCSPConso k) exec d))"
  by (simp add: getCSPConso_infos getCSPInfos_settles)

lemma getCspInfoAndConso_settles: "is_settled (snd (run (getCspInfoAndConso csp) exec d))"
proof (cases "snd (run (getCSPInfos (''prov:'' @ csp)) exec d)")
  case (Fulfilled x)
  then show ?thesis
    by (auto simp: getCspInfoAndConso_def run_bind Let_def settled_with_conso getCSPConso_settles split: option.split)
next
  case Unsettled
  then show ?thesis using getCSPInfos_settles[of "''prov:'' @ csp" d] by simp
qed (simp add: getCspInfoAndConso_def run_bind Let_def)

lemma getTurnServers_settles:
  "(\<exists>ts. snd (run getTurnServers exec d) = Fulfilled (JArr ts)) \<or> (\<exists>e. snd (run getTurnServers exec d) = Rejected e)"
proof -
  obtain ks where "snd (exec (fst (exec d (Select 2))) (Keys ''turnservers:*'')) = RList ks" by (rule reply_Keys)
  then show ?thesis by (auto simp: getTurnServers_def turn_list_def split: option.split)
qed

lemma getAppropriateTurn_settles: "is_settled (snd (run (getAppropriateTurn md5 t r csp name) exec d))"
proof (cases "snd (run (getCspInfoAndConso csp) exec (after_register csp (client_id md5 t csp name) d))")
  case (Fulfilled x)
  show ?thesis
  proof (cases "quota_exceeded x")
    case False
    then show ?thesis using Fulfilled
        getTurnServers_settles[of "fst (run (getCspInfoAndConso csp) exec (after_register csp (client_id md5 t csp name) d))"]
      by (auto simp: getAppropriateTurn_run run_bind answer_turn_def)
  qed (simp add: Fulfilled getAppropriateTurn_run run_bind)
next
  case Unsettled
  then show ?thesis
    using getCspInfoAndConso_settles[of csp "after_register csp (client_id md5 t csp name) d"] by simp
qed (simp add: getAppropriateTurn_run run_bind)

end

section \<open>Glob patterns with stars\<close>

lemma glob_skip: "glob_match ps t \<Longrightarrow> glob_match (CHR ''*'' # ps) (w @ t)"
proof (induction w)
  case Nil
  then show ?case by (cases t) auto
qed simp

lemma glob_literal: "CHR ''*'' \<notin> set p \<Longrightarrow> glob_match (p @ ps) (p @ s) = glob_match ps s"
  by (induction p) auto

lemma glob_segment:
  "CHR ''*'' \<notin> set p \<Longrightarrow> glob_match ps t \<Longrightarrow> glob_match (CHR ''*'' # p @ ps) (w @ p @ t)"
  by (rule glob_skip) (simp add: glob_literal)

section \<open>Properties of the HTTP interface\<close>

definition demo_config :: server_config where
  "demo_config = \<lparr>cfg_DB_HOST = ''localhost'', cfg_DB_PORT = ''6379'', cfg_SERVICE_PORT = 8181,
     cfg_LOGIN = ''admin'', cfg_PASSWD = ''secret''\<rparr>"

definition demo_env :: env where
  "demo_env = \<lparr>config = demo_config, MD5 = rev, now = ''2016'', rand = 1 / 2\<rparr>"

definition demo_get :: "string \<Rightarrow> (string \<rightharpoonup> string) \<Rightarrow> request" where
  "demo_get p q = \<lparr>rmethod = GET, rpath = p, query = q, form = Map.empty, authorization = None\<rparr>"

text \<open>The static middleware serves the page of the dashboard, as it lies in the public directory.\<close>

definition demo_static :: "request \<Rightarrow> response option" where
  "demo_static req = (if rmethod req = GET \<and> rpath req = ''/dashboard.html''
     then Some (plain_response 200 (File ''dashboard.html'')) else None)"

lemma demo_paths:
  "\<not> at_path (demo_get ''/changeQuotas'' q) ''/dashboard''" "\<not> at_path (demo_get ''/changeQuotas'' q) ''/apidoc''"
  by (simp_all add: at_path_def demo_get_def path_lower)

text \<open>
  Every request for a TURN server is answered: with 200 and the JSON of the allocation, or
  with 404 and the reason, whatever the parameters and the contents of the database.
\<close>

theorem turn_request_answered:
  assumes "redis_server exec view" and "static req = None"
    and "rmethod req = GET" and "at_path req ''/getAppropriateTurn''"
  shows "\<exists>r. snd (serve_action (app static e req) exec d) = Some r \<and>
    (status r = 200 \<and> (\<exists>v. rbody r = Json v) \<or> status r = 404 \<and> (\<exists>v. rbody r = Text v))"
proof -
  let ?p = "getAppropriateTurn (MD5 e) (now e) (rand e) (opt_str (query req ''cspId'')) (opt_str (query req ''clientName''))"
  have "is_settled (snd (run ?p exec d))" by (rule redis_server.getAppropriateTurn_settles[OF assms(1)])
  then show ?thesis using assms(2-4)
    by (cases "snd (run ?p exec d)")
      (simp_all add: app_def routes_def get_getAppropriateTurn_def turn_response_def with_cors_def Let_def path_simps)
qed

theorem turn_request_answered_witness:
  "\<exists>r. snd (serve_action (app demo_static demo_env (demo_get ''/getAppropriateTurn'' [''cspId'' \<mapsto> ''acme'']))
     mem_exec demo_mem) = Some r"
  using turn_request_answered[OF mem.redis_server_axioms,
      of demo_static "demo_get ''/getAppropriateTurn'' [''cspId'' \<mapsto> ''acme'']" demo_env demo_mem]
  by (auto simp: demo_static_def demo_get_def at_path_self)

text \<open>
  C9. The authentication middleware: the dashboard route serves its page exactly when the request
  carries the configured login and password, both non-empty; every other request gets 401 and the
  challenge.
\<close>

theorem dashboard_route_guarded:
  assumes "rmethod req = GET" and "at_path req ''/dashboard''"
  shows "routes e req =
    (if cfg_LOGIN (config e) \<noteq> [] \<and> cfg_PASSWD (config e) \<noteq> []
        \<and> authorization req = Some (cfg_LOGIN (config e), cfg_PASSWD (config e))
     then dashboard_page else unauthorized)"
  using assms by (auto simp: routes_def auth_def path_simps split: option.split)

theorem dashboard_route_guarded_witness:
  "routes demo_env (demo_get ''/dashboard'' Map.empty) = unauthorized
   \<and> routes demo_env ((demo_get ''/dashboard'' Map.empty)\<lparr>authorization := Some (''admin'', ''secret'')\<rparr>) = dashboard_page"
  using dashboard_route_guarded[of "demo_get ''/dashboard'' Map.empty" demo_env]
    dashboard_route_guarded[of "(demo_get ''/dashboard'' Map.empty)\<lparr>authorization := Some (''admin'', ''secret'')\<rparr>" demo_env]
  by (simp add: demo_get_def demo_env_def demo_config_def at_path_self)

text \<open>
  C8. The gate protects nothing else.  Every other route handles a request the same with any
  credentials or none, so providers are registered, deleted and given new quotas without
  authentication; and because the static middleware comes first, a page it serves by its file
  name (such as the dashboard's) is served without authentication too.
\<close>

theorem only_two_routes_guarded:
  assumes "\<not> at_path req ''/dashboard''" and "\<not> at_path req ''/apidoc''"
    and "\<And>a. static (req\<lparr>authorization := a\<rparr>) = static req"
  shows "app static e (req\<lparr>authorization := a\<rparr>) = app static e req"
  using assms
  by (cases "static req") (simp_all add: app_def routes_def get_getAppropriateTurn_def get_getAllCspInfo_def get_getCspConso_def
      get_getCredentials_def get_changeQuotas_def post_provRequest_def delete_deleteCSP_def)

theorem only_two_routes_guarded_witness:
  "app demo_static demo_env (demo_get ''/dashboard.html'' Map.empty) = dashboard_page
   \<and> app demo_static demo_env ((demo_get ''/changeQuotas'' Map.empty)\<lparr>authorization := Some (''x'', ''y'')\<rparr>)
     = app demo_static demo_env (demo_get ''/changeQuotas'' Map.empty)"
  using demo_paths only_two_routes_guarded[of "demo_get ''/changeQuotas'' Map.empty" demo_static demo_env "Some (''x'', ''y'')"]
  by (simp add: demo_static_def demo_get_def app_def dashboard_page_def)

text \<open>
  Deleting a provider: with both records present the request gets 200; without the \<open>cspkey\<close>
  parameter, or for a key that is not there, the request is never answered.
\<close>

theorem delete_request:
  assumes "redis_server exec view" and "static req = None"
    and "rmethod req = DELETE" and "at_path req ''/deleteCSP''"
  shows "case query req ''cspkey'' of
      None \<Rightarrow> serve_action (app static e req) exec d = (d, None)
    | Some k \<Rightarrow>
       (dbs (view d) 2 k = None \<longrightarrow> snd (serve_action (app static e req) exec d) = None)
     \<and> (dbs (view d) 2 k \<noteq> None \<and> dbs (view d) 2 (k @ '':conso'') \<noteq> None \<longrightarrow>
          map_option status (snd (serve_action (app static e req) exec d)) = Some 200)"
proof (cases "query req ''cspkey''")
  case None
  then show ?thesis using assms by (simp add: app_def routes_def delete_deleteCSP_def path_simps)
next
  case (Some k)
  have s: "snd (serve_action (app static e req) exec d) = map_option with_cors (ok_response (snd (run (deleteCSP k) exec d)))"
    using assms(2-4) Some by (simp add: app_def routes_def delete_deleteCSP_def Let_def path_simps)
  have "snd (serve_action (app static e req) exec d) = None" if gone: "dbs (view d) 2 k = None"
  proof -
    obtain x where "snd (run (deleteCSP k) exec d) = Rejected (JStr x)"
      by (rule redis_server.deleteCSP_missing[OF assms(1) gone])
    then show ?thesis by (simp add: s ok_response_def)
  qed
  moreover have "map_option status (snd (serve_action (app static e req) exec d)) = Some 200"
    if "dbs (view d) 2 k = Some x" "dbs (view d) 2 (k @ '':conso'') = Some y" for x y
    using redis_server.deleteCSP_moves[OF assms(1) that] by (simp add: s ok_response_def with_cors_def)
  ultimately show ?thesis using Some by auto
qed

theorem delete_request_witness:
  "snd (serve_action (app demo_static demo_env ((demo_get ''/deleteCSP'' [''cspkey'' \<mapsto> ''prov:none''])\<lparr>rmethod := DELETE\<rparr>))
     mem_exec demo_mem) = None"
proof -
  have "dbs (mem_view demo_mem) 2 ''prov:none'' = None" by (simp add: demo_dbs demo_keys_def)
  then show ?thesis
    using delete_request[OF mem.redis_server_axioms,
        of demo_static "(demo_get ''/deleteCSP'' [''cspkey'' \<mapsto> ''prov:none''])\<lparr>rmethod := DELETE\<rparr>" demo_env demo_mem]
    by (simp add: demo_static_def demo_get_def at_path_self)
qed

text \<open>
  Subscription and parser fit together: every channel a TURN server can print matches the
  pattern the broker subscribes to at its start.
\<close>

theorem pattern_covers_channels:
  "glob_match (snd (snd (boot c h p))) (channel_of a b realm user n)"
proof -
  have e: "subscription_pattern = ''turn/'' @ ''*'' @ ''/'' @ ''*'' @ ''/realm/'' @ ''*'' @ ''/user/'' @ ''*''
      @ ''/allocation/'' @ ''*'' @ ''/traffic'' @ []"
    by (simp add: subscription_pattern_def)
  have "glob_match subscription_pattern (channel_of a b realm user n @ [])"
    unfolding e channel_of_def append_assoc
    by (subst glob_literal, simp, unfold append.simps(2)[of _ "[]", unfolded append.simps(1)] append_Cons append_Nil)
      (intro glob_segment[of "''/''", simplified] glob_segment[of "''/realm/''", simplified]
        glob_segment[of "''/user/''", simplified] glob_segment[of "''/allocation/''", simplified]
        glob_segment[of "''/traffic''", simplified]; simp)
  then show ?thesis by (simp add: boot_def Let_def)
qed

end
