(* ===== verification/Broker_Termination.thy ===== *)
theory Broker_Termination
  imports Broker_DAO
begin

text \<open>
  How long the operations of the broker's data access object take, and that their promises settle,
  when any number of them share the event loop.

  The measure is the number of segments, that is of exchanges with the database.  \<open>rounds_le n p\<close>
  bounds it over all replies; \<open>every_result\<close> follows all replies the server can give, at every state
  it may have when the segment runs, since other operations run between two segments.
\<close>

section \<open>Bounded operations\<close>

fun rounds_le :: "nat \<Rightarrow> 'a proc \<Rightarrow> bool" where
  "rounds_le n (Return x) = True"
| "rounds_le 0 (Send cs k) = False"
| "rounds_le (Suc n) (Send cs k) = (\<forall>rs. rounds_le n (k rs))"

lemma rounds_mono: "rounds_le n p \<Longrightarrow> n \<le> m \<Longrightarrow> rounds_le m p"
proof (induction n p arbitrary: m rule: rounds_le.induct)
  case (3 n cs k)
  then show ?case by (cases m) auto
qed simp_all

lemma rounds_0: "rounds_le 0 p \<longleftrightarrow> (\<exists>x. p = Return x)"
  by (cases p) auto

lemma rounds_bind: "rounds_le n p \<Longrightarrow> (\<And>x. rounds_le m (f x)) \<Longrightarrow> rounds_le (n + m) (bind_proc p f)"
proof (induction n p rule: rounds_le.induct)
  case (1 n x)
  then show ?case using rounds_mono[of m "f x" "n + m"] by simp
qed simp_all

lemma rounds_select_then: "rounds_le n p \<Longrightarrow> rounds_le (Suc n) (select_then k p)"
  by (auto simp: select_then_def split: list.split)

lemma rounds_sync_before: "rounds_le (Suc n) p \<Longrightarrow> rounds_le (Suc n) (sync_before cs p)"
  by (cases p) auto

section \<open>The operations of the broker\<close>

lemma rounds_getCSPInfos: "rounds_le 2 (getCSPInfos k)"
  unfolding getCSPInfos_def numeral_2_eq_2 by (rule rounds_select_then) simp

lemma rounds_getCSPConso: "rounds_le 2 (getCSPConso k)"
  unfolding getCSPConso_def numeral_2_eq_2 by (rule rounds_select_then) simp

lemma rounds_getCspInfoAndConso: "rounds_le 4 (getCspInfoAndConso csp)"
proof -
  have "rounds_le (2 + (2 + 0)) (getCspInfoAndConso csp)"
    unfolding getCspInfoAndConso_def Let_def
    by (rule rounds_bind[OF rounds_getCSPInfos])
      (auto split: promise.split option.split intro!: rounds_bind[OF rounds_getCSPConso, of 0, simplified])
  then show ?thesis by simp
qed

lemma rounds_getTurnServers: "rounds_le 3 getTurnServers"
  unfolding getTurnServers_def numeral_3_eq_3 by (rule rounds_select_then) (auto split: reply.split)

lemma rounds_then_Return: "rounds_le n p \<Longrightarrow> rounds_le n (bind_proc p (\<lambda>x. Return (f x)))"
  using rounds_bind[of n p 0 "\<lambda>x. Return (f x)"] by simp

lemma rounds_getAppropriateTurn: "rounds_le 7 (getAppropriateTurn MD5 now r csp name)"
proof -
  have b: "rounds_le (Suc 6) (bind_proc (getCspInfoAndConso csp) f)" if "\<And>x. rounds_le 3 (f x)" for f :: "outcome \<Rightarrow> op"
    using rounds_bind[OF rounds_getCspInfoAndConso that] by simp
  have "rounds_le (Suc 6) (getAppropriateTurn MD5 now r csp name)"
    unfolding getAppropriateTurn_def Let_def
    by (rule rounds_sync_before, rule b)
      (simp split: promise.split add: rounds_then_Return rounds_getTurnServers)
  then show ?thesis by simp
qed

lemma rounds_registerCSP: "rounds_le 2 (snd (registerCSP fd t))"
  unfolding registerCSP_def snd_conv numeral_2_eq_2 by (rule rounds_select_then) simp

lemma rounds_getAllCspInfo: "rounds_le 2 getAllCspInfo"
  by (simp add: getAllCspInfo_def numeral_2_eq_2 Let_def split: reply.split)

lemma rounds_deleteCSP: "rounds_le 1 (deleteCSP k)"
  by (simp add: deleteCSP_def)

lemma rounds_updateCSPQuotas: "rounds_le 2 (updateCSPQuotas k a v q)"
  unfolding updateCSPQuotas_def numeral_2_eq_2 by (rule rounds_select_then) simp

lemma rounds_addCSPConso: "rounds_le 3 (addCSPConso t)"
  unfolding addCSPConso_def numeral_3_eq_3 by (rule rounds_select_then) (simp split: option.split)

lemma rounds_getCredentials: "rounds_le 2 (getCredentials MD5 r cid)"
  unfolding getCredentials_def createTurnCredentials_def Let_def numeral_2_eq_2
  by (rule rounds_then_Return, rule rounds_select_then) simp

lemmas rounds_ops = rounds_getCSPInfos rounds_getCSPConso rounds_getCspInfoAndConso rounds_getTurnServers
  rounds_getAppropriateTurn rounds_registerCSP rounds_getAllCspInfo rounds_deleteCSP rounds_updateCSPQuotas
  rounds_addCSPConso rounds_getCredentials

section \<open>The event loop without new arrivals\<close>

text \<open>A bound for every operation in progress; a segment uses up one unit of one of them.\<close>

lemma segment_budget:
  assumes "sched_step ex {} (d, ps) (d', ps')" and "list_all2 rounds_le ns ps"
  obtains ns' where "list_all2 rounds_le ns' ps'" "Suc (sum_list ns') = sum_list ns"
  using assms(1)
proof cases
  case (segment i cs k)
  have i: "i < length ns" using segment(3) assms(2) by (simp add: list_all2_lengthD)
  have "rounds_le (ns ! i) (Send cs k)" using list_all2_nthD2[OF assms(2) segment(3)] segment(4) by simp
  then obtain n where n: "ns ! i = Suc n" "rounds_le n (k (snd (exec_all ex cs d)))" by (cases "ns ! i") auto
  have "list_all2 rounds_le (ns[i := n]) ps'"
    unfolding segment using n(2) assms(2) by (intro list_all2_update_cong) auto
  moreover have "Suc (sum_list (ns[i := n])) = sum_list ns"
    using i n(1) member_le_sum_list[OF nth_mem[OF i]] by (simp add: sum_list_update)
  ultimately show thesis by (rule that)
qed simp

lemma run_budget:
  assumes "(sched_step ex {} ^^ n) (d, ps) (d', ps')" and "list_all2 rounds_le ns ps"
  shows "n \<le> sum_list ns"
  using assms
proof (induction n arbitrary: d ps ns)
  case (Suc n)
  obtain s1 where s1: "sched_step ex {} (d, ps) s1" "(sched_step ex {} ^^ n) s1 (d', ps')"
    by (rule relpowp_Suc_E2[OF Suc.prems(1)])
  obtain d1 ps1 where "s1 = (d1, ps1)" by (cases s1)
  note 1 = s1[unfolded this]
  obtain ns1 where 2: "list_all2 rounds_le ns1 ps1" "Suc (sum_list ns1) = sum_list ns"
    by (rule segment_budget[OF 1(1) Suc.prems(2)])
  show ?case using Suc.IH[OF 1(2) 2(1)] 2(2) by simp
qed simp

text \<open>The event loop stops only when every operation has returned.\<close>

lemma stuck_returned:
  assumes "\<nexists>t. sched_step ex {} (d, ps) t"
  shows "\<exists>xs. ps = map Return xs"
proof -
  have "\<exists>x. p = Return x" if p: "p \<in> set ps" for p
  proof (cases p)
    case (Send cs k)
    then obtain i where i: "i < length ps" "ps ! i = Send cs k" using p by (auto simp: in_set_conv_nth)
    have False using assms sched_step.segment[OF i, of ex "{}" d] by blast
    then show ?thesis ..
  qed simp
  then show ?thesis unfolding ex_map_conv by blast
qed

lemma sched_step_terminates:
  assumes "list_all2 rounds_le ns ps"
  shows "\<exists>n d' xs. n \<le> sum_list ns \<and> (sched_step ex {} ^^ n) (d, ps) (d', map Return xs)"
  using assms
proof (induction "sum_list ns" arbitrary: ns d ps rule: less_induct)
  case less
  show ?case
  proof (cases "\<exists>t. sched_step ex {} (d, ps) t")
    case False
    then obtain xs where "ps = map Return xs" using stuck_returned[OF False] by (elim exE)
    then show ?thesis by (intro exI[of _ 0]) auto
  next
    case True
    then obtain d1 ps1 where 1: "sched_step ex {} (d, ps) (d1, ps1)" by auto
    obtain ns1 where 2: "list_all2 rounds_le ns1 ps1" "Suc (sum_list ns1) = sum_list ns"
      by (rule segment_budget[OF 1 less.prems])
    have lt: "sum_list ns1 < sum_list ns" using 2(2) by simp
    obtain n d' xs where 3: "n \<le> sum_list ns1" "(sched_step ex {} ^^ n) (d1, ps1) (d', map Return xs)"
      using less.hyps[OF lt 2(1)] by blast
    have "(sched_step ex {} ^^ Suc n) (d, ps) (d', map Return xs)" using 1 3(2) by (rule relpowp_Suc_I2)
    then show ?thesis using 3(1) 2(2) by (intro exI[of _ "Suc n"]) auto
  qed
qed

section \<open>Results whatever runs in between\<close>

text \<open>The replies of a segment come from the server as it is when the segment runs.\<close>

primrec every_result :: "('d \<Rightarrow> cmd \<Rightarrow> 'd \<times> reply) \<Rightarrow> ('a \<Rightarrow> bool) \<Rightarrow> 'a proc \<Rightarrow> bool" where
  "every_result ex P (Return x) = P x"
| "every_result ex P (Send cs k) = (\<forall>d. every_result ex P (k (snd (exec_all ex cs d))))"

lemma every_result_mono: "every_result ex P p \<Longrightarrow> (\<And>x. P x \<Longrightarrow> Q x) \<Longrightarrow> every_result ex Q p"
  by (induction p) auto

lemma every_result_bind:
  "every_result ex P p \<Longrightarrow> (\<And>x. P x \<Longrightarrow> every_result ex Q (f x)) \<Longrightarrow> every_result ex Q (bind_proc p f)"
  by (induction p) auto

lemma every_result_sync_before: "every_result ex P p \<Longrightarrow> every_result ex P (sync_before cs p)"
  by (cases p) (auto simp: exec_all_append Let_def)

text \<open>What the next segment keeps of an operation, the event loop keeps, whatever the others do.\<close>

lemma position_kept:
  assumes "(sched_step ex A)\<^sup>*\<^sup>* (d, ps) (d', ps')" and "i < length ps" and "Q (ps ! i)"
    and "\<And>cs k d. Q (Send cs k) \<Longrightarrow> Q (k (snd (exec_all ex cs d)))"
  shows "i < length ps' \<and> Q (ps' ! i)"
  using assms(1)
proof (induction rule: rtranclp_induct2)
  case refl
  then show ?case using assms(2,3) by simp
next
  case (step d1 ps1 d2 ps2)
  from step(2) show ?case
  proof cases
    case (segment j cs k)
    then show ?thesis using step.IH assms(4) by (cases "i = j") auto
  qed (use step.IH in \<open>simp add: nth_append\<close>)
qed

lemma rounds_segment: "rounds_le n (Send cs k) \<Longrightarrow> rounds_le n (k rs)"
  by (cases n) (auto intro: rounds_mono)

lemma own_segments:
  assumes "rounds_le n (ps ! i)" and "i < length ps"
  shows "\<exists>m\<le>n. \<exists>t. (sched_step ex {} ^^ m) (d, ps) t \<and> (\<exists>x. snd t ! i = Return x)"
  using assms
proof (induction n arbitrary: d ps)
  case 0
  then show ?case by (auto simp: rounds_0)
next
  case (Suc n)
  show ?case
  proof (cases "ps ! i")
    case (Send cs k)
    let ?t = "(fst (exec_all ex cs d), ps[i := k (snd (exec_all ex cs d))])"
    have s: "sched_step ex {} (d, ps) ?t" by (rule sched_step.segment[OF Suc.prems(2) Send])
    obtain m t where "m \<le> n" "(sched_step ex {} ^^ m) ?t t" "\<exists>x. snd t ! i = Return x"
      using Suc.IH[of "snd ?t" "fst ?t"] Suc.prems Send by auto
    with relpowp_Suc_I2[where P = "sched_step ex {}", OF s] show ?thesis by (meson Suc_le_mono)
  qed (auto intro: exI[of _ 0])
qed

lemma result_reached:
  assumes "i < length ps" and "rounds_le n (ps ! i)" and "every_result ex P (ps ! i)"
  shows "\<exists>m\<le>n. \<exists>t x. (sched_step ex {} ^^ m) (d, ps) t \<and> snd t ! i = Return x \<and> P x"
proof -
  obtain m t x where m: "m \<le> n" "(sched_step ex {} ^^ m) (d, ps) t" "snd t ! i = Return x"
    using own_segments[OF assms(2,1), of ex d] by blast
  have "(sched_step ex {})\<^sup>*\<^sup>* (d, ps) (fst t, snd t)" using relpowp_imp_rtranclp[OF m(2)] by simp
  then have "i < length (snd t) \<and> every_result ex P (snd t ! i)"
    by (rule position_kept[OF _ assms(1), where Q = "every_result ex P"]) (simp_all add: assms(3))
  then have "P x" using m(3) by simp
  with m show ?thesis by blast
qed

text \<open>The bound and the result of an operation, whatever the others do.\<close>

lemma operation_completes:
  assumes "(sched_step ex A)\<^sup>*\<^sup>* (d, ps) (d', ps')" and "i < length ps" and "rounds_le n (ps ! i)" and "every_result ex P (ps ! i)"
  shows "every_result ex P (ps' ! i) \<and> (\<exists>m\<le>n. \<exists>t x. (sched_step ex {} ^^ m) (d', ps') t \<and> snd t ! i = Return x \<and> P x)"
proof -
  have 1: "i < length ps' \<and> rounds_le n (ps' ! i)"
    by (rule position_kept[OF assms(1,2), where Q = "rounds_le n"]) (rule assms(3), rule rounds_segment)
  have 2: "i < length ps' \<and> every_result ex P (ps' ! i)"
    by (rule position_kept[OF assms(1,2), where Q = "every_result ex P"]) (simp_all add: assms(4))
  show ?thesis using result_reached[of i ps' n ex P d'] 1 2 by blast
qed

abbreviation settled :: "outcome \<Rightarrow> bool" where
  "settled x \<equiv> x \<noteq> Unsettled"

context redis_server
begin

lemma every_result_select_then: "every_result exec P p \<Longrightarrow> every_result exec P (select_then n p)"
  by (simp add: select_then_def)

lemma settles_getCSPInfos: "every_result exec settled (getCSPInfos k)"
  unfolding getCSPInfos_def
  by (rule every_result_select_then) (auto elim: hgetall_result.elims)

lemma settles_getCSPConso: "every_result exec settled (getCSPConso k)"
  unfolding getCSPConso_def
  by (rule every_result_select_then) (auto elim: hgetall_result.elims)

lemma settles_getCspInfoAndConso: "every_result exec settled (getCspInfoAndConso csp)"
  unfolding getCspInfoAndConso_def Let_def
  by (rule every_result_bind[OF settles_getCSPInfos])
    (auto split: promise.split option.split simp: with_conso_def intro!: every_result_bind[OF settles_getCSPConso])

text \<open>A list of servers or a reason.\<close>

lemma settles_getTurnServers: "every_result exec (\<lambda>t. settled t \<and> (\<forall>v. t = Fulfilled v \<longrightarrow> (\<exists>ts. v = JArr ts))) getTurnServers"
  unfolding getTurnServers_def
proof (rule every_result_select_then, unfold every_result.simps, intro allI)
  fix d
  obtain ks where "snd (exec d (Keys ''turnservers:*'')) = RList ks" by (rule reply_Keys)
  then show "every_result exec (\<lambda>t. settled t \<and> (\<forall>v. t = Fulfilled v \<longrightarrow> (\<exists>ts. v = JArr ts)))
    (case snd (exec_all exec [Keys ''turnservers:*''] d) ! 0 of
       RErr e \<Rightarrow> Return (Rejected (JStr e))
     | RList ks \<Rightarrow> if ks = [] then Return (Rejected (JStr ''No turn found''))
         else Send (map Get ks) (\<lambda>rs'. Return (turn_list ks rs'))
     | _ \<Rightarrow> Return Unsettled)"
    by (simp add: turn_list_def split: option.split)
qed

lemma settles_getAppropriateTurn: "every_result exec settled (getAppropriateTurn MD5 now r csp name)"
  unfolding getAppropriateTurn_def Let_def
  by (intro every_result_sync_before every_result_bind[OF settles_getCspInfoAndConso])
    (auto split: promise.split jsval.split simp: answer_turn_def intro!: every_result_bind[OF settles_getTurnServers])

lemma settles_updateCSPQuotas: "every_result exec settled (updateCSPQuotas k a v q)"
  unfolding updateCSPQuotas_def by (rule every_result_select_then) (auto split: reply.split)

lemma settles_deleteCSP: "every_result exec settled (deleteCSP k)"
  unfolding deleteCSP_def by (auto split: reply.split)

lemma settles_registerCSP: "every_result exec settled (snd (registerCSP fd t))"
  unfolding registerCSP_def snd_conv by (rule every_result_select_then) simp

lemma settles_createTurnCredentials:
  "every_result exec (\<lambda>x. x = Fulfilled (JStr (randomString 6 r))) (createTurnCredentials MD5 r cid)"
  unfolding createTurnCredentials_def Let_def by (rule every_result_select_then) simp

lemma settles_getCredentials: "every_result exec settled (getCredentials MD5 r cid)"
  unfolding getCredentials_def by (rule every_result_bind[OF settles_createTurnCredentials]) simp

lemmas settles_ops = settles_getCSPInfos settles_getCSPConso settles_getCspInfoAndConso settles_getAppropriateTurn
  settles_updateCSPQuotas settles_deleteCSP settles_registerCSP settles_getCredentials
  every_result_mono[OF settles_getTurnServers conjunct1]

end

text \<open>All operations but the list of the providers and the charging of traffic: the list stays unsettled
  without providers, and a published message that does not parse charges nobody.\<close>

inductive answering_op :: "op \<Rightarrow> bool" where
  "answering_op (getCSPInfos k)"
| "answering_op (getCSPConso k)"
| "answering_op (getCspInfoAndConso csp)"
| "answering_op (getAppropriateTurn MD5 now r csp name)"
| "answering_op (updateCSPQuotas k a v q)"
| "answering_op (deleteCSP k)"
| "answering_op (snd (registerCSP fd t))"
| "answering_op (getCredentials MD5 r cid)"
| "answering_op getTurnServers"

inductive dao_op :: "op \<Rightarrow> bool" where
  "answering_op p \<Longrightarrow> dao_op p"
| "dao_op getAllCspInfo"
| "dao_op (addCSPConso t)"

lemma answering_op_rounds: "answering_op p \<Longrightarrow> rounds_le 7 p"
  by (induction rule: answering_op.induct) (rule rounds_mono, rule rounds_ops, simp)+

lemma dao_op_rounds: "dao_op p \<Longrightarrow> rounds_le 7 p"
  by (induction rule: dao_op.induct) (simp add: answering_op_rounds, (rule rounds_mono, rule rounds_ops, simp)+)

lemma reach_rounds: "sched_reach ex {p. dao_op p} d0 s \<Longrightarrow> list_all (rounds_le 7) (snd s)"
proof (induction rule: sched_reach.induct)
  case (step s t)
  from step(2) show ?case
  proof cases
    case (segment i ps cs k d)
    then have "rounds_le 7 (Send cs k)" using step(3) by (auto simp: list_all_length)
    then show ?thesis using segment step(3) by (auto simp: list_all_length nth_list_update intro: rounds_segment)
  qed (use step(3) in \<open>simp add: dao_op_rounds\<close>)
qed simp

context redis_server
begin

lemma answering_op_settles: "answering_op p \<Longrightarrow> every_result exec settled p"
  by (induction rule: answering_op.induct) (rule settles_ops)+

end

section \<open>Properties\<close>





end
