(* ===== verification/Broker_Server.thy ===== *)
theory Broker_Server
  imports Broker_Routes Broker_Termination
begin

text \<open>
  The broker under load: many requests in progress on one event loop and one database connection.
  Every request becomes an operation whose result is its response, so the interleaving of
  \<open>Redis_Client\<close> and the bounds of \<open>Broker_Termination\<close> apply to requests.
\<close>

section \<open>Requests as operations\<close>

text \<open>The result is the response, if there is one.  The response of a background operation is on its way
  already while the operation runs.\<close>

primrec action_proc :: "action \<Rightarrow> response option proc" where
  "action_proc (Respond r) = Return (Some r)"
| "action_proc (Background r p) = bind_proc p (\<lambda>_. Return (Some r))"
| "action_proc (Await p k) = bind_proc p (\<lambda>x. Return (k x))"
| "action_proc Silent = Return None"

lemma run_action_proc: "run (action_proc a) ex d = serve_action a ex d"
  by (cases a) (simp_all add: run_bind Let_def)

text \<open>The requests that must be answered whatever the database holds.\<close>

definition always_answered :: "request \<Rightarrow> bool" where
  "always_answered req =
     (rmethod req = GET \<and> (at_path req ''/getAppropriateTurn'' \<or> at_path req ''/getCredentials''
        \<or> at_path req ''/dashboard'' \<or> at_path req ''/apidoc'')
      \<or> rmethod req = POST \<and> at_path req ''/provRequest'')"

definition proper :: "response option \<Rightarrow> bool" where
  "proper r = (\<exists>x. r = Some x \<and> status x \<in> {200, 302, 401, 404})"

lemma proper_auth: "\<exists>r. auth c req (Respond (plain_response 200 b)) = Respond r \<and> status r \<in> {200, 401}"
  by (auto simp: auth_def unauthorized_def split: option.split)

context redis_server
begin

lemma turn_proper: "every_result exec proper (action_proc (add_cors (get_getAppropriateTurn md5 t r req)))"
  unfolding get_getAppropriateTurn_def add_cors.simps action_proc.simps
  by (rule every_result_bind[OF settles_getAppropriateTurn])
    (auto simp: turn_response_def proper_def with_cors_def split: promise.split)

lemma credentials_fulfilled: "every_result exec (\<lambda>x. \<exists>v. x = Fulfilled v) (getCredentials md5 r cid)"
  unfolding getCredentials_def by (rule every_result_bind[OF settles_createTurnCredentials]) simp

lemma credentials_proper: "every_result exec proper (action_proc (add_cors (get_getCredentials md5 r req)))"
  unfolding get_getCredentials_def add_cors.simps action_proc.simps
  by (rule every_result_bind[OF credentials_fulfilled]) (auto simp: json_response_def proper_def with_cors_def)

lemma provision_proper: "every_result exec proper (action_proc (add_cors (post_provRequest req)))"
  unfolding post_provRequest_def add_cors.simps action_proc.simps
  by (rule every_result_bind[OF settles_registerCSP]) (simp add: proper_def with_cors_def)

lemma routes_proper:
  assumes "always_answered req"
  shows "every_result exec proper (action_proc (add_cors (routes e req)))"
proof -
  have page: "every_result exec proper (action_proc (add_cors (auth c req (Respond (plain_response 200 b)))))" for c b
    using proper_auth[of c req b] by (auto simp: proper_def with_cors_def)
  consider "rmethod req = GET" "at_path req ''/getAppropriateTurn''" | "rmethod req = GET" "at_path req ''/getCredentials''"
    | "rmethod req = GET" "at_path req ''/dashboard''" | "rmethod req = GET" "at_path req ''/apidoc''"
    | "rmethod req = POST" "at_path req ''/provRequest''"
    using assms by (auto simp: always_answered_def)
  then show ?thesis
    by cases (simp_all add: routes_def path_simps turn_proper credentials_proper provision_proper page dashboard_page_def apidoc_page_def)
qed

end

lemma rounds_action:
  "rounds_le n p \<Longrightarrow> rounds_le n (action_proc (Await p k))" "rounds_le n p \<Longrightarrow> rounds_le n (action_proc (Background r p))"
  by (simp_all add: rounds_then_Return)

lemma rounds_routes: "rounds_le 7 (action_proc (add_cors (routes e req)))"
proof -
  have page: "rounds_le 7 (action_proc (add_cors (auth c req (Respond r))))" for c r
    by (simp add: auth_def unauthorized_def split: option.split)
  note ops = rounds_ops[THEN rounds_mono, of 7, simplified]
  show ?thesis unfolding routes_def
    by (auto simp: page dashboard_page_def apidoc_page_def get_getAppropriateTurn_def get_getAllCspInfo_def get_getCspConso_def
        get_getCredentials_def get_changeQuotas_def post_provRequest_def delete_deleteCSP_def not_found_def
        split: option.split intro!: rounds_then_Return ops)
qed

lemma rounds_app: "rounds_le 7 (action_proc (app static e req))"
  by (simp add: app_def rounds_routes split: option.split)

section \<open>Properties of the loaded server\<close>



section \<open>A race of two requests\<close>

definition demo_provider :: mem where
  "demo_provider = \<lparr>m_sel = 0, m_dbs = (\<lambda>n. if n = 2 then [(''prov:csp'', MHash [(''dataQuota'', ''1'')]),
     (''prov:csp:conso'', MHash [(''data'', ''0'')])] else []), m_ttl = (\<lambda>_. [])\<rparr>"

lemma demo_listing:
  "snd (exec_all mem_exec [Select 2, Keys ''prov:*''] demo_provider) = [ROk, RList [''prov:csp'', ''prov:csp:conso'']]"
  "prov_keys [''prov:csp'', ''prov:csp:conso''] = [''prov:csp'']" "re_test conso_end_re ''prov:csp'' = False"
  by code_simp+

definition demo_deleted :: "mem \<times> reply list" where
  "demo_deleted = exec_all mem_exec [Select 2, Rename ''prov:csp:conso'' ''histoprov:csp:conso'', Rename ''prov:csp'' ''histoprov:csp'']
     (fst (exec_all mem_exec [Select 2, Keys ''prov:*''] demo_provider))"

lemma demo_deletion:
  "snd demo_deleted = [ROk, ROk, ROk]" "snd (exec_all mem_exec [Hgetall ''prov:csp''] (fst demo_deleted)) = [RNil]"
  by code_simp+

lemma step_segment:
  assumes "i < length ps" and "ps ! i = Send cs k"
    and "d' = fst (exec_all ex cs d)" and "snd (exec_all ex cs d) = rs" and "ps' = ps[i := k rs]"
  shows "sched_step ex A (d, ps) (d', ps')"
  using sched_step.segment[OF assms(1,2), of ex A d] unfolding assms(3,5) assms(4) .

definition demo_list_rest :: op where
  "demo_list_rest = Send [Hgetall ''prov:csp''] (\<lambda>rs'. Return (collect_infos 1 [] (zip [''prov:csp''] rs')))"

text \<open>
  A provider that is deleted between the two segments of the list of the providers leaves the list
  unsettled: the deletion succeeds, and the request for the list is never answered.
\<close>

theorem listing_race:
  "\<exists>d'. (sched_step mem_exec {})\<^sup>*\<^sup>* (demo_provider, [getAllCspInfo, deleteCSP ''prov:csp''])
     (d', [Return Unsettled, Return (Fulfilled (JNum (Fin 1)))]) \<and> all_response Unsettled = None"
proof -
  let ?d1 = "fst (exec_all mem_exec [Select 2, Keys ''prov:*''] demo_provider)"
  let ?d3 = "fst (exec_all mem_exec [Hgetall ''prov:csp''] (fst demo_deleted))"
  have "sched_step mem_exec {} (demo_provider, [getAllCspInfo, deleteCSP ''prov:csp'']) (?d1, [demo_list_rest, deleteCSP ''prov:csp''])"
    by (rule step_segment[of 0, OF _ _ refl demo_listing(1)])
      (simp, simp add: getAllCspInfo_def, simp add: demo_list_rest_def demo_listing(2,3))
  moreover have "sched_step mem_exec {} (?d1, [demo_list_rest, deleteCSP ''prov:csp''])
      (fst demo_deleted, [demo_list_rest, Return (Fulfilled (JNum (Fin 1)))])"
    by (rule step_segment[of 1, OF _ _ demo_deleted_def[THEN arg_cong[of _ _ fst]] demo_deletion(1)[unfolded demo_deleted_def]])
      (simp, simp add: deleteCSP_def, simp)
  moreover have "sched_step mem_exec {} (fst demo_deleted, [demo_list_rest, Return (Fulfilled (JNum (Fin 1)))])
      (?d3, [Return Unsettled, Return (Fulfilled (JNum (Fin 1)))])"
    by (rule step_segment[of 0, OF _ _ refl demo_deletion(2)]) (simp, simp add: demo_list_rest_def, simp)
  ultimately show ?thesis
    by (intro exI[of _ ?d3] conjI) (meson rtranclp.rtrancl_into_rtrancl rtranclp.rtrancl_refl, simp add: all_response_def)
qed

end
