(* ===== verification/Dashboard.thy ===== *)
theory Dashboard
  imports Broker_Routes
begin

text \<open>
  The dashboard page of the broker: \<^verbatim>\<open>broker/BrokerServer/public/js/app.js\<close> (controller, the \<open>bytes\<close>
  filter, the number input directive) and \<^verbatim>\<open>cspfilter.js\<close>.  Angular and jQuery are not part of the
  repository; the callbacks they call are functions of the response body, and the requests the
  page sends are \<open>request\<close> values of the broker's HTTP interface.  \<^const>\<open>None\<close> is a TypeError thrown
  inside a callback, which leaves the state as it was.
\<close>

section \<open>Consumption\<close>

text \<open>\<open>parseInt\<close> of a value that is first turned into a string.\<close>

fun val_parseInt :: "jsval \<Rightarrow> jsnum" where
  "val_parseInt (JStr s) = js_parseInt s"
| "val_parseInt (JNum n) = js_parseInt_num n"
| "val_parseInt (JArr (v # vs)) = val_parseInt v"
| "val_parseInt _ = NaN"

definition calculatePercentConsumed :: "jsval \<Rightarrow> jsval \<Rightarrow> jsnum" where
  "calculatePercentConsumed consumed quota =
     (let c = val_parseInt consumed; q = val_parseInt quota in
      if c = Fin 0 \<or> q = Fin 0 then Fin 0 else js_mul (js_div c q) (Fin 100))"

record dashboard =
  provs :: "jsval list"
  order :: string
  orderType :: jsval
  oldcons :: "(string \<times> jsval) list"
  cspToEdit :: jsval
  edit :: bool
  filteringUnit :: string

definition currentFilteringUnit :: string where
  "currentFilteringUnit = ''MB''"

text \<open>\<open>$.extend(target, {...})\<close>: the fields are assigned in order.\<close>

definition extend :: "jsval \<Rightarrow> (string \<times> jsval) list \<Rightarrow> jsval option" where
  "extend obj fs = foldl (\<lambda>r fv. case r of None \<Rightarrow> None | Some x \<Rightarrow> js_put x (fst fv) (snd fv)) (Some obj) fs"

definition percent_fields :: "jsval \<Rightarrow> jsval \<Rightarrow> (string \<times> jsval) list option" where
  "percent_fields res prov =
     (case (js_get res ''audio'', js_get res ''video'', js_get res ''data'',
            js_get prov ''audioQuota'', js_get prov ''videoQuota'', js_get prov ''dataQuota'') of
        (Some a, Some v, Some d, Some qa, Some qv, Some qd) \<Rightarrow>
          Some [(''audiopercent'', JNum (calculatePercentConsumed a qa)),
                (''videopercent'', JNum (calculatePercentConsumed v qv)),
                (''datapercent'', JNum (calculatePercentConsumed d qd))]
      | _ \<Rightarrow> None)"

definition consumed_fields :: "jsval \<Rightarrow> (string \<times> jsval) list option" where
  "consumed_fields res =
     (case (js_get res ''audio'', js_get res ''video'', js_get res ''data'') of
        (Some a, Some v, Some d) \<Rightarrow>
          Some [(''audioconsumed'', JNum (val_parseInt a)), (''videoconsumed'', JNum (val_parseInt v)),
                (''dataconsumed'', JNum (val_parseInt d))]
      | _ \<Rightarrow> None)"

text \<open>The callback of \<open>getCSPConso\<close>: remember the previous figures, then set the new ones.\<close>

definition old_figures :: "jsval \<Rightarrow> jsval option" where
  "old_figures prov =
     (case (js_get prov ''audioconsumed'', js_get prov ''videoconsumed'', js_get prov ''dataconsumed'') of
        (Some a, Some v, Some d) \<Rightarrow> Some (JObj [(''audio'', a), (''video'', v), (''data'', d)])
      | _ \<Rightarrow> None)"

definition no_rise :: "(string \<times> jsval) list" where
  "no_rise = [(''audiohasrisen'', JBool False), (''videohasrisen'', JBool False), (''datahasrisen'', JBool False)]"

definition getCSPConso_cb :: "string \<Rightarrow> nat \<Rightarrow> jsval \<Rightarrow> dashboard \<Rightarrow> dashboard option" where
  "getCSPConso_cb cspkey cspIndex res dc =
     (if \<not> truthy res then Some dc
      else case js_nth (provs dc) cspIndex of None \<Rightarrow> None
        | Some prov \<Rightarrow>
            (case (old_figures prov, consumed_fields res, percent_fields res prov) of
               (Some old, Some cs, Some ps) \<Rightarrow>
                 (case extend prov (cs @ no_rise @ ps) of None \<Rightarrow> None
                  | Some prov' \<Rightarrow> Some (dc\<lparr>oldcons := AList.update cspkey old (oldcons dc), provs := (provs dc)[cspIndex := prov']\<rparr>))
             | _ \<Rightarrow> None))"

text \<open>The callback of \<open>reloadCSPConso\<close>: compare with the remembered figures, then remember the new ones.\<close>

definition has_risen :: "jsval \<Rightarrow> jsval \<Rightarrow> jsval" where
  "has_risen new old = JBool (js_gt (val_parseInt new) (to_number old))"

definition rise_fields :: "jsval \<Rightarrow> jsval \<Rightarrow> (string \<times> jsval) list option" where
  "rise_fields res old =
     (case (js_get res ''audio'', js_get res ''video'', js_get res ''data'',
            js_get old ''audio'', js_get old ''video'', js_get old ''data'') of
        (Some a, Some v, Some d, Some oa, Some ov, Some od) \<Rightarrow>
          Some [(''audiohasrisen'', has_risen a oa), (''videohasrisen'', has_risen v ov),
                (''datahasrisen'', has_risen d od)]
      | _ \<Rightarrow> None)"

definition new_old :: "jsval \<Rightarrow> jsval \<Rightarrow> jsval option" where
  "new_old res old =
     (case (js_get res ''audio'', js_get res ''video'', js_get res ''data'') of
        (Some a, Some v, Some d) \<Rightarrow> extend old [(''audio'', a), (''video'', v), (''data'', d)]
      | _ \<Rightarrow> None)"

definition reloadCSPConso_cb :: "string \<Rightarrow> nat \<Rightarrow> jsval \<Rightarrow> dashboard \<Rightarrow> dashboard option" where
  "reloadCSPConso_cb cspkey cspIndex res dc =
     (if \<not> truthy res then Some dc
      else case (js_nth (provs dc) cspIndex, map_of (oldcons dc) cspkey) of
          (Some prov, Some old) \<Rightarrow>
            (case (consumed_fields res, rise_fields res old, percent_fields res prov, new_old res old) of
               (Some cs, Some rs, Some ps, Some old') \<Rightarrow>
                 (case extend prov (cs @ rs @ ps) of None \<Rightarrow> None
                  | Some prov' \<Rightarrow> Some (dc\<lparr>provs := (provs dc)[cspIndex := prov'], oldcons := AList.update cspkey old' (oldcons dc)\<rparr>))
             | _ \<Rightarrow> None)
        | _ \<Rightarrow> None)"

section \<open>The controller\<close>

definition mainController :: dashboard where
  "mainController = \<lparr>provs = [], order = '''', orderType = JNum (Fin 1), oldcons = [], cspToEdit = JNull,
     edit = False, filteringUnit = currentFilteringUnit\<rparr>"

text \<open>The requests of the page.\<close>

definition page_get :: "http_method \<Rightarrow> string \<Rightarrow> (string \<times> string) list \<Rightarrow> request" where
  "page_get m p q = \<lparr>rmethod = m, rpath = p, query = map_of q, form = Map.empty, authorization = None\<rparr>"

text \<open>The consumption request puts the key into the address as it is: the browser cuts the address at a
  \<open>#\<close>, and the server reads the parameters off the rest with its query parser \<open>pq\<close>, which is not part of
  the repository.\<close>

definition conso_request :: "(string \<Rightarrow> string \<rightharpoonup> string) \<Rightarrow> string \<Rightarrow> request" where
  "conso_request pq cspkey = \<lparr>rmethod = GET, rpath = ''/getCSPConso'',
     query = pq (takeWhile (\<lambda>c. c \<noteq> CHR ''#'') (''cspkey='' @ cspkey)), form = Map.empty, authorization = None\<rparr>"

text \<open>A value as a query parameter: a missing or null one is left out of the query.\<close>

definition val_str :: "jsval \<Rightarrow> string option" where
  "val_str v = (case v of JStr s \<Rightarrow> Some s | JNum n \<Rightarrow> Some (js_to_string n)
     | JBool b \<Rightarrow> Some (if b then ''true'' else ''false'') | _ \<Rightarrow> None)"

definition params :: "(string \<times> jsval) list \<Rightarrow> (string \<times> string) list" where
  "params ps = concat (map (\<lambda>(k, v). case val_str v of None \<Rightarrow> [] | Some s \<Rightarrow> [(k, s)]) ps)"

text \<open>The list of providers arrives: one consumption request per provider, whose callback gets the key
  and the index of the row.  A row that is null throws and ends the loop.\<close>

fun row_jobs :: "nat \<Rightarrow> jsval list \<Rightarrow> (nat \<times> string) list" where
  "row_jobs i [] = []"
| "row_jobs i (row # rows) = (case js_get row ''csp'' of None \<Rightarrow> []
     | Some cspkey \<Rightarrow> (i, to_string_val cspkey) # row_jobs (Suc i) rows)"

definition load_all :: "jsval list \<Rightarrow> dashboard \<Rightarrow> dashboard \<times> (nat \<times> string) list" where
  "load_all data dc = (dc\<lparr>provs := data\<rparr>, row_jobs 0 data)"

definition reload :: "dashboard \<Rightarrow> (nat \<times> string) list" where
  "reload dc = row_jobs 0 (provs dc)"

definition filter_row :: "string \<Rightarrow> dashboard \<Rightarrow> dashboard" where
  "filter_row row dc =
     (let ord = (if order dc = row then CHR ''-'' # row else row)
      in dc\<lparr>order := ord, orderType := JStr (take 1 ord)\<rparr>)"

definition deleteCSP_click :: "bool \<Rightarrow> string \<Rightarrow> request option" where
  "deleteCSP_click canDelete cspkey =
     (if canDelete then Some (page_get DELETE ''/deleteCSP'' [(''cspkey'', cspkey)]) else None)"

definition showEdit :: "jsval \<Rightarrow> dashboard \<Rightarrow> dashboard" where
  "showEdit csp dc = dc\<lparr>cspToEdit := csp, edit := True\<rparr>"

definition hideEdit :: "dashboard \<Rightarrow> dashboard" where
  "hideEdit dc = dc\<lparr>cspToEdit := JNull, edit := False\<rparr>"

definition zero_if_NaN :: "string \<Rightarrow> jsval \<Rightarrow> jsval option" where
  "zero_if_NaN f csp = (case js_get csp f of None \<Rightarrow> None
     | Some v \<Rightarrow> if v = JStr ''NaN'' then js_put csp f (JNum (Fin 0)) else Some csp)"

text \<open>The edited object keeps the changed quotas, and the request carries its fields.\<close>

definition submitChanges :: "jsval \<Rightarrow> (jsval \<times> request) option" where
  "submitChanges cspEdited =
     Option.bind (zero_if_NaN ''audioQuota'' cspEdited) (\<lambda>c1.
     Option.bind (zero_if_NaN ''videoQuota'' c1) (\<lambda>c2.
       case (js_get c2 ''csp'', js_get c2 ''audioQuota'', js_get c2 ''videoQuota'', js_get c2 ''dataQuota'') of
         (Some k, Some a, Some v, Some d) \<Rightarrow>
           Some (c2, page_get GET ''/changeQuotas''
             (params [(''cspKey'', k), (''audioQuota'', a), (''videoQuota'', v), (''dataQuota'', d)]))
       | _ \<Rightarrow> None))"

section \<open>Filters and directives\<close>

definition units :: "string list" where
  "units = [''bytes'', ''kB'', ''MB'', ''GB'', ''TB'', ''PB'']"

text \<open>\<open>Math.pow(1024, units.indexOf(unit))\<close>; an unknown unit has index -1.\<close>

definition unit_scale :: "string \<Rightarrow> jsnum" where
  "unit_scale unit = Fin (1024 powi (js_index_of units unit))"

definition bytes_filter :: "jsval \<Rightarrow> string \<Rightarrow> nat option \<Rightarrow> string" where
  "bytes_filter bytes unit precision =
     (if bytes = JNum (Fin 0) then ''0''
      else let f = (case bytes of JStr s \<Rightarrow> js_parseFloat s | JNum n \<Rightarrow> n | _ \<Rightarrow> NaN); b = to_number bytes in
        if f = NaN \<or> b \<in> {NaN, PInf, NInf} then ''-''
        else js_toFixed (case precision of None \<Rightarrow> 1 | Some p \<Rightarrow> p) (js_div b (unit_scale unit)))"

text \<open>The number input: what is typed becomes a string of bytes, what is stored is shown in the unit.\<close>

definition parser :: "string \<Rightarrow> jsval \<Rightarrow> string" where
  "parser unit v = js_to_string (js_mul (to_number v) (unit_scale unit))"

definition formatter :: "string \<Rightarrow> jsval \<Rightarrow> jsnum" where
  "formatter unit v = js_div (to_number v) (unit_scale unit)"

definition cspfilter :: "string option \<Rightarrow> string option" where
  "cspfilter input = (case input of None \<Rightarrow> Some '''' | Some s \<Rightarrow> js_nth (js_split s '':'') 1)"

section \<open>Percentages\<close>

lemma parseInt_dec: "n \<le> 2 ^ 53 \<Longrightarrow> js_parseInt (nat_to_base 10 n) = Fin (of_nat n)"
  using nat_to_base_10[of n] by (simp add: js_parseInt_digits js_rnd_nat)

lemma Number_dec: "n \<le> 2 ^ 53 \<Longrightarrow> js_Number (nat_to_base 10 n) = Fin (of_nat n)"
  using nat_to_base_10[of n] by (simp add: js_Number_digits js_rnd_nat)

lemma percent_value:
  assumes "0 < c" "c \<le> 2 ^ 53" "0 < q" "q \<le> 2 ^ 53"
  shows "calculatePercentConsumed (JStr (nat_to_base 10 c)) (JStr (nat_to_base 10 q))
    = js_mul (js_rnd (of_nat c / of_nat q)) (Fin 100)"
  using assms by (simp add: calculatePercentConsumed_def parseInt_dec Let_def)

lemma js_rnd_big: "js_rnd (2 ^ 53) = Fin (2 ^ 53)" "js_rnd (2 ^ 53 * 100) = Fin (2 ^ 53 * 100)"
  using js_rnd_dyadic[of 1 53] js_rnd_dyadic[of 100 53] by (simp_all add: power_int_def mult.commute)

lemma percent_high:
  assumes "0 < c" "c \<le> 2 ^ 53" "0 < q" "q \<le> 2 ^ 53" "q \<le> c"
  obtains p where "calculatePercentConsumed (JStr (nat_to_base 10 c)) (JStr (nat_to_base 10 q)) = Fin p" "100 \<le> p"
proof -
  let ?x = "of_nat c / of_nat q :: rat"
  have "1 \<le> (of_nat q :: rat)" using assms(3) by simp
  then have "?x \<le> of_nat c" using divide_left_mono[of 1 "of_nat q" "of_nat c :: rat"] by simp
  moreover have "(of_nat c :: rat) \<le> 2 ^ 53" using assms(2) by (metis of_nat_le_iff of_nat_numeral of_nat_power)
  ultimately have x: "1 \<le> ?x" "?x \<le> 2 ^ 53" using assms by (auto simp: le_divide_eq)
  obtain z where z: "js_rnd ?x = Fin z" "1 \<le> z" "z \<le> 2 ^ 53"
    using js_rnd_between[OF js_rnd_0_1(2) js_rnd_big(1) x] by auto
  have "js_rnd 100 = Fin 100" by simp
  then obtain w where "js_rnd (z * 100) = Fin w" "100 \<le> w"
    using js_rnd_between[OF _ js_rnd_big(2), of 100 100 "z * 100"] z by auto
  then show thesis using percent_value[OF assms(1-4)] z by (intro that[of w]) simp_all
qed

lemma percent_low:
  assumes "0 < c" "c \<le> 2 ^ 53" "0 < q" "q \<le> 2 ^ 53" "c \<le> q"
  obtains p where "calculatePercentConsumed (JStr (nat_to_base 10 c)) (JStr (nat_to_base 10 q)) = Fin p" "0 \<le> p" "p \<le> 100"
proof -
  let ?x = "of_nat c / of_nat q :: rat"
  have x: "0 \<le> ?x" "?x \<le> 1" using assms by (auto simp: divide_le_eq)
  obtain z where z: "js_rnd ?x = Fin z" "0 \<le> z" "z \<le> 1"
    using js_rnd_between[OF js_rnd_0_1 x] by auto
  have "js_rnd 100 = Fin 100" by simp
  then obtain w where "js_rnd (z * 100) = Fin w" "0 \<le> w" "w \<le> 100"
    using js_rnd_between[OF js_rnd_0_1(1), of 100 100 "z * 100"] z by auto
  then show thesis using percent_value[OF assms(1-4)] z by (intro that[of w]) simp_all
qed

section \<open>Units\<close>

lemma unit_scale_known: "unit \<in> set units \<Longrightarrow> \<exists>k \<le> 5. unit_scale unit = Fin (1024 ^ k)"
  by (auto simp: units_def unit_scale_def js_index_of_def power_int_def intro: exI[of _ 0] exI[of _ 1] exI[of _ 2]
      exI[of _ 3] exI[of _ 4] exI[of _ 5])

lemma unit_roundtrip:
  assumes "unit \<in> set units" and "unit_scale unit = Fin (of_nat s)" and "v * s \<le> 2 ^ 53" and "0 < s"
  shows "formatter unit (JStr (parser unit (JNum (Fin (of_nat v))))) = Fin (of_nat v)"
proof -
  have v: "v \<le> 2 ^ 53" using assms(3,4) by (metis le_trans mult_le_mono2 mult.right_neutral Suc_leI One_nat_def)
  have "js_mul (Fin (of_nat v)) (unit_scale unit) = js_rnd (of_nat (v * s))" by (simp add: assms(2))
  also have "\<dots> = Fin (of_nat (v * s))" by (rule js_rnd_nat[OF assms(3)])
  finally have "js_Number (parser unit (JNum (Fin (of_nat v)))) = Fin (of_nat (v * s))"
    unfolding parser_def to_number.simps using js_Number_to_string[OF assms(3)] by (simp only:)
  then show ?thesis using assms(4) v js_rnd_nat[OF v] by (simp add: formatter_def assms(2))
qed

lemma cspfilter_name: "CHR '':'' \<notin> set name \<Longrightarrow> cspfilter (Some (''prov:'' @ name)) = Some name"
  using js_split_cons[of "CHR '':''" "''prov''" name] js_split_free[of "CHR '':''" name]
  by (simp add: cspfilter_def js_nth_def)

section \<open>The rise indicator\<close>

definition figures :: "string \<Rightarrow> string \<Rightarrow> string \<Rightarrow> jsval" where
  "figures a v d = JObj [(''audio'', JStr a), (''video'', JStr v), (''data'', JStr d)]"

definition row_field :: "dashboard \<Rightarrow> nat \<Rightarrow> string \<Rightarrow> jsval option" where
  "row_field dc i f = js_get (provs dc ! i) f"

lemma extend_obj: "extend (JObj al) fs = Some (JObj (foldl (\<lambda>a fv. AList.update (fst fv) (snd fv) a) al fs))"
  unfolding extend_def by (induction fs arbitrary: al) auto

lemma get_extended: "js_get (JObj (foldl (\<lambda>a fv. AList.update (fst fv) (snd fv) a) al fs)) f
  = Some (case foldl (\<lambda>m fv. m(fst fv \<mapsto> snd fv)) (map_of al) fs f of None \<Rightarrow> JUndef | Some v \<Rightarrow> v)"
  by (simp add: map_of_foldl_update)

lemma load_step:
  assumes "i < length (provs dc)" and "provs dc ! i = JObj al"
  obtains al' dc' where "getCSPConso_cb k i (figures a v d) dc = Some dc'" "length (provs dc') = length (provs dc)"
    "provs dc' ! i = JObj al'" "\<And>x. old_figures (JObj al) = Some x \<Longrightarrow> map_of (oldcons dc') k = Some x"
  using assms
  by (auto simp: getCSPConso_cb_def js_nth_def figures_def old_figures_def consumed_fields_def percent_fields_def
      extend_obj simp del: js_put.simps)

lemma reload_step:
  assumes "i < length (provs dc)" and "provs dc ! i = JObj al" and "map_of (oldcons dc) k = Some (JObj ol)"
  obtains al' ol' dc' where "reloadCSPConso_cb k i (figures a v d) dc = Some dc'" "length (provs dc') = length (provs dc)"
    "provs dc' ! i = JObj al'" "map_of (oldcons dc') k = Some (JObj ol')" "map_of ol' ''data'' = Some (JStr d)"
    "row_field dc' i ''datahasrisen'' = Some (has_risen (JStr d) (case map_of ol ''data'' of None \<Rightarrow> JUndef | Some x \<Rightarrow> x))"
proof -
  let ?G = "\<lambda>fs. foldl (\<lambda>a fv. AList.update (fst fv) (snd fv) a) al fs"
  let ?g = "\<lambda>f. case map_of ol f of None \<Rightarrow> JUndef | Some x \<Rightarrow> x"
  obtain rs ps where rs: "rise_fields (figures a v d) (JObj ol) = Some rs"
     "percent_fields (figures a v d) (JObj al) = Some ps"
    by (simp add: rise_fields_def percent_fields_def figures_def)
  let ?fs = "[(''audioconsumed'', JNum (js_parseInt a)), (''videoconsumed'', JNum (js_parseInt v)),
      (''dataconsumed'', JNum (js_parseInt d))] @ rs @ ps"
  let ?ol = "AList.update ''data'' (JStr d) (AList.update ''video'' (JStr v) (AList.update ''audio'' (JStr a) ol))"
  have r: "reloadCSPConso_cb k i (figures a v d) dc = Some (dc\<lparr>provs := (provs dc)[i := JObj (?G ?fs)],
      oldcons := AList.update k (JObj ?ol) (oldcons dc)\<rparr>)"
    using assms rs by (simp add: reloadCSPConso_cb_def js_nth_def consumed_fields_def new_old_def extend_obj figures_def)
  have "js_get (JObj (?G ?fs)) ''datahasrisen'' = Some (has_risen (JStr d) (?g ''data''))"
  proof -
    have "\<exists>x y. rs = [(''audiohasrisen'', x), (''videohasrisen'', y), (''datahasrisen'', has_risen (JStr d) (?g ''data''))]"
      using rs(1)[symmetric] by (simp add: rise_fields_def figures_def)
    moreover have "\<exists>x y z. ps = [(''audiopercent'', x), (''videopercent'', y), (''datapercent'', z)]"
      using rs(2)[symmetric] by (simp add: percent_fields_def figures_def)
    ultimately show ?thesis unfolding get_extended by auto
  qed
  then show thesis using assms(1) by (intro that[OF r, of "?G ?fs" "?ol"]) (simp_all add: row_field_def)
qed


section \<open>Properties of the dashboard\<close>

text \<open>
  The percentage agrees with the quota rule: for positive figures up to \<open>2^53\<close> it is at least 100
  (shown in red) when the consumption has reached the quota, and at most 100 when it has not passed
  it, whatever the rounding of the division.
\<close>

theorem percent_sound:
  assumes "0 < c" "c \<le> 2 ^ 53" "0 < q" "q \<le> 2 ^ 53"
  shows "\<exists>p. calculatePercentConsumed (JStr (nat_to_base 10 c)) (JStr (nat_to_base 10 q)) = Fin p
    \<and> (q \<le> c \<longrightarrow> 100 \<le> p) \<and> (c \<le> q \<longrightarrow> 0 \<le> p \<and> p \<le> 100)"
proof (cases "q \<le> c")
  case True
  then show ?thesis
    using percent_high[OF assms] percent_low[OF assms] by (metis jsnum.inject)
next
  case False
  then show ?thesis using percent_low[OF assms] by (metis nat_le_linear)
qed

theorem percent_sound_witness:
  "\<exists>p. calculatePercentConsumed (JStr (nat_to_base 10 3)) (JStr (nat_to_base 10 2)) = Fin p \<and> 100 \<le> p"
  using percent_sound[of 3 2] by auto

text \<open>
  The rise indicator, on any row: the first reload after the page has loaded never shows a
  rise, however much the consumption grew; from the second reload on it is set exactly when the
  consumption is greater than at the reload before.
\<close>

theorem rise_indicator:
  assumes "i < length (provs dc)" and "provs dc ! i = JObj al" and "map_of al ''dataconsumed'' = None"
  shows "\<exists>dc1 dc2 dc3. getCSPConso_cb k i (figures a0 v0 d0) dc = Some dc1
    \<and> reloadCSPConso_cb k i (figures a1 v1 d1) dc1 = Some dc2
    \<and> reloadCSPConso_cb k i (figures a2 v2 d2) dc2 = Some dc3
    \<and> row_field dc2 i ''datahasrisen'' = Some (JBool False)
    \<and> row_field dc3 i ''datahasrisen'' = Some (JBool (js_gt (js_parseInt d2) (js_Number d1)))"
proof -
  obtain ol where ol: "old_figures (JObj al) = Some (JObj ol)" "map_of ol ''data'' = Some JUndef"
    using assms(3) by (simp add: old_figures_def)
  obtain al1 dc1 where 1: "getCSPConso_cb k i (figures a0 v0 d0) dc = Some dc1" "length (provs dc1) = length (provs dc)"
    "provs dc1 ! i = JObj al1" "map_of (oldcons dc1) k = Some (JObj ol)"
    using load_step[OF assms(1,2)] ol(1) by metis
  obtain al2 ol2 dc2 where 2: "reloadCSPConso_cb k i (figures a1 v1 d1) dc1 = Some dc2" "length (provs dc2) = length (provs dc)"
    "provs dc2 ! i = JObj al2" "map_of (oldcons dc2) k = Some (JObj ol2)" "map_of ol2 ''data'' = Some (JStr d1)"
    "row_field dc2 i ''datahasrisen'' = Some (has_risen (JStr d1) JUndef)"
    using reload_step[of i dc1 al1 k ol a1 v1 d1 thesis] 1 assms(1) ol(2) by auto
  obtain dc3 where 3: "reloadCSPConso_cb k i (figures a2 v2 d2) dc2 = Some dc3"
    "row_field dc3 i ''datahasrisen'' = Some (has_risen (JStr d2) (JStr d1))"
    using reload_step[of i dc2 al2 k ol2 a2 v2 d2 thesis] 2 assms(1) by auto
  have "has_risen (JStr d1) JUndef = JBool False" by (cases "js_parseInt d1") (simp_all add: has_risen_def js_gt_def)
  then show ?thesis using 1 2 3 by (auto simp: has_risen_def)
qed

definition demo_row :: jsval where
  "demo_row = JObj [(''csp'', JStr ''prov:beta''), (''audioQuota'', JStr ''NaN''), (''videoQuota'', JStr ''0''),
     (''dataQuota'', JStr ''1073741824'')]"

theorem rise_indicator_witness:
  "\<exists>dc1 dc2. getCSPConso_cb ''prov:beta'' 0 (figures ''0'' ''0'' ''10'') (mainController\<lparr>provs := [demo_row]\<rparr>) = Some dc1
    \<and> reloadCSPConso_cb ''prov:beta'' 0 (figures ''0'' ''0'' ''99'') dc1 = Some dc2
    \<and> row_field dc2 0 ''datahasrisen'' = Some (JBool False)"
  using rise_indicator[of 0 "mainController\<lparr>provs := [demo_row]\<rparr>"
      "[(''csp'', JStr ''prov:beta''), (''audioQuota'', JStr ''NaN''), (''videoQuota'', JStr ''0''), (''dataQuota'', JStr ''1073741824'')]"
      "''prov:beta''" "''0''" "''0''" "''10''" "''0''" "''0''" "''99''" "''0''" "''0''" "''120''"]
  by (simp add: demo_row_def) blast

definition sent_quota :: "string \<Rightarrow> string" where
  "sent_quota q = (if q = ''NaN'' then ''0'' else q)"

text \<open>
  C37. Editing a provider in the dashboard: the request the page sends makes the broker set exactly
  the three quota fields of that provider to the submitted values, an audio or video quota of
  \<open>NaN\<close> being sent as 0, and answer 200.
\<close>

theorem dashboard_edit:
  assumes "redis_server exec view" and "static = (\<lambda>_. None)"
    and "dbs (view d) 2 k = Some (Hash h)"
    and "row = JObj al" and "map_of al ''csp'' = Some (JStr k)" and "map_of al ''audioQuota'' = Some (JStr qa)"
    and "map_of al ''videoQuota'' = Some (JStr qv)" and "map_of al ''dataQuota'' = Some (JStr qd)"
  shows "\<exists>row' req. submitChanges row = Some (row', req)
    \<and> dbs (view (fst (serve_action (app static e req) exec d))) = (dbs (view d))(2 := (dbs (view d) 2)
      (k \<mapsto> Hash (h(''audioQuota'' \<mapsto> sent_quota qa, ''videoQuota'' \<mapsto> sent_quota qv, ''dataQuota'' \<mapsto> qd))))
    \<and> map_option status (snd (serve_action (app static e req) exec d)) = Some 200"
proof -
  define req where "req = page_get GET ''/changeQuotas''
    [(''cspKey'', k), (''audioQuota'', sent_quota qa), (''videoQuota'', sent_quota qv), (''dataQuota'', qd)]"
  have "\<exists>row'. submitChanges row = Some (row', req)"
    using assms(4-8) by (simp add: submitChanges_def zero_if_NaN_def params_def val_str_def req_def sent_quota_def)
  then obtain row' where s: "submitChanges row = Some (row', req)" ..
  have "at_path req ''/changeQuotas''" by (rule at_path_self) (simp_all add: req_def page_get_def)
  then have a: "app static e req = add_cors (get_changeQuotas req)"
    by (simp add: app_def assms(2) routes_def path_simps) (simp add: req_def page_get_def)
  have c: "get_changeQuotas req = Await (updateCSPQuotas k (sent_quota qa) (sent_quota qv) qd) ok_response"
    by (simp add: get_changeQuotas_def req_def page_get_def opt_str_def)
  show ?thesis using redis_server.updateCSPQuotas_sets[OF assms(1,3)]
    by (intro exI[of _ row'] exI[of _ req]) (simp add: s a c Let_def ok_response_def with_cors_def)
qed

theorem dashboard_edit_witness:
  "\<exists>row' req. submitChanges demo_row = Some (row', req)
    \<and> map_option status (snd (serve_action (app (\<lambda>_. None) demo_env req) mem_exec demo_mem)) = Some 200"
proof -
  obtain h where "dbs (mem_view demo_mem) 2 ''prov:beta'' = Some (Hash h)" by (simp add: demo_dbs demo_keys_def)
  from dashboard_edit[OF mem.redis_server_axioms refl this demo_row_def, of "''NaN''" "''0''" "''1073741824''" demo_env]
  show ?thesis by auto
qed

text \<open>
  The quota input: a whole number typed in any unit is converted to a string of bytes that is
  shown again as the same number, as long as the bytes stay below \<open>2^53\<close>.
\<close>

theorem quota_input_roundtrip:
  assumes "unit_scale unit = Fin (of_nat s)" and "v * s \<le> 2 ^ 53" and "0 < s" and "unit \<in> set units"
  shows "formatter unit (JStr (parser unit (JNum (Fin (of_nat v))))) = Fin (of_nat v)"
  using unit_roundtrip[OF assms(4,1,2,3)] .

theorem quota_input_roundtrip_witness: "formatter ''MB'' (JStr (parser ''MB'' (JNum (Fin 7)))) = Fin 7"
  using quota_input_roundtrip[of "''MB''" "1024 ^ 2" 7]
  by (simp add: unit_scale_def units_def js_index_of_def power_int_def)

end
