(* ===== verification/Dashboard_Load.thy ===== *)
theory Dashboard_Load
  imports Dashboard "HOL-Library.Multiset"
begin

text \<open>
  The dashboard against the broker: loading the page asks for the list of providers and then for the
  consumption of each row, and every callback runs on the response of \<open>Broker_Routes\<close>.

  The query parser of the server is the argument \<open>pq\<close>.  What is used of it is \<open>reads_plain\<close>: one
  parameter without special characters reads back as it was written.
\<close>

section \<open>Loading the page\<close>

text \<open>The success callback of a request gets the parsed body of a response in the 200s.\<close>

definition success_data :: "response option \<Rightarrow> jsval option" where
  "success_data r = (case r of None \<Rightarrow> None
     | Some resp \<Rightarrow> if 200 \<le> status resp \<and> status resp < 300
         then (case rbody resp of Json v \<Rightarrow> Some v | Text v \<Rightarrow> Some v | _ \<Rightarrow> None) else None)"

definition list_request :: request where
  "list_request = page_get GET ''/getAllCspInfo'' []"

text \<open>One consumption request and its callback; a callback that throws changes nothing.\<close>

definition load_row ::
  "(string \<Rightarrow> string \<rightharpoonup> string) \<Rightarrow> (request \<Rightarrow> response option) \<Rightarrow> env \<Rightarrow> ('d \<Rightarrow> cmd \<Rightarrow> 'd \<times> reply)
    \<Rightarrow> nat \<times> string \<Rightarrow> 'd \<times> dashboard \<Rightarrow> 'd \<times> dashboard" where
  "load_row pq static e ex job s =
     (let (d, r) = serve_action (app static e (conso_request pq (snd job))) ex (fst s) in
      (d, case success_data r of None \<Rightarrow> snd s
          | Some res \<Rightarrow> (case getCSPConso_cb (snd job) (fst job) res (snd s) of None \<Rightarrow> snd s | Some dc \<Rightarrow> dc)))"

text \<open>The consumption requests are sent together; \<open>arrange\<close> is the order in which they are answered.\<close>

definition dashboard_open ::
  "((nat \<times> string) list \<Rightarrow> (nat \<times> string) list) \<Rightarrow> (string \<Rightarrow> string \<rightharpoonup> string) \<Rightarrow> (request \<Rightarrow> response option) \<Rightarrow> env
    \<Rightarrow> ('d \<Rightarrow> cmd \<Rightarrow> 'd \<times> reply) \<Rightarrow> 'd \<Rightarrow> 'd \<times> dashboard" where
  "dashboard_open arrange pq static e ex d =
     (let (d1, r) = serve_action (app static e list_request) ex d in
      case success_data r of
        Some (JArr data) \<Rightarrow>
          (let (dc, jobs) = load_all data mainController in fold (load_row pq static e ex) (arrange jobs) (d1, dc))
      | _ \<Rightarrow> (d1, mainController))"

section \<open>Query parameters\<close>

definition query_char :: "char \<Rightarrow> bool" where
  "query_char c = (c \<in> set ''abcdefghijklmnopqrstuvwxyzABCDEFGHIJKLMNOPQRSTUVWXYZ0123456789-_.~:'')"

definition reads_plain :: "(string \<Rightarrow> string \<rightharpoonup> string) \<Rightarrow> bool" where
  "reads_plain pq = (\<forall>k v. list_all query_char k \<and> list_all query_char v \<longrightarrow> pq (k @ ''='' @ v) = [k \<mapsto> v])"

lemma not_plain: "\<not> query_char CHR ''#''" "\<not> query_char CHR ''=''" "\<not> query_char CHR ''&''"
  by (simp_all add: query_char_def)

lemma plain_free: "list_all query_char s \<Longrightarrow> \<not> query_char c \<Longrightarrow> c \<notin> set s"
  by (auto simp: list_all_iff)

lemma takeWhile_free: "c \<notin> set s \<Longrightarrow> takeWhile (\<lambda>x. x \<noteq> c) (s @ xs) = s @ takeWhile (\<lambda>x. x \<noteq> c) xs"
  by (subst takeWhile_append2) auto

lemma conso_request_plain:
  assumes "reads_plain pq" and "list_all query_char k"
  shows "query (conso_request pq k) ''cspkey'' = Some k"
proof -
  have p: "list_all query_char ''cspkey''" by (simp add: query_char_def)
  have "CHR ''#'' \<notin> set (''cspkey='' @ k)" using plain_free[OF assms(2) not_plain(1)] by simp
  from takeWhile_free[OF this, of "[]"]
  have w: "takeWhile (\<lambda>c. c \<noteq> CHR ''#'') (''cspkey='' @ k) = ''cspkey'' @ ''='' @ k" by simp
  have q: "pq (''cspkey'' @ ''='' @ k) = [''cspkey'' \<mapsto> k]"
    using assms p unfolding reads_plain_def by blast
  show ?thesis by (simp only: conso_request_def request.select_convs w q fun_upd_same)
qed

section \<open>One row\<close>

text \<open>A stored field as the page reads it.\<close>

definition stored :: "rview \<Rightarrow> string \<Rightarrow> string \<Rightarrow> jsval" where
  "stored w k f = (case dbs w 2 k of Some (Hash h) \<Rightarrow> (case h f of Some s \<Rightarrow> JStr s | None \<Rightarrow> JUndef) | _ \<Rightarrow> JUndef)"

definition loaded_row :: "rview \<Rightarrow> string \<Rightarrow> jsval \<Rightarrow> bool" where
  "loaded_row w k row =
     (js_get row ''csp'' = Some (JStr k)
      \<and> js_get row ''dataQuota'' = Some (stored w k ''dataQuota'')
      \<and> js_get row ''dataconsumed'' = Some (JNum (val_parseInt (stored w (k @ '':conso'') ''data'')))
      \<and> js_get row ''datapercent'' = Some (JNum (calculatePercentConsumed (stored w (k @ '':conso'') ''data'') (stored w k ''dataQuota'')))
      \<and> js_get row ''datahasrisen'' = Some (JBool False))"

lemma callback_row:
  assumes "i < length (provs dc)" and "provs dc ! i = JObj al" and "map_of al ''csp'' = Some (JStr k)"
    and "js_get (JObj al) ''dataQuota'' = Some (stored w k ''dataQuota'')"
    and "js_get (JObj al2) ''data'' = Some (stored w (k @ '':conso'') ''data'')"
  obtains dc' row where "getCSPConso_cb k i (JObj al2) dc = Some dc'" "provs dc' = (provs dc)[i := row]" "loaded_row w k row"
proof -
  obtain old cs ps where o: "old_figures (JObj al) = Some old" "consumed_fields (JObj al2) = Some cs"
      "percent_fields (JObj al2) (JObj al) = Some ps"
    by (simp add: old_figures_def consumed_fields_def percent_fields_def)
  let ?row = "JObj (foldl (\<lambda>a fv. AList.update (fst fv) (snd fv) a) al (cs @ no_rise @ ps))"
  have "loaded_row w k ?row" unfolding loaded_row_def get_extended
    using o(2,3)[symmetric] assms(3-5)
    by (simp add: consumed_fields_def percent_fields_def no_rise_def)
  then show thesis using assms(1,2) o
    by (intro that[of "dc\<lparr>oldcons := AList.update k old (oldcons dc), provs := (provs dc)[i := ?row]\<rparr>" ?row])
      (simp_all add: getCSPConso_cb_def js_nth_def extend_obj)
qed


lemma app_conso_request:
  assumes "static (conso_request pq k) = None" and "query (conso_request pq k) ''cspkey'' = Some k"
  shows "app static e (conso_request pq k) = Await (getCSPConso k) (map_option with_cors \<circ> json_response)"
proof -
  have "at_path (conso_request pq k) ''/getCspConso''"
    unfolding at_path_def conso_request_def by code_simp
  then have "routes e (conso_request pq k) = get_getCspConso (conso_request pq k)"
    by (simp add: routes_def path_simps) (simp add: conso_request_def)
  then show ?thesis using assms by (simp add: app_def get_getCspConso_def opt_str_def)
qed

lemma app_list_request:
  assumes "static list_request = None"
  shows "app static e list_request = Await getAllCspInfo (map_option with_cors \<circ> all_response)"
proof -
  have "at_path list_request ''/getAllCspInfo''" by (rule at_path_self) (simp_all add: list_request_def page_get_def)
  then have "routes e list_request = get_getAllCspInfo list_request"
    by (simp add: routes_def path_simps) (simp add: list_request_def page_get_def)
  then show ?thesis using assms by (simp add: app_def get_getAllCspInfo_def)
qed

text \<open>What a row needs to be loaded: its key reads back, and both records are hashes.\<close>

definition loadable :: "(string \<Rightarrow> string \<rightharpoonup> string) \<Rightarrow> rview \<Rightarrow> string \<Rightarrow> jsval \<Rightarrow> bool" where
  "loadable pq w k row = (query (conso_request pq k) ''cspkey'' = Some k
     \<and> (\<exists>al hc. row = JObj al \<and> map_of al ''csp'' = Some (JStr k)
        \<and> js_get row ''dataQuota'' = Some (stored w k ''dataQuota'') \<and> dbs w 2 (k @ '':conso'') = Some (Hash hc)))"

context redis_server
begin

lemma getAllCspInfo_dbs: "dbs (view (fst (run getAllCspInfo exec d))) = dbs (view d)"
proof -
  have "dbs (view (fst (exec_all exec (map Hgetall ks) d))) = dbs (view d)" for ks d
    by (induction ks arbitrary: d) (simp_all add: effect Let_def)
  then show ?thesis by (rule_tac getAllCspInfo_reply[of d]) (simp add: Let_def effect)
qed

lemma load_row_shows:
  assumes "static = (\<lambda>_. None)" and "i < length (provs dc)" and "loadable pq (view d) k (provs dc ! i)"
  obtains d' dc' row where "load_row pq static e exec (i, k) (d, dc) = (d', dc')" "dbs (view d') = dbs (view d)"
    "provs dc' = (provs dc)[i := row]" "loaded_row (view d) k row"
proof -
  obtain al hc where al: "provs dc ! i = JObj al" "map_of al ''csp'' = Some (JStr k)"
    "js_get (JObj al) ''dataQuota'' = Some (stored (view d) k ''dataQuota'')" "dbs (view d) 2 (k @ '':conso'') = Some (Hash hc)"
    using assms(3) by (auto simp: loadable_def)
  obtain al2 where al2: "snd (run (getCSPConso k) exec d) = Fulfilled (str_obj al2)" "map_of al2 = hc"
    unfolding getCSPConso_infos by (rule getCSPInfos_hash[OF al(4)])
  have "js_get (str_obj al2) ''data'' = Some (stored (view d) (k @ '':conso'') ''data'')"
    using al(4) al2(2) by (simp add: stored_def split: option.split)
  then obtain dc' row where r: "getCSPConso_cb k i (str_obj al2) dc = Some dc'" "provs dc' = (provs dc)[i := row]"
      "loaded_row (view d) k row"
    using callback_row[OF assms(2) al(1-3)] unfolding str_obj_def by metis
  have q: "app static e (conso_request pq k) = Await (getCSPConso k) (map_option with_cors \<circ> json_response)"
    using assms by (intro app_conso_request) (simp_all add: loadable_def)
  show thesis
    by (rule that[of "fst (run (getCSPConso k) exec d)", OF _ _ r(2,3)])
      (use r(1) al2(1) in \<open>simp_all add: load_row_def q Let_def json_response_def with_cors_def success_data_def\<close>)
qed

text \<open>The rows are loaded in any order, and loading one leaves the others alone.\<close>

lemma load_rows:
  assumes "static = (\<lambda>_. None)" and "dbs (view d) = dbs w" and "distinct (map fst jobs)"
    and "\<And>i k. (i, k) \<in> set jobs \<Longrightarrow> i < length (provs dc) \<and> loadable pq w k (provs dc ! i)"
  shows "let r = fold (load_row pq static e exec) jobs (d, dc); dc' = snd r in
    dbs (view (fst r)) = dbs w \<and> length (provs dc') = length (provs dc) \<and> (\<forall>i. i \<notin> fst ` set jobs \<longrightarrow> provs dc' ! i = provs dc ! i)
    \<and> (\<forall>i k. (i, k) \<in> set jobs \<longrightarrow> loaded_row w k (provs dc' ! i))"
  using assms
proof (induction jobs arbitrary: d dc)
  case (Cons job jobs)
  obtain n k where job: "job = (n, k)" by force
  have same: "loadable pq (view d) = loadable pq w" "loaded_row (view d) = loaded_row w"
    using Cons.prems(2) by (simp_all add: fun_eq_iff loadable_def loaded_row_def stored_def)
  have n: "n < length (provs dc)" "loadable pq (view d) k (provs dc ! n)" using Cons.prems(4)[of n k] job same by simp_all
  from load_row_shows[OF Cons.prems(1) n] obtain d1 dc1 row where
    1: "load_row pq static e exec (n, k) (d, dc) = (d1, dc1)" "dbs (view d1) = dbs (view d)"
      "provs dc1 = (provs dc)[n := row]" "loaded_row (view d) k row" by blast
  have fresh: "n \<notin> fst ` set jobs" using Cons.prems(3) job by simp
  let ?r = "fold (load_row pq static e exec) jobs (d1, dc1)"
  let ?dc = "snd ?r"
  have "i < length (provs dc1) \<and> loadable pq w k' (provs dc1 ! i)" if j: "(i, k') \<in> set jobs" for i k'
  proof -
    have "i \<noteq> n" using j fresh by force
    then show ?thesis using Cons.prems(4)[of i k'] j 1(3) by simp
  qed
  then have "dbs (view (fst ?r)) = dbs w \<and> length (provs ?dc) = length (provs dc1)
      \<and> (\<forall>i. i \<notin> fst ` set jobs \<longrightarrow> provs ?dc ! i = provs dc1 ! i) \<and> (\<forall>i k. (i, k) \<in> set jobs \<longrightarrow> loaded_row w k (provs ?dc ! i))"
    using Cons.IH[of d1 dc1] Cons.prems(1-3) 1(2) by (simp add: Let_def)
  moreover from this have "provs ?dc ! n = row" using fresh 1(3) n(1) by simp
  ultimately show ?case using 1(1,3,4) same(2) job by simp
qed simp

end

lemma row_jobs_infos:
  "length ks = length als \<Longrightarrow> row_jobs n (map2 info_of ks als) = enumerate n ks"
  by (induction ks als arbitrary: n rule: list_induct2) (simp_all add: info_of_def map_of_update)

context redis_server
begin

lemma dashboard_open_rows:
  assumes "static = (\<lambda>_. None)" and "reads_plain pq" and "provider_keys (view d) \<noteq> {}" and perm: "\<And>jobs. mset (arrange jobs) = mset jobs"
    and prov: "\<And>k. k \<in> provider_keys (view d) \<Longrightarrow> list_all query_char k
      \<and> (\<exists>h hc. dbs (view d) 2 k = Some (Hash h) \<and> dbs (view d) 2 (k @ '':conso'') = Some (Hash hc))"
  shows "\<exists>ks. distinct ks \<and> set ks = provider_keys (view d)
    \<and> list_all2 (loaded_row (view d)) ks (provs (snd (dashboard_open arrange pq static e exec d)))
    \<and> dbs (view (fst (dashboard_open arrange pq static e exec d))) = dbs (view d)"
proof -
  obtain ks als where ks: "distinct ks" "set ks = provider_keys (view d)" "length als = length ks"
    "\<forall>i < length ks. dbs (view d) 2 (ks ! i) = Some (Hash (map_of (als ! i)))"
    "snd (run getAllCspInfo exec d) = Fulfilled (JArr (map2 info_of ks als))"
    using getAllCspInfo_all[OF assms(3)] prov by blast
  let ?data = "map2 info_of ks als" and ?d1 = "fst (run getAllCspInfo exec d)"
  let ?dc = "mainController\<lparr>provs := ?data\<rparr>" and ?jobs = "arrange (enumerate 0 ks)"
  have l: "dashboard_open arrange pq static e exec d = fold (load_row pq static e exec) ?jobs (?d1, ?dc)"
    using ks(3,5) assms(1)
    by (simp add: dashboard_open_def app_list_request Let_def all_response_def with_cors_def success_data_def load_all_def row_jobs_infos)
  have jobs: "(i, k) \<in> set ?jobs \<longleftrightarrow> i < length ks \<and> k = ks ! i" for i k
    unfolding mset_eq_setD[OF perm] by (auto simp: in_set_enumerate_eq)
  have "mset (map fst ?jobs) = mset (map fst (enumerate 0 ks))" by (simp only: mset_map perm)
  then have d: "distinct (map fst ?jobs)" by (metis distinct_upt map_fst_enumerate mset_eq_imp_distinct_iff)
  have "i < length (provs ?dc) \<and> loadable pq (view d) k (provs ?dc ! i)" if j: "(i, k) \<in> set ?jobs" for i k
  proof -
    have i: "i < length ks" "k = ks ! i" "ks ! i \<in> provider_keys (view d)" using j jobs ks(2) nth_mem by blast+
    show ?thesis using prov[OF i(3)] conso_request_plain[OF assms(2)] i(1,2) ks(3,4)
      by (auto simp: loadable_def info_of_def map_of_update map_of_JStr stored_def split: option.split)
  qed
  from load_rows[OF assms(1) getAllCspInfo_dbs d this, of e] ks(1-3) show ?thesis unfolding l
    by (intro exI[of _ ks]) (simp add: Let_def list_all2_conv_all_nth jobs)
qed

end

section \<open>Properties of the loaded page\<close>

text \<open>
  C31. The dashboard shows what the broker has stored.  When the names of the providers need no escaping and
  both records of each are there, the loaded page has one row per provider, no provider twice, each with
  the stored quota, the stored consumption and the percentage of the two, in whatever order the
  consumption requests are answered; loading changes no record.
\<close>

theorem dashboard_load:
  assumes "redis_server exec view" and "static = (\<lambda>_. None)" and "reads_plain pq" and "provider_keys (view d) \<noteq> {}"
    and "\<And>jobs. mset (arrange jobs) = mset jobs"
    and "\<And>k. k \<in> provider_keys (view d) \<Longrightarrow> list_all query_char k
      \<and> (\<exists>h hc. dbs (view d) 2 k = Some (Hash h) \<and> dbs (view d) 2 (k @ '':conso'') = Some (Hash hc))"
  shows "\<exists>ks. distinct ks \<and> set ks = provider_keys (view d)
    \<and> list_all2 (loaded_row (view d)) ks (provs (snd (dashboard_open arrange pq static e exec d)))
    \<and> dbs (view (fst (dashboard_open arrange pq static e exec d))) = dbs (view d)"
  using assms by (rule redis_server.dashboard_open_rows)

text \<open>A query parser: the parameters are separated by \<open>&\<close>, the name ends at the first \<open>=\<close>.\<close>

definition demo_pq :: "string \<Rightarrow> string \<rightharpoonup> string" where
  "demo_pq s = map_of (map (\<lambda>p. (takeWhile (\<lambda>c. c \<noteq> CHR ''='') p, tl (dropWhile (\<lambda>c. c \<noteq> CHR ''='') p))) (js_split s ''&''))"

lemma demo_pq_plain: "reads_plain demo_pq"
proof -
  have "demo_pq (k @ ''='' @ v) = [k \<mapsto> v]" if kv: "list_all query_char k" "list_all query_char v" for k v
  proof -
    have "CHR ''&'' \<notin> set (k @ ''='' @ v)" using plain_free[OF _ not_plain(3)] kv by simp
    then have "js_split (k @ ''='' @ v) ''&'' = [k @ ''='' @ v]" by (rule js_split_free)
    moreover have "takeWhile (\<lambda>c. c \<noteq> CHR ''='') (k @ ''='' @ v) = k"
      using takeWhile_free[OF plain_free[OF kv(1) not_plain(2)], of "''='' @ v"] by simp
    moreover have "dropWhile (\<lambda>c. c \<noteq> CHR ''='') (k @ ''='' @ v) = ''='' @ v"
      using plain_free[OF kv(1) not_plain(2)] by (subst dropWhile_append2) auto
    ultimately show ?thesis by (simp add: demo_pq_def)
  qed
  then show ?thesis by (simp add: reads_plain_def)
qed

lemma demo_loadable:
  "list_all query_char ''prov:acme''" "list_all query_char ''prov:beta''"
  "\<exists>h. dbs (mem_view demo_mem) 2 ''prov:acme'' = Some (Hash h)" "\<exists>h. dbs (mem_view demo_mem) 2 ''prov:beta'' = Some (Hash h)"
  "\<exists>h. dbs (mem_view demo_mem) 2 (''prov:acme'' @ '':conso'') = Some (Hash h)"
  "\<exists>h. dbs (mem_view demo_mem) 2 (''prov:beta'' @ '':conso'') = Some (Hash h)"
  by (code_simp, code_simp, simp_all add: demo_dbs demo_keys_def)

theorem dashboard_load_witness:
  "\<exists>row. row \<in> set (provs (snd (dashboard_open rev demo_pq (\<lambda>_. None) demo_env mem_exec demo_mem)))
    \<and> js_get row ''csp'' = Some (JStr ''prov:beta'') \<and> js_get row ''dataconsumed'' = Some (JNum (js_parseInt ''10''))"
proof -
  have p: "list_all query_char k \<and> (\<exists>h hc. dbs (mem_view demo_mem) 2 k = Some (Hash h) \<and> dbs (mem_view demo_mem) 2 (k @ '':conso'') = Some (Hash hc))"
    if k: "k \<in> provider_keys (mem_view demo_mem)" for k
    using k demo_loadable unfolding demo_provider_keys by blast
  obtain ks where ks: "set ks = {''prov:acme'', ''prov:beta''}"
    "list_all2 (loaded_row (mem_view demo_mem)) ks (provs (snd (dashboard_open rev demo_pq (\<lambda>_. None) demo_env mem_exec demo_mem)))"
    using dashboard_load[OF mem.redis_server_axioms refl demo_pq_plain _ _ p, of rev demo_env] unfolding demo_provider_keys by auto
  obtain i where "i < length ks" "ks ! i = ''prov:beta''" using ks(1) by (metis in_set_conv_nth insertCI)
  then have "loaded_row (mem_view demo_mem) ''prov:beta'' (provs (snd (dashboard_open rev demo_pq (\<lambda>_. None) demo_env mem_exec demo_mem)) ! i)"
    "i < length (provs (snd (dashboard_open rev demo_pq (\<lambda>_. None) demo_env mem_exec demo_mem)))"
    using ks(2) by (auto simp: list_all2_conv_all_nth)
  then show ?thesis by (auto simp: loaded_row_def stored_def demo_dbs demo_keys_def intro!: exI nth_mem)
qed

text \<open>
  The key goes into the address unescaped: for every query parser, the page asks for the consumption of
  the provider whose name is the part before a \<open>#\<close>.
\<close>

theorem conso_request_fragment:
  assumes "CHR ''#'' \<notin> set k"
  shows "conso_request pq (k @ ''#'' @ x) = conso_request pq k"
proof -
  have "CHR ''#'' \<notin> set (''cspkey='' @ k)" using assms by simp
  from takeWhile_free[OF this, of "''#'' @ x"] takeWhile_free[OF this, of "[]"]
  show ?thesis by (simp only: conso_request_def append_assoc takeWhile.simps append_Nil2) simp
qed

theorem conso_request_fragment_witness:
  "query (conso_request demo_pq ''prov:a#b'') ''cspkey'' = Some ''prov:a''"
  using conso_request_fragment[of "''prov:a''" demo_pq "''b''"] conso_request_plain[OF demo_pq_plain, of "''prov:a''"]
  by (simp add: query_char_def)

end
