(* ===== verification/QoS_Agent.thy ===== *)
theory QoS_Agent
  imports JS_Number
begin

text \<open>
  The QoS agent, \<^verbatim>\<open>agent/src/agent/agent.js\<close> and \<^verbatim>\<open>agent/src/main.js\<close>: configuration, watchdog timers,
  registration at the broker, probing of TURN agents, the ping resource, identifiers and the log.

  The HTTP client and server, the clock and \<open>Math.random\<close> are outside the repository: requests and
  console lines are \<open>effect\<close> values, responses and times are arguments.  Timers are explicit, and
  \<open>agent_step\<close> is the event loop: one pending timer fires, or one response arrives.
\<close>

unbundle bit_operations_syntax

section \<open>JSON texts\<close>

text \<open>What \<open>JSON.parse\<close> accepts, for \<open>_validate\<close>: each function returns the rest of the text.\<close>

definition json_ws :: "string \<Rightarrow> string" where
  "json_ws s = dropWhile (\<lambda>c. (of_char c :: nat) \<in> {32, 9, 10, 13}) s"

fun json_str_tail :: "string \<Rightarrow> string option" where
  "json_str_tail [] = None"
| "json_str_tail (c # cs) =
     (if c = CHR 0x22 then Some cs
      else if c = CHR 0x5C then
        (case cs of [] \<Rightarrow> None
         | e # es \<Rightarrow>
             if e \<in> {CHR 0x22, CHR 0x5C, CHR ''/'', CHR ''b'', CHR ''f'', CHR ''n'', CHR ''r'', CHR ''t''} then json_str_tail es
             else if e = CHR ''u'' then
               (case es of h1 # h2 # h3 # h4 # r \<Rightarrow>
                    if list_all (is_digit 16) [h1, h2, h3, h4] then json_str_tail r else None
                | _ \<Rightarrow> None)
             else None)
      else if (of_char c :: nat) < 32 then None
      else json_str_tail cs)"

definition json_digits :: "string \<Rightarrow> string option" where
  "json_digits s = (if takeWhile (is_digit 10) s = [] then None else Some (dropWhile (is_digit 10) s))"

definition json_number :: "string \<Rightarrow> string option" where
  "json_number s0 =
     (let s = (case s0 of c # cs \<Rightarrow> if c = CHR ''-'' then cs else s0 | [] \<Rightarrow> []);
          int = (case s of c # cs \<Rightarrow> if c = CHR ''0'' then Some cs else json_digits s | [] \<Rightarrow> None)
      in Option.bind int (\<lambda>r.
         Option.bind (case r of c # cs \<Rightarrow> if c = CHR ''.'' then json_digits cs else Some r | [] \<Rightarrow> Some []) (\<lambda>r2.
           case r2 of c # cs \<Rightarrow> if c = CHR ''e'' \<or> c = CHR ''E'' then json_digits (snd (split_sign cs)) else Some r2
                    | [] \<Rightarrow> Some [])))"

definition json_word :: "string \<Rightarrow> string \<Rightarrow> string option" where
  "json_word w s = (if prefix w s then Some (drop (length w) s) else None)"

text \<open>A value after white space; the fuel bounds the nesting and the length of lists.\<close>

fun json_value :: "nat \<Rightarrow> string \<Rightarrow> string option"
  and json_elems :: "nat \<Rightarrow> string \<Rightarrow> string option"
  and json_members :: "nat \<Rightarrow> string \<Rightarrow> string option" where
  "json_value 0 s = None"
| "json_value (Suc n) s =
     (case json_ws s of [] \<Rightarrow> None
      | c # cs \<Rightarrow>
          if c = CHR 0x22 then json_str_tail cs
          else if c = CHR ''['' then
            (case json_ws cs of d # ds \<Rightarrow> if d = CHR '']'' then Some ds else json_elems n cs | [] \<Rightarrow> None)
          else if c = CHR ''{'' then
            (case json_ws cs of d # ds \<Rightarrow> if d = CHR ''}'' then Some ds else json_members n cs | [] \<Rightarrow> None)
          else if c = CHR ''t'' then json_word ''true'' (c # cs)
          else if c = CHR ''f'' then json_word ''false'' (c # cs)
          else if c = CHR ''n'' then json_word ''null'' (c # cs)
          else json_number (c # cs))"
| "json_elems 0 s = None"
| "json_elems (Suc n) s = Option.bind (json_value n s) (\<lambda>r.
     case json_ws r of d # ds \<Rightarrow> if d = CHR '']'' then Some ds
       else if d = CHR '','' then json_elems n ds else None | [] \<Rightarrow> None)"
| "json_members 0 s = None"
| "json_members (Suc n) s =
     (case json_ws s of c # cs \<Rightarrow> if c = CHR 0x22 then Option.bind (json_str_tail cs) (\<lambda>r.
          case json_ws r of e # es \<Rightarrow> if e = CHR '':'' then Option.bind (json_value n es) (\<lambda>r2.
              case json_ws r2 of d # ds \<Rightarrow> if d = CHR ''}'' then Some ds
                else if d = CHR '','' then json_members n ds else None | [] \<Rightarrow> None)
            else None | [] \<Rightarrow> None)
        else None | [] \<Rightarrow> None)"

definition json_ok :: "string \<Rightarrow> bool" where
  "json_ok s = (map_option json_ws (json_value (2 * length s + 2) s) = Some [])"

section \<open>Validation\<close>

text \<open>\<open>x == 200\<close>\<close>

definition loose_eq_num :: "jsval \<Rightarrow> jsnum \<Rightarrow> bool" where
  "loose_eq_num v n = (case v of JUndef \<Rightarrow> False | JNull \<Rightarrow> False | JObj _ \<Rightarrow> False
     | JArr vs \<Rightarrow> js_Number (to_string_val v) = n | _ \<Rightarrow> to_number v = n)"

text \<open>\<^const>\<open>None\<close> is the TypeError of a property access on \<open>null\<close>.\<close>

definition validate :: "string \<Rightarrow> jsval \<Rightarrow> bool option" where
  "validate what content =
     (if what = ''registerResponse'' then
        (if json_ok (to_string_val content)
         then map_option (\<lambda>v. loose_eq_num v (Fin 200)) (js_get content ''resultCode'')
         else Some False)
      else if what = ''isJSON'' then Some (json_ok (to_string_val content))
      else if what = ''isUndefined'' then Some (content = JUndef \<or> content = JNull)
      else Some True)"

section \<open>Identifiers and random numbers\<close>

definition uuid_template :: string where
  "uuid_template = ''xxxxxxxx-xxxx-4xxx-yxxx-xxxxxxxxxxxx''"

text \<open>\<open>r = (d + Math.random() * 16) % 16 | 0\<close>\<close>

definition uuid_draw :: "jsnum \<Rightarrow> rat \<Rightarrow> int" where
  "uuid_draw d rnd = (case js_add d (js_mul (Fin rnd) (Fin 16)) of
     Fin s \<Rightarrow> js_to_int32 (Fin (js_mod s 16)) | _ \<Rightarrow> 0)"

definition hex_digit :: "int \<Rightarrow> char" where
  "hex_digit n = digit_char (nat n)"

fun uuid_from :: "jsnum \<Rightarrow> (nat \<Rightarrow> rat) \<Rightarrow> nat \<Rightarrow> string \<Rightarrow> string" where
  "uuid_from d rnd i [] = []"
| "uuid_from d rnd i (c # cs) =
     (if c = CHR ''x'' \<or> c = CHR ''y'' then
        (let r = uuid_draw d (rnd i) in
         hex_digit (if c = CHR ''x'' then r else (r AND 3) OR 8)
           # uuid_from (js_floor (js_div d (Fin 16))) rnd (Suc i) cs)
      else c # uuid_from d rnd i cs)"

definition generateUUID :: "nat \<Rightarrow> (nat \<Rightarrow> rat) \<Rightarrow> string" where
  "generateUUID now rnd = uuid_from (Fin (of_nat now)) rnd 0 uuid_template"

definition randomInt :: "rat \<Rightarrow> jsnum \<Rightarrow> jsnum \<Rightarrow> jsnum" where
  "randomInt rnd low high = js_floor (js_add (js_mul (Fin rnd) (js_sub high low)) low)"

section \<open>State\<close>

text \<open>One entry of \<open>turnProbes\<close>.  \<open>meanProbes\<close> is an array after the first probe, a number later.\<close>

record probe =
  agentAddress :: string
  lastProbes :: "jsnum list"
  meanProbes :: jsval
  lastSeen :: int

datatype timer_action = ReRegister | RunProbing | StatusReport | RunWatchDogs

datatype timer = Once timer_action int | Every timer_action int

datatype effect = Console string | PostRegister string jsval | GetPing string | Listen string

record agent =
  applicationLogLevel :: nat
  turnUser :: string
  turnPass :: string
  ownId :: string
  servingAreaName :: string
  isAccessAgent :: bool
  brokerUrl :: string
  restPort :: string
  ownIp :: string
  TURNPort :: nat
  nodeTimeout :: int
  isRegisteredAtBroker :: bool
  registerTimeout :: int
  registerAttempts :: nat
  unsuccessfulRegisterTimeout :: int
  probingTimeout :: int
  maxProbes :: nat
  showStateTimeout :: int
  turnAgentList :: "string list"
  turnProbes :: "(string \<times> probe) list"

section \<open>Log\<close>

definition level_Debug :: nat where "level_Debug = 100"
definition level_Information :: nat where "level_Information = 200"
definition level_Warning :: nat where "level_Warning = 300"
definition level_Error :: nat where "level_Error = 400"
definition level_Fatal :: nat where "level_Fatal = 500"

definition log_line :: "nat \<Rightarrow> nat \<Rightarrow> string \<Rightarrow> string \<Rightarrow> effect list" where
  "log_line app lvl tag str = (if app \<le> lvl then [Console (tag @ str)] else [])"

definition log_msg :: "agent \<Rightarrow> nat \<Rightarrow> string \<Rightarrow> effect list" where
  "log_msg a lvl str0 =
     (let str = (if validate ''isJSON'' (JStr str0) = Some True then json_quote str0 else str0);
          app = applicationLogLevel a in
      if lvl = level_Debug then log_line app lvl ''[Debug] '' str
      else if lvl = level_Information then log_line app lvl ''[Information] '' str
      else if lvl = level_Warning then log_line app lvl ''[Warning] '' str
      else if lvl = level_Error then log_line app lvl ''[Error] '' str
      else if lvl = level_Fatal then log_line app lvl ''[Fatal] '' str
      else [Console (''[Debug] '' @ str)])"

section \<open>Construction and configuration\<close>

definition default_agents :: "string list" where
  "default_agents = [''127.0.0.1:20000'', ''127.0.0.1:20001'', ''127.0.0.1:20002'', ''127.0.0.1:20003'',
     ''127.0.0.1:20004'', ''127.0.0.1:20005'', ''127.0.0.1:20006'', ''127.0.0.1:20007'', ''127.0.0.1:20008'']"

text \<open>The three identifiers are given (\<open>generateUUID\<close> with its time and draws).\<close>

definition new_Agent :: "string \<Rightarrow> string \<Rightarrow> string \<Rightarrow> agent" where
  "new_Agent user pass own =
     \<lparr>applicationLogLevel = level_Information, turnUser = user, turnPass = pass, ownId = own,
      servingAreaName = ''XY'', isAccessAgent = True, brokerUrl = ''http://localhost:8667'',
      restPort = ''10000'', ownIp = '''', TURNPort = 3478, nodeTimeout = 100, isRegisteredAtBroker = True,
      registerTimeout = 1000 * 5000, registerAttempts = 0, unsuccessfulRegisterTimeout = 5 * 1000,
      probingTimeout = 5 * 1000, maxProbes = 10, showStateTimeout = 10 * 1000,
      turnAgentList = default_agents, turnProbes = []\<rparr>"

definition startREST :: "agent \<Rightarrow> effect list" where
  "startREST a =
     (if isAccessAgent a
      then log_msg a level_Debug ''Running as Access Agent Service, no REST Interface will be started''
      else log_msg a level_Debug ''Starting the REST Interface for TURN Agents'' @ [Listen (restPort a)]
        @ log_msg a level_Debug (''Running Agent at HTTP/REST Port: '' @ restPort a))"

text \<open>The command line arguments 2, 3 and 4: address, port, kind of agent.\<close>

definition initialize :: "string option \<Rightarrow> string option \<Rightarrow> string option \<Rightarrow> agent \<Rightarrow> agent \<times> effect list" where
  "initialize argv2 argv3 argv4 a0 =
     (let e1 = log_msg a0 level_Debug (''Using the following IP Address: '' @ opt_str argv2);
          a1 = (case argv2 of Some s \<Rightarrow> if s \<noteq> [] then a0\<lparr>ownIp := s\<rparr> else a0 | None \<Rightarrow> a0);
          e2 = log_msg a1 level_Debug (''Using the following port: '' @ opt_str argv3);
          a2 = (case argv3 of Some s \<Rightarrow> if s \<noteq> [] \<and> \<not> js_isNaN s then a1\<lparr>restPort := s\<rparr> else a1 | None \<Rightarrow> a1);
          e3 = log_msg a2 level_Debug (''Agent type: '' @ opt_str argv4);
          a3 = a2\<lparr>isAccessAgent := (argv4 = Some ''access'')\<rparr>
      in (a3, e1 @ e2 @ e3 @ startREST a3))"

section \<open>Registration at the broker\<close>

text \<open>The request; the object has no property \<open>servingArea\<close>.\<close>

definition register_url :: "agent \<Rightarrow> string" where
  "register_url a = brokerUrl a @ ''/turn-servers-management/register/''"

definition registerAtBroker :: "agent \<Rightarrow> effect list" where
  "registerAtBroker a = log_msg a level_Debug (''Registering at Broker '' @ register_url a)
     @ [PostRegister (register_url a)
          (JObj [(''agentAddress'', JStr (ownIp a @ '':'' @ restPort a)), (''servingArea'', JUndef),
                 (''action'', JStr ''register''), (''isAccessAgent'', JBool (isAccessAgent a))])]"

text \<open>The response callbacks are plain functions, whose \<open>this\<close> is undefined in a module: the first use
  of \<open>this\<close> throws, after the console line of the success callback.\<close>

definition on_register_response :: "agent \<Rightarrow> (jsval, jsval) promise \<Rightarrow> agent \<times> effect list" where
  "on_register_response a r = (a, case r of Fulfilled _ \<Rightarrow> [Console (''The level debug: '' @ nat_to_base 10 level_Debug)]
     | _ \<Rightarrow> [])"

section \<open>Probing\<close>

definition ping_url :: "agent \<Rightarrow> string \<Rightarrow> nat \<Rightarrow> string" where
  "ping_url a host now = ''http://'' @ host @ ''/performance/ping/'' @ ownId a @ ''/'' @ nat_to_base 10 now"

definition callRemoteAgent :: "agent \<Rightarrow> string \<Rightarrow> nat \<Rightarrow> effect list" where
  "callRemoteAgent a host now =
     log_msg a level_Debug ('' _callRemoteAgent: Calling the remote agent http://'' @ host @ ''/performance/ping/''
       @ servingAreaName a @ ''/'' @ nat_to_base 10 now) @ [GetPing (ping_url a host now)]"

definition runProbing :: "agent \<Rightarrow> nat \<Rightarrow> effect list" where
  "runProbing a now = concat (map (\<lambda>h. callRemoteAgent a h now) (turnAgentList a))"

text \<open>The ping resource of a TURN agent: status and body.\<close>

definition ping_handler :: "agent \<Rightarrow> string \<Rightarrow> string \<Rightarrow> nat \<times> jsval" where
  "ping_handler a requestingAgent reqTimestamp =
     (if \<not> js_isNaN reqTimestamp
      then (200, JObj [(''reqTimestamp'', JStr reqTimestamp), (''agentId'', JStr (ownId a)), (''pingpong'', JStr ''pong'')])
      else (400, JObj [(''error'', JStr ''Timestamp is not set.'')]))"

definition rtt :: "nat \<Rightarrow> jsval \<Rightarrow> jsnum" where
  "rtt now reqTimestamp = js_round (js_div (js_sub (Fin (of_nat now)) (js_parseInt (to_string_val reqTimestamp))) (Fin 1000))"

text \<open>The entry of an agent; a name every object inherits is found, without probes.\<close>

definition known_probes :: "agent \<Rightarrow> string \<Rightarrow> jsnum list option option" where
  "known_probes a agentId = (case map_of (turnProbes a) agentId of
     Some p \<Rightarrow> Some (Some (lastProbes p))
   | None \<Rightarrow> if agentId \<in> set object_members then Some None else None)"

definition push_probe :: "nat \<Rightarrow> jsnum list option \<Rightarrow> jsnum \<Rightarrow> jsnum list" where
  "push_probe mx ps calc = (case ps of None \<Rightarrow> [calc]
     | Some xs \<Rightarrow> (if mx < length xs then drop 1 xs else xs) @ [calc])"

definition mean_probes :: "jsnum list \<Rightarrow> jsnum" where
  "mean_probes xs = js_div (foldl js_add (Fin 0) xs) (Fin (of_nat (length xs)))"

definition storeProbe :: "agent \<Rightarrow> string \<Rightarrow> string \<Rightarrow> jsnum \<Rightarrow> int \<Rightarrow> agent" where
  "storeProbe a agentId host calc time =
     a\<lparr>turnProbes := AList.update agentId
         (case known_probes a agentId of
            None \<Rightarrow> \<lparr>agentAddress = host, lastProbes = [calc], meanProbes = JArr [JNum calc], lastSeen = time\<rparr>
          | Some old \<Rightarrow> (let xs = push_probe (maxProbes a) old calc in
              \<lparr>agentAddress = host, lastProbes = xs, meanProbes = JNum (js_parseInt_num (mean_probes xs)), lastSeen = time\<rparr>))
         (turnProbes a)\<rparr>"

definition on_ping_response :: "agent \<Rightarrow> string \<Rightarrow> jsval \<Rightarrow> nat \<Rightarrow> int \<Rightarrow> agent \<times> effect list" where
  "on_ping_response a host body now time =
     (case (js_get body ''reqTimestamp'', js_get body ''agentId'') of
        (Some ts, Some i) \<Rightarrow>
          (let calc = rtt now ts; agentId = to_string_val i in
           (storeProbe a agentId host calc time,
            log_msg a level_Debug ('' _callRemoteAgent ['' @ host @ '', '' @ agentId @ ''] Response received,  RTT: '' @ js_to_string calc @ ''ms'')
            @ log_msg a level_Debug ('' _storeProbe: storing the current probe '' @ agentId @ '', '' @ host @ '', '' @ js_to_string calc)))
      | _ \<Rightarrow> (a, []))"

section \<open>Status report\<close>

definition status_line :: "agent \<Rightarrow> int \<Rightarrow> string \<times> probe \<Rightarrow> effect list" where
  "status_line a now ep = (case ep of (entry, p) \<Rightarrow>
     log_msg a level_Information (entry @ [CHR 0x09] @ agentAddress p @ [CHR 0x09] @ ''~'' @ to_string_val (meanProbes p) @ ''ms''
       @ [CHR 0x09] @ ''last seen before ''
       @ js_to_string (js_parseInt_num (js_div (Fin (of_int (now - lastSeen p))) (Fin 1000))) @ ''s''))"

definition statusReport :: "agent \<Rightarrow> int \<Rightarrow> effect list" where
  "statusReport a now = log_msg a level_Information ''Current stored TURN Agents''
     @ concat (map (status_line a now) (turnProbes a))
     @ log_msg a level_Information ''--------------------------''"

section \<open>Watchdogs\<close>

definition runWatchDogs :: "agent \<Rightarrow> timer list \<times> effect list" where
  "runWatchDogs a =
     (let e0 = log_msg a level_Debug ''_runWatchDogs called'' in
      if isRegisteredAtBroker a then
        (Once ReRegister (registerTimeout a)
           # (if isAccessAgent a then [Every RunProbing (probingTimeout a), Every StatusReport (showStateTimeout a)] else []),
         e0 @ log_msg a level_Debug ''Agent is registered at broker, setting timeout for re-registration'')
      else ([Once RunWatchDogs (unsuccessfulRegisterTimeout a)], e0 @ registerAtBroker a))"

text \<open>What the callback of a timer does: new state, new timers, effects.\<close>

definition fire :: "timer_action \<Rightarrow> agent \<Rightarrow> nat \<Rightarrow> agent \<times> timer list \<times> effect list" where
  "fire t a now = (case t of
     ReRegister \<Rightarrow> (let a' = a\<lparr>isRegisteredAtBroker := False\<rparr> in (a', [], registerAtBroker a'))
   | RunProbing \<Rightarrow> (a, [], runProbing a now)
   | StatusReport \<Rightarrow> (a, [], statusReport a (int now))
   | RunWatchDogs \<Rightarrow> (a, fst (runWatchDogs a), snd (runWatchDogs a)))"

record run_state =
  ag :: agent
  pending :: "timer list"
  out :: "effect list"

text \<open>The whole program: construct, initialize, start.\<close>

definition main_program :: "string \<Rightarrow> string \<Rightarrow> string \<Rightarrow> string option \<Rightarrow> string option \<Rightarrow> string option \<Rightarrow> run_state" where
  "main_program user pass own argv2 argv3 argv4 =
     (let a0 = new_Agent user pass own; (a1, e1) = initialize argv2 argv3 argv4 a0; (ts, e2) = runWatchDogs a1
      in \<lparr>ag = a1, pending = ts, out = log_msg a0 level_Information (''Running Agent: '' @ own) @ e1 @ e2\<rparr>)"

inductive agent_step :: "run_state \<Rightarrow> run_state \<Rightarrow> bool" where
  fire_once: "i < length (pending s) \<Longrightarrow> pending s ! i = Once t ms \<Longrightarrow> fire t (ag s) now = (a', ts, es) \<Longrightarrow>
    agent_step s \<lparr>ag = a', pending = take i (pending s) @ drop (Suc i) (pending s) @ ts, out = out s @ es\<rparr>"
| fire_every: "i < length (pending s) \<Longrightarrow> pending s ! i = Every t ms \<Longrightarrow> fire t (ag s) now = (a', ts, es) \<Longrightarrow>
    agent_step s \<lparr>ag = a', pending = pending s @ ts, out = out s @ es\<rparr>"
| broker_answers: "on_register_response (ag s) r = (a', es) \<Longrightarrow>
    agent_step s (s\<lparr>ag := a', out := out s @ es\<rparr>)"
| ping_answers: "on_ping_response (ag s) host body now time = (a', es) \<Longrightarrow>
    agent_step s (s\<lparr>ag := a', out := out s @ es\<rparr>)"

inductive agent_reach :: "run_state \<Rightarrow> run_state \<Rightarrow> bool" for s0 where
  reach_start: "agent_reach s0 s0"
| reach_step: "agent_reach s0 s \<Longrightarrow> agent_step s t \<Longrightarrow> agent_reach s0 t"

inductive_cases agent_stepE: "agent_step s t"

section \<open>The window of probes\<close>

type_synonym probe_event = "string \<times> string \<times> jsnum \<times> int"

definition store_event :: "agent \<Rightarrow> probe_event \<Rightarrow> agent" where
  "store_event a e = (case e of (i, host, calc, time) \<Rightarrow> storeProbe a i host calc time)"

definition calcs_of :: "string \<Rightarrow> probe_event list \<Rightarrow> jsnum list" where
  "calcs_of i es = map (\<lambda>(_, _, c, _). c) (filter (\<lambda>e. fst e = i) es)"

lemma calcs_of_snoc: "calcs_of i (es @ [(j, h, c, t)]) = (if j = i then calcs_of i es @ [c] else calcs_of i es)"
  by (simp add: calcs_of_def)

lemma max_store [simp]: "maxProbes (foldl store_event a es) = maxProbes a"
  by (induction es arbitrary: a) (auto simp: store_event_def storeProbe_def)

lemma push_window:
  assumes "cs \<noteq> []"
  shows "push_probe m (Some (drop (length cs - Suc m) cs)) c = drop (length (cs @ [c]) - Suc m) (cs @ [c])"
proof (cases "length cs \<le> m")
  case True
  then show ?thesis using assms by (simp add: push_probe_def)
next
  case False
  then have "Suc (length cs - Suc m) = length cs - m" by simp
  with False show ?thesis by (simp add: push_probe_def)
qed

lemma store_lookup:
  "map_option lastProbes (map_of (turnProbes (storeProbe b i h c t)) j) =
    (if j = i then Some (case known_probes b i of None \<Rightarrow> [c] | Some old \<Rightarrow> push_probe (maxProbes b) old c)
     else map_option lastProbes (map_of (turnProbes b) j))"
  by (simp add: storeProbe_def Let_def split: option.split)

lemma stored_window:
  assumes "turnProbes a = []"
  shows "map_option lastProbes (map_of (turnProbes (foldl store_event a es)) i) =
    (if calcs_of i es = [] then None else Some (drop (length (calcs_of i es) - Suc (maxProbes a)) (calcs_of i es)))"
proof (induction es rule: rev_induct)
  case Nil
  then show ?case using assms by (simp add: calcs_of_def)
next
  case (snoc e es)
  obtain j h c t where e: "e = (j, h, c, t)" by (cases e) auto
  define b where "b = foldl store_event a es"
  have b: "foldl store_event a (es @ [(j, h, c, t)]) = storeProbe b j h c t" by (simp add: store_event_def b_def)
  have IH: "map_option lastProbes (map_of (turnProbes b) i) = (if calcs_of i es = [] then None
      else Some (drop (length (calcs_of i es) - Suc (maxProbes a)) (calcs_of i es)))"
    using snoc.IH by (simp add: b_def)
  have mx: "maxProbes b = maxProbes a" by (simp add: b_def)
  show ?case
  proof (cases "j = i")
    case False
    then show ?thesis unfolding b store_lookup e calcs_of_snoc using IH by simp
  next
    case True
    show ?thesis
    proof (cases "calcs_of i es = []")
      case e0: True
      then have "known_probes b i \<in> {None, Some None}" using IH by (auto simp: known_probes_def)
      then show ?thesis unfolding b store_lookup e calcs_of_snoc using True e0 by (auto simp: push_probe_def)
    next
      case ne: False
      then have "known_probes b i = Some (Some (drop (length (calcs_of i es) - Suc (maxProbes a)) (calcs_of i es)))"
        using IH by (auto simp: known_probes_def)
      then show ?thesis unfolding b store_lookup e calcs_of_snoc mx using True push_window[OF ne, of "maxProbes a" c] by simp
    qed
  qed
qed

section \<open>Identifiers\<close>

lemma uuid_draw_range:
  assumes "0 \<le> d" and "0 \<le> r"
  shows "0 \<le> uuid_draw (Fin d) r \<and> uuid_draw (Fin d) r < 16"
proof -
  have m: "0 \<le> js_mod s 16 \<and> js_mod s 16 < 16" if "0 \<le> s" for s
  proof -
    have "of_int \<lfloor>s / 16\<rfloor> \<le> s / 16" "s / 16 < of_int \<lfloor>s / 16\<rfloor> + 1" by linarith+
    then show ?thesis using that by (simp add: js_mod_def Let_def field_simps)
  qed
  have int: "0 \<le> js_to_int32 (Fin q) \<and> js_to_int32 (Fin q) < 16" if "0 \<le> q" "q < 16" for q
  proof -
    have "0 \<le> \<lfloor>q\<rfloor>" "\<lfloor>q\<rfloor> < 16" using that by (simp_all add: floor_less_iff)
    then show ?thesis using that by (simp add: Let_def)
  qed
  have nn: "0 \<le> z" if "js_rnd x = Fin z" "0 \<le> x" for x z
    using js_rnd_mono[OF js_rnd_0_1(1) that(1)] that(2) by simp
  show ?thesis
  proof (cases "js_add (Fin d) (js_mul (Fin r) (Fin 16))")
    case (Fin s)
    then have "0 \<le> s" using assms nn by (cases "js_rnd (r * 16)") (auto simp: nn)
    then have "0 \<le> js_to_int32 (Fin (js_mod s 16)) \<and> js_to_int32 (Fin (js_mod s 16)) < 16" using m int by blast
    then show ?thesis using Fin by (simp add: uuid_draw_def del: js_to_int32.simps js_mul.simps)
  qed (simp_all add: uuid_draw_def)
qed

lemma variant_digit: "0 \<le> r \<Longrightarrow> r < 16 \<Longrightarrow> (r AND 3) OR 8 \<in> {8, 9, 10, 11 :: int}"
proof -
  assume "0 \<le> r" "r < 16"
  then have "r \<in> {0, 1, 2, 3, 4, 5, 6, 7, 8, 9, 10, 11, 12, 13, 14, 15}"
    unfolding insert_iff empty_iff by presburger
  then show ?thesis by auto
qed

text \<open>Which characters a template character may become.\<close>

definition uuid_char_ok :: "char \<Rightarrow> char \<Rightarrow> bool" where
  "uuid_char_ok t c = (if t = CHR ''x'' then c \<in> set ''0123456789abcdef''
     else if t = CHR ''y'' then c \<in> set ''89ab'' else c = t)"

lemma hex_digits: "map hex_digit [0, 1, 2, 3, 4, 5, 6, 7, 8, 9, 10, 11, 12, 13, 14, 15] = ''0123456789abcdef''"
  by code_simp

lemma hex_digit_nth: "0 \<le> r \<Longrightarrow> r < 16 \<Longrightarrow> hex_digit r = ''0123456789abcdef'' ! nat r"
proof -
  assume "0 \<le> r" "r < 16"
  then have "r \<in> {0, 1, 2, 3, 4, 5, 6, 7, 8, 9, 10, 11, 12, 13, 14, 15}"
    unfolding insert_iff empty_iff by presburger
  then show ?thesis using hex_digits by auto
qed

lemma hex_digit_ok: "0 \<le> r \<Longrightarrow> r < 16 \<Longrightarrow> hex_digit r \<in> set ''0123456789abcdef''"
  unfolding hex_digit_nth by (rule nth_mem) simp

lemma variant_hex: "0 \<le> r \<Longrightarrow> r < 16 \<Longrightarrow> hex_digit ((r AND 3) OR 8) \<in> set ''89ab''"
  using variant_digit[of r] hex_digits by auto

lemma floor_div_16:
  assumes "0 \<le> q" and "q \<le> 2 ^ 53"
  obtains z where "js_floor (js_div (Fin q) (Fin 16)) = Fin z" "0 \<le> z" "z \<le> 2 ^ 53"
proof -
  have "js_rnd (2 ^ 53) = Fin (2 ^ 53)" using js_rnd_int[of "2 ^ 53"] by simp
  then obtain x where x: "js_rnd (q / 16) = Fin x" "0 \<le> x" "x \<le> 2 ^ 53"
    using js_rnd_between[OF js_rnd_0_1(1), of "2 ^ 53" "2 ^ 53" "q / 16"] assms by auto
  have "of_int \<lfloor>x\<rfloor> \<le> (2 ^ 53 :: rat)" using x(3) of_int_floor_le[of x] by linarith
  then show thesis using x by (intro that[of "of_int \<lfloor>x\<rfloor>"]) simp_all
qed

lemma uuid_from_ok:
  assumes "\<And>j. 0 \<le> rnd j" and "0 \<le> q" and "q \<le> 2 ^ 53"
  shows "list_all2 uuid_char_ok ts (uuid_from (Fin q) rnd i ts)"
  using assms(2,3)
proof (induction ts arbitrary: q i)
  case (Cons c cs)
  obtain z where z: "js_floor (js_div (Fin q) (Fin 16)) = Fin z" "0 \<le> z" "z \<le> 2 ^ 53"
    by (rule floor_div_16[OF Cons.prems])
  have r: "0 \<le> uuid_draw (Fin q) (rnd i)" "uuid_draw (Fin q) (rnd i) < 16"
    using uuid_draw_range[OF Cons.prems(1) assms(1)] by auto
  show ?case
  proof (cases "c = CHR ''x'' \<or> c = CHR ''y''")
    case True
    then have "uuid_char_ok c (hex_digit (if c = CHR ''x'' then uuid_draw (Fin q) (rnd i) else (uuid_draw (Fin q) (rnd i) AND 3) OR 8))"
      using hex_digit_ok[OF r] variant_hex[OF r] unfolding uuid_char_ok_def by (auto simp del: set_simps)
    then show ?thesis using True Cons.IH[OF z(2,3), of "Suc i"] by (simp add: z(1) Let_def del: js_div.simps js_floor.simps)
  next
    case False
    then show ?thesis using Cons.IH[OF Cons.prems, of i] by (simp add: uuid_char_ok_def)
  qed
qed simp

section \<open>Registration\<close>

definition is_post :: "effect \<Rightarrow> bool" where
  "is_post e = (case e of PostRegister _ _ \<Rightarrow> True | _ \<Rightarrow> False)"

definition posts :: "effect list \<Rightarrow> nat" where
  "posts es = length (filter is_post es)"

fun action_of :: "timer \<Rightarrow> timer_action" where
  "action_of (Once t ms) = t"
| "action_of (Every t ms) = t"

definition reregs :: "timer list \<Rightarrow> nat" where
  "reregs ts = length (filter (\<lambda>t. action_of t = ReRegister) ts)"

lemma posts_simps [simp]: "posts [] = 0" "posts (e # es) = (if is_post e then 1 else 0) + posts es"
  "posts (xs @ ys) = posts xs + posts ys"
  by (simp_all add: posts_def)

lemma reregs_simps [simp]: "reregs [] = 0" "reregs (t # ts) = (if action_of t = ReRegister then 1 else 0) + reregs ts"
  "reregs (xs @ ys) = reregs xs + reregs ys"
  by (simp_all add: reregs_def)

lemma posts_log [simp]: "posts (log_msg a lvl s) = 0"
  by (simp add: log_msg_def log_line_def posts_def is_post_def Let_def)

lemma posts_probing [simp]: "posts (runProbing a now) = 0"
proof -
  have "posts (concat (map (\<lambda>h. callRemoteAgent a h now) hs)) = 0" for hs
    by (induction hs) (simp_all add: callRemoteAgent_def is_post_def)
  then show ?thesis by (simp add: runProbing_def)
qed

lemma posts_status [simp]: "posts (statusReport a now) = 0"
proof -
  have "posts (concat (map (status_line a now) ps)) = 0" for ps
    by (induction ps) (auto simp: status_line_def)
  then show ?thesis by (simp add: statusReport_def)
qed

lemma posts_register [simp]: "posts (registerAtBroker a) = 1"
  by (simp add: registerAtBroker_def is_post_def)

text \<open>Every request to the broker stems from the one re-registration timer of the start.\<close>

fun never_retries :: "timer \<Rightarrow> bool" where
  "never_retries (Once x ms) = (x \<noteq> RunWatchDogs)"
| "never_retries (Every x ms) = (x \<noteq> RunWatchDogs \<and> x \<noteq> ReRegister)"

definition registers_once :: "run_state \<Rightarrow> bool" where
  "registers_once s = (posts (out s) + reregs (pending s) = 1
     \<and> (\<forall>t \<in> set (pending s). never_retries t))"

lemma reregs_remove:
  "i < length ts \<Longrightarrow> reregs (take i ts @ drop (Suc i) ts) + (if action_of (ts ! i) = ReRegister then 1 else 0) = reregs ts"
  by (subst (3) id_take_nth_drop[of i ts]) simp_all

lemma fire_posts:
  assumes "fire t a now = (a', ts, es)" and "t \<noteq> RunWatchDogs"
  shows "ts = [] \<and> posts es = (if t = ReRegister then 1 else 0)"
  using assms by (cases t) (auto simp: fire_def Let_def)

lemma registers_once_step:
  assumes "agent_step s t" and "registers_once s"
  shows "registers_once t"
  using assms(1)
proof cases
  case (fire_once i x ms now a' ts es)
  have m: "Once x ms \<in> set (pending s)" using fire_once(2,3) by (metis nth_mem)
  then have "x \<noteq> RunWatchDogs" using assms(2) by (auto simp: registers_once_def)
  note f = fire_posts[OF fire_once(4) this]
  have "set (take i (pending s) @ drop (Suc i) (pending s)) \<subseteq> set (pending s)"
    using set_take_subset[of i "pending s"] set_drop_subset[of "Suc i" "pending s"] by auto
  then show ?thesis using assms(2) f fire_once reregs_remove[OF fire_once(2)]
    by (auto simp: registers_once_def)
next
  case (fire_every i x ms now a' ts es)
  have m: "Every x ms \<in> set (pending s)" using fire_every(2,3) by (metis nth_mem)
  then have "x \<noteq> RunWatchDogs" "x \<noteq> ReRegister" using assms(2) by (auto simp: registers_once_def)
  then show ?thesis using assms(2) fire_posts[OF fire_every(4)] fire_every(1) by (auto simp: registers_once_def)
next
  case (broker_answers r a' es)
  then show ?thesis using assms(2)
    by (auto simp: registers_once_def on_register_response_def is_post_def split: promise.splits)
next
  case (ping_answers host body now time a' es)
  then show ?thesis using assms(2)
    by (auto simp: registers_once_def on_ping_response_def Let_def split: option.splits)
qed

lemma posts_initialize: "posts (snd (initialize a2 a3 a4 a)) = 0"
  by (simp add: initialize_def startREST_def is_post_def Let_def)

lemma initialize_registered: "isRegisteredAtBroker (fst (initialize a2 a3 a4 a)) = isRegisteredAtBroker a"
  by (simp add: initialize_def Let_def split: option.split)

lemma registers_once_start: "registers_once (main_program u p own a2 a3 a4)"
proof -
  obtain a e where i: "initialize a2 a3 a4 (new_Agent u p own) = (a, e)" by fastforce
  have "isRegisteredAtBroker a" "posts e = 0"
    using initialize_registered[of a2 a3 a4 "new_Agent u p own"] posts_initialize[of a2 a3 a4 "new_Agent u p own"] i
    by (simp_all add: new_Agent_def)
  then show ?thesis by (simp add: main_program_def registers_once_def i runWatchDogs_def)
qed

section \<open>Validation of the answer\<close>

lemma object_not_json: "\<not> json_ok ''[object Object]''"
  by code_simp

lemma validate_register: "validate ''registerResponse'' content \<noteq> Some True"
proof (cases content)
  case (JObj al)
  then show ?thesis using object_not_json by (simp add: validate_def)
qed (simp_all add: validate_def loose_eq_num_def)

section \<open>Round-trip times\<close>

lemma rtt_close:
  assumes "t0 \<le> now" and "now \<le> 2 ^ 53"
  shows "\<exists>z. rtt now (JStr (nat_to_base 10 t0)) = Fin (of_int z) \<and> \<bar>z * 1000 - (int now - int t0)\<bar> \<le> 1000"
proof -
  define m where "m = now - t0"
  have m: "m \<le> 2 ^ 53" using assms by (simp add: m_def)
  have "js_parseInt (nat_to_base 10 t0) = Fin (of_nat t0)"
    using nat_to_base_10[of t0] assms by (simp add: js_parseInt_digits js_rnd_nat)
  then have r: "rtt now (JStr (nat_to_base 10 t0)) = js_round (js_div (js_rnd (of_nat m)) (Fin 1000))"
    using assms(1) by (simp add: rtt_def js_sub_def m_def of_nat_diff)
  define k where "k = m div 1000"
  have k: "k * 1000 \<le> m" "m < (k + 1) * 1000" by (simp_all add: k_def)
  have kk: "k + 1 \<le> 2 ^ 53" using m by (simp add: k_def)
  have lo: "(of_nat k :: rat) \<le> of_nat m / 1000" and hi: "(of_nat m :: rat) / 1000 \<le> of_nat (k + 1)"
    using k by (simp_all add: field_simps)
  have b: "js_rnd (of_nat k) = Fin (of_nat k)" "js_rnd (of_nat (k + 1)) = Fin (of_nat (k + 1))"
    using kk by (intro js_rnd_nat; simp)+
  obtain x where x: "js_rnd (of_nat m / 1000) = Fin x" "of_nat k \<le> x" "x \<le> of_nat (k + 1)"
    using js_rnd_between[OF b lo hi] by auto
  let ?z = "\<lfloor>x + 1 / 2\<rfloor>"
  have "js_div (js_rnd (of_nat m)) (Fin 1000) = Fin x" using x(1) m by (simp add: js_rnd_nat)
  then have "rtt now (JStr (nat_to_base 10 t0)) = Fin (of_int ?z)" unfolding r by simp
  moreover have "int k \<le> ?z" "?z \<le> int k + 1" using x by (simp_all add: le_floor_iff floor_le_iff)
  moreover have "int k * 1000 \<le> int now - int t0" "int now - int t0 < (int k + 1) * 1000"
  proof -
    have i: "int now - int t0 = int m" using assms(1) by (simp add: m_def)
    show "int k * 1000 \<le> int now - int t0" using k(1) unfolding i by simp
    have "int m < int ((k + 1) * 1000)" using k(2) by (simp only: of_nat_less_iff)
    then show "int now - int t0 < (int k + 1) * 1000" unfolding i by simp
  qed
  moreover have "\<bar>y * 1000 - d\<bar> \<le> 1000" if "c \<le> y" "y \<le> c + 1" "c * 1000 \<le> d" "d < (c + 1) * 1000" for c y d :: int
  proof -
    have "y * 1000 \<le> (c + 1) * 1000" "c * 1000 \<le> y * 1000" using that(1,2) by simp_all
    then show ?thesis using that(3,4) by (simp add: abs_le_iff)
  qed
  ultimately show ?thesis by blast
qed

section \<open>Properties of the agent\<close>

text \<open>
  C21. The probe window: after any sequence of probe results from any agents, the stored probes of
  an agent are exactly its latest results in order, at most \<open>maxProbes + 1\<close> of them (11 for the
  constructed agent, although the source calls 10 the maximum).
\<close>

theorem probe_window:
  assumes "turnProbes a = []"
  shows "map_option lastProbes (map_of (turnProbes (foldl store_event a es)) i) =
    (if calcs_of i es = [] then None
     else Some (drop (length (calcs_of i es) - Suc (maxProbes a)) (calcs_of i es)))"
  using assms by (rule stored_window)

definition demo_agent :: agent where
  "demo_agent = new_Agent ''u'' ''p'' ''me''"

theorem probe_window_witness:
  "map_option (length \<circ> lastProbes) (map_of (turnProbes (foldl store_event demo_agent
     (replicate 12 (''x'', ''h'', Fin 3, 0)))) ''x'') = Some 11"
proof -
  have c: "calcs_of ''x'' (replicate 12 (''x'', ''h'', Fin 3, 0)) = replicate 12 (Fin 3)"
    by (simp add: calcs_of_def)
  have e: "turnProbes demo_agent = []" "maxProbes demo_agent = 10" by (simp_all add: demo_agent_def new_Agent_def)
  have "map_option lastProbes (map_of (turnProbes (foldl store_event demo_agent
     (replicate 12 (''x'', ''h'', Fin 3, 0)))) ''x'') = Some (drop 1 (replicate 12 (Fin 3)))"
    using probe_window[OF e(1), of "replicate 12 (''x'', ''h'', Fin 3, 0)" "''x''"] unfolding c e by simp
  then show ?thesis by (auto simp: option.map_comp[symmetric] simp del: replicate.simps)
qed

text \<open>
  C22. Registration: in every run of the agent, whatever timers fire and whatever the broker and the
  other agents answer, at most one registration request is ever sent, and the retry of
  \<open>_runWatchDogs\<close> is never scheduled.
\<close>

theorem at_most_one_registration:
  assumes "agent_reach (main_program user pass own argv2 argv3 argv4) s"
  shows "posts (out s) \<le> 1 \<and> (\<forall>ms. Once RunWatchDogs ms \<notin> set (pending s))"
proof -
  have "registers_once s" using assms
    by (induction rule: agent_reach.induct) (auto intro: registers_once_start registers_once_step)
  then show ?thesis by (auto simp: registers_once_def)
qed

theorem at_most_one_registration_witness:
  "agent_reach (main_program ''u'' ''p'' ''me'' None None None) (main_program ''u'' ''p'' ''me'' None None None)
   \<and> posts (out (main_program ''u'' ''p'' ''me'' None None None)) \<le> 1"
  using at_most_one_registration[OF agent_reach.reach_start] agent_reach.reach_start by blast

text \<open>
  No answer of the broker can pass the validation of the registration: it must be a JSON text
  and have a property \<open>resultCode\<close>, which no text has; and the callback does not get that far.
\<close>

theorem registration_never_confirmed:
  "validate ''registerResponse'' content \<noteq> Some True \<and> fst (on_register_response a r) = a"
  using validate_register by (simp add: on_register_response_def)

text \<open>
  C23. Round-trip time: when the ping resource of the remote agent echoes the time stamp, the stored
  result is the elapsed time in milliseconds, off by at most one millisecond, under the remote
  agent's identifier.
\<close>

theorem ping_measures:
  assumes "t0 \<le> now" and "now \<le> 2 ^ 53"
  shows "\<exists>body z. ping_handler remote (ownId a) (nat_to_base 10 t0) = (200, body)
    \<and> fst (on_ping_response a host body now time) = storeProbe a (ownId remote) host (Fin (of_int z)) time
    \<and> \<bar>z * 1000 - (int now - int t0)\<bar> \<le> 1000"
proof -
  have "js_Number (nat_to_base 10 t0) = Fin (of_nat t0)"
    using nat_to_base_10[of t0] assms by (simp add: js_Number_digits js_rnd_nat)
  then have "\<not> js_isNaN (nat_to_base 10 t0)" by (simp add: js_isNaN_def)
  then have p: "ping_handler remote (ownId a) (nat_to_base 10 t0) = (200, JObj [(''reqTimestamp'', JStr (nat_to_base 10 t0)),
      (''agentId'', JStr (ownId remote)), (''pingpong'', JStr ''pong'')])"
    by (simp add: ping_handler_def)
  obtain z where "rtt now (JStr (nat_to_base 10 t0)) = Fin (of_int z)" "\<bar>z * 1000 - (int now - int t0)\<bar> \<le> 1000"
    using rtt_close[OF assms] by blast
  then show ?thesis unfolding p by (auto simp: on_ping_response_def Let_def intro!: exI[of _ z])
qed

theorem ping_measures_witness:
  "\<exists>body z. ping_handler demo_agent ''me'' (nat_to_base 10 1000) = (200, body)
    \<and> fst (on_ping_response demo_agent ''h'' body 4000 0) = storeProbe demo_agent ''me'' ''h'' (Fin (of_int z)) 0
    \<and> \<bar>z * 1000 - 3000\<bar> \<le> 1000"
  using ping_measures[of 1000 4000 demo_agent demo_agent "''h''" 0] by (simp add: demo_agent_def new_Agent_def)

text \<open>
  Generated identifiers are version 4 UUIDs: for every time up to \<open>2^53\<close> and all random draws,
  every \<open>x\<close> of the template becomes a lower-case hexadecimal digit, the \<open>y\<close> one of 8, 9, a, b, and the
  dashes and the version digit stay.
\<close>

theorem uuid_shape:
  assumes "\<And>j. 0 \<le> rnd j" and "now \<le> 2 ^ 53"
  shows "list_all2 uuid_char_ok uuid_template (generateUUID now rnd)"
proof -
  have "(of_nat now :: rat) \<le> 2 ^ 53" using assms(2) by (metis of_nat_le_iff of_nat_numeral of_nat_power)
  then show ?thesis unfolding generateUUID_def using assms(1) by (intro uuid_from_ok) simp_all
qed

theorem uuid_shape_witness: "length (generateUUID 1480000000000 (\<lambda>_. 1 / 2)) = 36"
proof -
  have "list_all2 uuid_char_ok uuid_template (generateUUID 1480000000000 (\<lambda>_. 1 / 2))" by (rule uuid_shape) simp_all
  then have "length uuid_template = length (generateUUID 1480000000000 (\<lambda>_. 1 / 2))" by (rule list_all2_lengthD)
  then show ?thesis by (simp add: uuid_template_def)
qed

section \<open>The fuel of the JSON check\<close>

lemma json_ws_length: "length (json_ws s) \<le> length s"
  by (simp add: json_ws_def length_dropWhile_le)

lemma json_ws_Cons: "json_ws s = c # cs \<Longrightarrow> length cs < length s"
  using json_ws_length[of s] by simp

lemma json_str_tail_length: "json_str_tail s = Some r \<Longrightarrow> length r < length s"
  by (induction s rule: json_str_tail.induct) (auto split: if_splits list.splits, meson less_SucI)

lemma json_digits_length: "json_digits s = Some r \<Longrightarrow> length r < length s"
proof -
  assume "json_digits s = Some r"
  then have r: "r = dropWhile (is_digit 10) s" "takeWhile (is_digit 10) s \<noteq> []" by (auto simp: json_digits_def split: if_splits)
  have "length (takeWhile (is_digit 10) s) + length r = length s" unfolding r(1) by (metis length_append takeWhile_dropWhile_id)
  with r(2) show ?thesis by (cases "takeWhile (is_digit 10) s") auto
qed

lemma split_sign_length: "length (snd (split_sign s)) \<le> length s"
  by (cases s) auto

lemma json_number_length: "json_number s = Some r \<Longrightarrow> length r < length s"
proof -
  define s' where "s' = (case s of c # cs \<Rightarrow> if c = CHR ''-'' then cs else s | [] \<Rightarrow> [])"
  have s': "length s' \<le> length s" by (auto simp: s'_def split: list.splits)
  assume "json_number s = Some r"
  then obtain r1 r2 where 1: "(case s' of c # cs \<Rightarrow> if c = CHR ''0'' then Some cs else json_digits s' | [] \<Rightarrow> None) = Some r1"
    and 2: "(case r1 of c # cs \<Rightarrow> if c = CHR ''.'' then json_digits cs else Some r1 | [] \<Rightarrow> Some []) = Some r2"
    and 3: "(case r2 of c # cs \<Rightarrow> if c = CHR ''e'' \<or> c = CHR ''E'' then json_digits (snd (split_sign cs)) else Some r2 | [] \<Rightarrow> Some []) = Some r"
    by (auto simp: json_number_def s'_def[symmetric] Let_def bind_eq_Some_conv)
  have "length r1 < length s'" using 1 json_digits_length[of s' r1] by (auto split: list.splits if_splits)
  moreover have "length r2 \<le> length r1" using 2 json_digits_length[of "tl r1" r2] by (auto split: list.splits if_splits)
  moreover have "length r \<le> length r2"
    using 3 json_digits_length[of "snd (split_sign (tl r2))" r] split_sign_length[of "tl r2"] by (auto split: list.splits if_splits)
  ultimately show ?thesis using s' by simp
qed

lemma json_word_length: "json_word w s = Some r \<Longrightarrow> w \<noteq> [] \<Longrightarrow> length r < length s"
  by (auto simp: json_word_def prefix_def split: if_splits)

lemma json_consumes:
  "json_value n s = Some r \<Longrightarrow> length r < length s"
  "json_elems n s = Some r \<Longrightarrow> length r < length s"
  "json_members n s = Some r \<Longrightarrow> length r < length s"
proof (induction n s and n s and n s arbitrary: r and r and r rule: json_value_json_elems_json_members.induct)
  case (2 n s)
  show ?case
  proof (cases "json_ws s")
    case (Cons c cs)
    have l: "length (c # cs) \<le> length s" using json_ws_length[of s] Cons by simp
    have "length r < length (c # cs)"
    proof (cases "c = CHR ''['' \<or> c = CHR ''{''")
      case True
      with 2 Cons show ?thesis by (auto split: if_splits list.splits dest: json_ws_Cons intro: less_SucI)
    next
      case False
      with 2(3) Cons show ?thesis
        by (auto split: if_splits dest: json_str_tail_length json_number_length json_word_length)
    qed
    with l show ?thesis by simp
  qed (use 2 in simp)
next
  case (4 n s)
  from 4(3) obtain r1 where 1: "json_value n s = Some r1" by (cases "json_value n s") auto
  with 4(3) obtain d ds where 2: "json_ws r1 = d # ds" by (cases "json_ws r1") auto
  have "length ds < length s" using 4(1)[OF 1] json_ws_Cons[OF 2] by simp
  with 4(2)[OF 1 2] 4(3) 1 2 show ?case by (cases "d = CHR '']''"; cases "d = CHR '',''") auto
next
  case (6 n s)
  from 6(3) obtain c cs where 1: "json_ws s = c # cs" by (cases "json_ws s") auto
  with 6(3) have c: "c = CHR 0x22" by (auto split: if_splits)
  with 6(3) 1 obtain r1 where 2: "json_str_tail cs = Some r1" by (cases "json_str_tail cs") auto
  with 6(3) 1 c obtain e es where 3: "json_ws r1 = e # es" by (cases "json_ws r1") auto
  with 6(3) 1 2 c have e: "e = CHR '':''" by (auto split: if_splits)
  with 6(3) 1 2 3 c obtain r2 where 4: "json_value n es = Some r2" by (cases "json_value n es") auto
  with 6(3) 1 2 3 c e obtain d ds where 5: "json_ws r2 = d # ds" by (cases "json_ws r2") auto
  have "length ds < length s"
    using 6(1)[OF 1 c 2 3 e 4] json_ws_Cons[OF 1] json_str_tail_length[OF 2] json_ws_Cons[OF 3] json_ws_Cons[OF 5] by simp
  with 6(2)[OF 1 c 2 3 e 4 5] 6(3) 1 2 3 4 5 c e show ?case by (cases "d = CHR ''}''"; cases "d = CHR '',''") auto
qed simp_all

text \<open>Beyond the bound the fuel does not matter: the recursion ends before it is used up.\<close>

definition fuel_ok :: "string \<Rightarrow> bool" where
  "fuel_ok s = ((\<forall>n m. 2 * length s + 1 \<le> n \<longrightarrow> 2 * length s + 1 \<le> m \<longrightarrow> json_value n s = json_value m s)
   \<and> (\<forall>n m. 2 * length s + 2 \<le> n \<longrightarrow> 2 * length s + 2 \<le> m \<longrightarrow> json_elems n s = json_elems m s)
   \<and> (\<forall>n m. 2 * length s + 2 \<le> n \<longrightarrow> 2 * length s + 2 \<le> m \<longrightarrow> json_members n s = json_members m s))"

lemma fuel_okD:
  assumes "fuel_ok t" "length t < length s" "2 * length s \<le> n" "2 * length s \<le> m"
  shows "json_value n t = json_value m t" "json_elems n t = json_elems m t" "json_members n t = json_members m t"
  using assms by (simp_all add: fuel_ok_def)

lemma json_value_fuel:
  assumes IH: "\<And>t. length t < length s \<Longrightarrow> fuel_ok t" and nm: "2 * length s \<le> n" "2 * length s \<le> m"
  shows "json_value (Suc n) s = json_value (Suc m) s"
proof (cases "json_ws s")
  case (Cons c cs)
  then have cs: "length cs < length s" by (rule json_ws_Cons)
  from fuel_okD[OF IH[OF cs] cs nm] Cons show ?thesis by (auto split: list.splits)
qed simp

lemma json_elems_fuel:
  assumes IH: "\<And>t. length t < length s \<Longrightarrow> fuel_ok t" and nm: "2 * length s \<le> n" "2 * length s \<le> m"
    and v: "json_value n s = json_value m s"
  shows "json_elems (Suc n) s = json_elems (Suc m) s"
proof -
  have "json_elems n ds = json_elems m ds" if "json_value m s = Some r" "json_ws r = d # ds" for r d ds
  proof -
    have l: "length ds < length s" using json_consumes(1)[OF that(1)] json_ws_Cons[OF that(2)] by simp
    show ?thesis by (rule fuel_okD(2)[OF IH[OF l] l nm])
  qed
  then show ?thesis by (auto simp: v intro!: bind_option_cong split: list.splits)
qed

lemma json_members_fuel:
  assumes IH: "\<And>t. length t < length s \<Longrightarrow> fuel_ok t" and nm: "2 * length s \<le> n" "2 * length s \<le> m"
  shows "json_members (Suc n) s = json_members (Suc m) s"
proof (cases "json_ws s")
  case (Cons c cs)
  have "json_value n es = json_value m es \<and> (\<forall>r2 d ds. json_value m es = Some r2 \<longrightarrow> json_ws r2 = d # ds
      \<longrightarrow> json_members n ds = json_members m ds)"
    if "json_str_tail cs = Some r" "json_ws r = e # es" for r e es
  proof -
    have l: "length es < length s" using json_ws_Cons[OF Cons] json_str_tail_length[OF that(1)] json_ws_Cons[OF that(2)] by simp
    have "length ds < length s" if "json_value m es = Some r2" "json_ws r2 = d # ds" for r2 d ds
      using json_consumes(1)[OF that(1)] json_ws_Cons[OF that(2)] l by simp
    then show ?thesis using fuel_okD(1)[OF IH[OF l] l nm] fuel_okD(3)[OF IH _ nm] by blast
  qed
  then show ?thesis using Cons by (auto intro!: bind_option_cong split: list.splits)
qed simp

lemma json_fuel: "fuel_ok s"
proof (induction "length s" arbitrary: s rule: less_induct)
  case less
  have v: "json_value n s = json_value m s" if "2 * length s + 1 \<le> n" "2 * length s + 1 \<le> m" for n m
    using json_value_fuel[OF less.hyps, of s "n - 1" "m - 1"] that by (cases n; cases m) auto
  have "json_elems n s = json_elems m s" if "2 * length s + 2 \<le> n" "2 * length s + 2 \<le> m" for n m
    using json_elems_fuel[OF less.hyps, of s "n - 1" "m - 1"] v[of "n - 1" "m - 1"] that by (cases n; cases m) auto
  moreover have "json_members n s = json_members m s" if "2 * length s + 2 \<le> n" "2 * length s + 2 \<le> m" for n m
    using json_members_fuel[OF less.hyps, of s "n - 1" "m - 1"] that by (cases n; cases m) auto
  ultimately show ?case unfolding fuel_ok_def using v by blast
qed

lemma json_ok_fuel:
  assumes "2 * length s + 2 \<le> n"
  shows "json_ok s \<longleftrightarrow> map_option json_ws (json_value n s) = Some []"
proof -
  have "2 * length s + 1 \<le> n" "2 * length s + 1 \<le> 2 * length s + 2" using assms by simp_all
  then have "json_value n s = json_value (2 * length s + 2) s"
    using json_fuel[of s] unfolding fuel_ok_def by blast
  then show ?thesis by (simp only: json_ok_def)
qed

end
