(* ===== verification/Agent_Bundle.thy ===== *)
theory Agent_Bundle
  imports QoS_Agent
begin

text \<open>
  The agent as it is run, \<^verbatim>\<open>agent/dist/qosbroker-agent.js\<close>: the bundle that \<^verbatim>\<open>gulp start\<close> executes.  It has
  the loader of the modules, the modules of the agent compiled to functions, and the colour library,
  which nothing of the agent calls.  The methods are written as the compiled text has them, with
  its index loops, and shown to do what those of \<^verbatim>\<open>agent/src\<close> do.
\<close>

section \<open>The loader\<close>

text \<open>A module: the names it requires while it is evaluated, in order, and the table of its names.  A name
  that the table does not resolve is asked from Node.\<close>

record module_def =
  m_requires :: "string list"
  m_table :: "(string \<times> nat) list"

type_synonym modules = "(nat \<times> module_def) list"

text \<open>The modules whose evaluation has begun, latest first, and the names asked from Node.\<close>

record load_state =
  cache :: "nat list"
  external :: "string list"

text \<open>\<open>s(o)\<close>: a module in the cache is not evaluated again.  The fuel bounds the nesting; \<^const>\<open>None\<close> means
  that it ran out.\<close>

fun load_module :: "nat \<Rightarrow> modules \<Rightarrow> nat \<Rightarrow> load_state \<Rightarrow> load_state option"
  and load_names :: "nat \<Rightarrow> modules \<Rightarrow> (string \<times> nat) list \<Rightarrow> string list \<Rightarrow> load_state \<Rightarrow> load_state option" where
  "load_module fuel t k st =
     (if k \<in> set (cache st) then Some st
      else case fuel of 0 \<Rightarrow> None
        | Suc n \<Rightarrow> (case map_of t k of
            None \<Rightarrow> Some (st\<lparr>external := external st @ [nat_to_base 10 k]\<rparr>)
          | Some md \<Rightarrow> load_names n t (m_table md) (m_requires md) (st\<lparr>cache := k # cache st\<rparr>)))"
| "load_names fuel t tab [] st = Some st"
| "load_names fuel t tab (r # rs) st =
     (case (case map_of tab r of
          Some k \<Rightarrow> load_module fuel t k st
        | None \<Rightarrow> Some (st\<lparr>external := external st @ [r]\<rparr>)) of
        None \<Rightarrow> None | Some st' \<Rightarrow> load_names fuel t tab rs st')"

definition agent_bundle :: modules where
  "agent_bundle =
    [(1, \<lparr>m_requires = [], m_table = []\<rparr>),
     (2, \<lparr>m_requires = [''./styles'', ''./system/supports-colors'', ''./custom/trap'', ''./custom/zalgo'',
          ''./maps/america'', ''./maps/zebra'', ''./maps/rainbow'', ''./maps/random''],
        m_table = [(''./custom/trap'', 3), (''./custom/zalgo'', 4), (''./maps/america'', 5), (''./maps/rainbow'', 6),
          (''./maps/random'', 7), (''./maps/zebra'', 8), (''./styles'', 9), (''./system/supports-colors'', 10)]\<rparr>),
     (3, \<lparr>m_requires = [], m_table = []\<rparr>),
     (4, \<lparr>m_requires = [], m_table = []\<rparr>),
     (5, \<lparr>m_requires = [''../colors''], m_table = [(''../colors'', 2)]\<rparr>),
     (6, \<lparr>m_requires = [''../colors''], m_table = [(''../colors'', 2)]\<rparr>),
     (7, \<lparr>m_requires = [''../colors''], m_table = [(''../colors'', 2)]\<rparr>),
     (8, \<lparr>m_requires = [''../colors''], m_table = [(''../colors'', 2)]\<rparr>),
     (9, \<lparr>m_requires = [], m_table = []\<rparr>),
     (10, \<lparr>m_requires = [''_process''], m_table = [(''_process'', 1)]\<rparr>),
     (11, \<lparr>m_requires = [''./lib/colors''], m_table = [(''./lib/colors'', 2)]\<rparr>),
     (12, \<lparr>m_requires = [''requestify'', ''express'', ''microtime'', ''http'', ''process'', ''../log/level.json'', ''colors/safe''],
        m_table = [(''../log/level.json'', 13), (''colors/safe'', 11)]\<rparr>),
     (13, \<lparr>m_requires = [], m_table = []\<rparr>),
     (14, \<lparr>m_requires = [''./agent/agent.js''], m_table = [(''./agent/agent.js'', 12)]\<rparr>)]"

definition load_bundle :: "modules \<Rightarrow> nat list \<Rightarrow> load_state option" where
  "load_bundle t entries = foldl (\<lambda>st k. Option.bind st (load_module (Suc (length t)) t k))
     (Some \<lparr>cache = [], external = []\<rparr>) entries"

text \<open>What a module exports: the module of the agent replaces its object of exports by the class, which has no
  \<open>__esModule\<close> of its own, so the entry wraps it again.\<close>

datatype exported = AgentClass | TrueValue | ExportsObject "(string \<times> exported) list"

fun get_export :: "exported \<Rightarrow> string \<Rightarrow> exported option" where
  "get_export (ExportsObject ps) n = map_of ps n"
| "get_export _ n = None"

definition agent_module :: "exported option" where
  "agent_module = (let exports1 = [(''__esModule'', TrueValue)]; exports2 = AList.update ''default'' AgentClass exports1
     in get_export (ExportsObject exports2) ''default'')"

definition interopRequireDefault :: "exported option \<Rightarrow> exported option" where
  "interopRequireDefault obj = (case obj of
     Some x \<Rightarrow> if get_export x ''__esModule'' \<noteq> None then Some x else Some (ExportsObject [(''default'', x)])
   | None \<Rightarrow> None)"

section \<open>The log and the validation\<close>

definition level_json :: "(string \<times> nat) list" where
  "level_json = [(''Debug'', 100), (''Information'', 200), (''Warning'', 300), (''Error'', 400), (''Fatal'', 500)]"

definition dist_level :: "string \<Rightarrow> nat" where
  "dist_level n = (case map_of level_json n of Some v \<Rightarrow> v | None \<Rightarrow> 0)"

text \<open>The assignments to \<open>ret\<close> in order; \<^const>\<open>None\<close> is a thrown error.\<close>

definition dist_validate :: "string \<Rightarrow> jsval \<Rightarrow> bool option" where
  "dist_validate what content =
     (let isJSON = json_ok (to_string_val content); ret = True in
      if what = ''registerResponse'' then
        (let ret = isJSON in if \<not> ret then Some ret
         else case js_get content ''resultCode'' of None \<Rightarrow> None | Some v \<Rightarrow> Some (ret \<and> loose_eq_num v (Fin 200)))
      else if what = ''isJSON'' then Some (if isJSON then True else False)
      else if what = ''isUndefined'' then Some (content = JUndef \<or> content = JNull)
      else Some ret)"

definition dist_log :: "agent \<Rightarrow> nat \<Rightarrow> string \<Rightarrow> effect list" where
  "dist_log this lvl str0 =
     (let str = (if dist_validate ''isJSON'' (JStr str0) = Some True then json_quote str0 else str0);
          shown = applicationLogLevel this \<le> lvl in
      if lvl = dist_level ''Debug'' then (if shown then [Console (''[Debug] '' @ str)] else [])
      else if lvl = dist_level ''Information'' then (if shown then [Console (''[Information] '' @ str)] else [])
      else if lvl = dist_level ''Warning'' then (if shown then [Console (''[Warning] '' @ str)] else [])
      else if lvl = dist_level ''Error'' then (if shown then [Console (''[Error] '' @ str)] else [])
      else if lvl = dist_level ''Fatal'' then (if shown then [Console (''[Fatal] '' @ str)] else [])
      else [Console (''[Debug] '' @ str)])"

section \<open>Identifiers\<close>

text \<open>The replacement callback over the matches of the template, with \<open>d\<close> as its state.\<close>

definition dist_uuid_callback :: "(nat \<Rightarrow> rat) \<Rightarrow> jsnum \<times> nat \<times> string \<Rightarrow> char \<Rightarrow> jsnum \<times> nat \<times> string" where
  "dist_uuid_callback rnd st c = (case st of (d, i, done) \<Rightarrow>
     if c \<in> {CHR ''x'', CHR ''y''} then
       (let r = uuid_draw d (rnd i) in
        (js_floor (js_div d (Fin 16)), Suc i, done @ [hex_digit (if c = CHR ''x'' then r else (r AND 3) OR 8)]))
     else (d, i, done @ [c]))"

definition dist_generateUUID :: "nat \<Rightarrow> (nat \<Rightarrow> rat) \<Rightarrow> string" where
  "dist_generateUUID now rnd = snd (snd (foldl (dist_uuid_callback rnd) (Fin (of_nat now), 0, [])
     ''xxxxxxxx-xxxx-4xxx-yxxx-xxxxxxxxxxxx''))"

definition dist_randomInt :: "rat \<Rightarrow> jsnum \<Rightarrow> jsnum \<Rightarrow> jsnum" where
  "dist_randomInt rnd low high = js_floor (js_add (js_mul (Fin rnd) (js_sub high low)) low)"

section \<open>The class\<close>

definition dist_Agent :: "string \<Rightarrow> string \<Rightarrow> string \<Rightarrow> agent \<times> effect list" where
  "dist_Agent user pass own =
     (let this = \<lparr>applicationLogLevel = dist_level ''Information'', turnUser = user, turnPass = pass, ownId = own,
            servingAreaName = ''XY'', isAccessAgent = True, brokerUrl = ''http://localhost:8667'',
            restPort = ''10000'', ownIp = '''', TURNPort = 3478, nodeTimeout = 100, isRegisteredAtBroker = True,
            registerTimeout = 1000 * 5000, registerAttempts = 0, unsuccessfulRegisterTimeout = 5 * 1000,
            probingTimeout = 5 * 1000, maxProbes = 10, showStateTimeout = 10 * 1000,
            turnAgentList = [''127.0.0.1:20000'', ''127.0.0.1:20001'', ''127.0.0.1:20002'', ''127.0.0.1:20003'',
              ''127.0.0.1:20004'', ''127.0.0.1:20005'', ''127.0.0.1:20006'', ''127.0.0.1:20007'', ''127.0.0.1:20008''],
            turnProbes = []\<rparr>
      in (this, dist_log this (dist_level ''Information'') (''Running Agent: '' @ own)))"

definition dist_startREST :: "agent \<Rightarrow> effect list" where
  "dist_startREST this =
     (if isAccessAgent this
      then dist_log this (dist_level ''Debug'') ''Running as Access Agent Service, no REST Interface will be started''
      else dist_log this (dist_level ''Debug'') ''Starting the REST Interface for TURN Agents'' @ [Listen (restPort this)]
        @ dist_log this (dist_level ''Debug'') (''Running Agent at HTTP/REST Port: '' @ restPort this))"

definition dist_ping_handler :: "agent \<Rightarrow> string \<Rightarrow> string \<Rightarrow> nat \<times> jsval" where
  "dist_ping_handler this requestingAgent reqTimestamp =
     (let (responeJSON, statusCode) =
        (if \<not> js_isNaN reqTimestamp
         then (JObj [(''reqTimestamp'', JStr reqTimestamp), (''agentId'', JStr (ownId this)), (''pingpong'', JStr ''pong'')], 200)
         else (JObj [(''error'', JStr ''Timestamp is not set.'')], 400))
      in (statusCode, responeJSON))"

text \<open>A missing argument and an empty one are both false.\<close>

definition arg_true :: "string option \<Rightarrow> bool" where
  "arg_true x = (x \<noteq> None \<and> x \<noteq> Some '''')"

definition dist_initialize :: "string option \<Rightarrow> string option \<Rightarrow> string option \<Rightarrow> agent \<Rightarrow> agent \<times> effect list" where
  "dist_initialize argv2 argv3 argv4 this =
     (let out1 = dist_log this (dist_level ''Debug'') (''Using the following IP Address: '' @ opt_str argv2);
          this1 = (if arg_true argv2 then this\<lparr>ownIp := the argv2\<rparr> else this);
          out2 = dist_log this1 (dist_level ''Debug'') (''Using the following port: '' @ opt_str argv3);
          this2 = (if arg_true argv3 \<and> \<not> js_isNaN (the argv3) then this1\<lparr>restPort := the argv3\<rparr> else this1);
          out3 = dist_log this2 (dist_level ''Debug'') (''Agent type: '' @ opt_str argv4);
          this3 = (if arg_true argv4 \<and> the argv4 = ''access'' then this2\<lparr>isAccessAgent := True\<rparr> else this2\<lparr>isAccessAgent := False\<rparr>)
      in (this3, out1 @ out2 @ out3 @ dist_startREST this3))"

definition dist_registerAtBroker :: "agent \<Rightarrow> effect list" where
  "dist_registerAtBroker this =
     dist_log this (dist_level ''Debug'') (''Registering at Broker '' @ brokerUrl this @ ''/turn-servers-management/register/'')
     @ [PostRegister (brokerUrl this @ ''/turn-servers-management/register/'')
          (JObj [(''agentAddress'', JStr (ownIp this @ '':'' @ restPort this)), (''servingArea'', JUndef),
                 (''action'', JStr ''register''), (''isAccessAgent'', JBool (isAccessAgent this))])]"

text \<open>The callbacks of the request are functions of strict code, whose \<open>this\<close> is undefined: they throw at
  the first use of it.\<close>

definition dist_on_register_response :: "agent \<Rightarrow> (jsval, jsval) promise \<Rightarrow> agent \<times> effect list" where
  "dist_on_register_response this r = (case r of
     Fulfilled response \<Rightarrow> (this, [Console (''The level debug: '' @ nat_to_base 10 (dist_level ''Debug''))])
   | Rejected err \<Rightarrow> (this, [])
   | Unsettled \<Rightarrow> (this, []))"

definition dist_callRemoteAgent :: "agent \<Rightarrow> string \<Rightarrow> nat \<Rightarrow> effect list" where
  "dist_callRemoteAgent this host now =
     dist_log this (dist_level ''Debug'') ('' _callRemoteAgent: Calling the remote agent http://'' @ host @ ''/performance/ping/''
       @ servingAreaName this @ ''/'' @ nat_to_base 10 now)
     @ [GetPing (''http://'' @ host @ ''/performance/ping/'' @ ownId this @ ''/'' @ nat_to_base 10 now)]"

text \<open>\<open>for (var i = 0; i < this.turnAgentList.length; i++)\<close>\<close>

function dist_probe_from :: "agent \<Rightarrow> nat \<Rightarrow> nat \<Rightarrow> effect list" where
  "dist_probe_from this now i = (if i < length (turnAgentList this)
     then dist_callRemoteAgent this (turnAgentList this ! i) now @ dist_probe_from this now (Suc i) else [])"
  by pat_completeness auto
termination
  by (relation "measure (\<lambda>(this, now, i). length (turnAgentList this) - i)") auto

declare dist_probe_from.simps [simp del]

definition dist_runProbing :: "agent \<Rightarrow> nat \<Rightarrow> effect list" where
  "dist_runProbing this now = dist_probe_from this now 0"

text \<open>The sum of the probes from an index on.\<close>

function dist_sum_from :: "jsnum list \<Rightarrow> nat \<Rightarrow> jsnum \<Rightarrow> jsnum" where
  "dist_sum_from ps i m = (if i < length ps then dist_sum_from ps (Suc i) (js_add m (ps ! i)) else m)"
  by pat_completeness auto
termination
  by (relation "measure (\<lambda>(ps, i, m). length ps - i)") auto

declare dist_sum_from.simps [simp del]

definition dist_storeProbe :: "agent \<Rightarrow> string \<Rightarrow> string \<Rightarrow> jsnum \<Rightarrow> int \<Rightarrow> agent" where
  "dist_storeProbe this agentId host calc time =
     (case known_probes this agentId of
        None \<Rightarrow> this\<lparr>turnProbes := AList.update agentId
          \<lparr>agentAddress = host, lastProbes = [calc], meanProbes = JArr [JNum calc], lastSeen = time\<rparr> (turnProbes this)\<rparr>
      | Some stored \<Rightarrow>
          (let probes = (case stored of None \<Rightarrow> [calc]
                 | Some xs \<Rightarrow> (let xs1 = (if length xs > maxProbes this then tl xs else xs) in xs1 @ [calc]));
               mean = js_div (dist_sum_from probes 0 (Fin 0)) (Fin (of_nat (length probes)))
           in this\<lparr>turnProbes := AList.update agentId
             \<lparr>agentAddress = host, lastProbes = probes, meanProbes = JNum (js_parseInt_num mean), lastSeen = time\<rparr> (turnProbes this)\<rparr>))"

definition dist_on_ping_response :: "agent \<Rightarrow> string \<Rightarrow> jsval \<Rightarrow> nat \<Rightarrow> int \<Rightarrow> agent \<times> effect list" where
  "dist_on_ping_response this host body now time =
     (case js_get body ''reqTimestamp'' of
        None \<Rightarrow> (this, [])
      | Some ts \<Rightarrow>
          (let calc = js_round (js_div (js_sub (Fin (of_nat now)) (js_parseInt (to_string_val ts))) (Fin 1000)) in
           case js_get body ''agentId'' of
             None \<Rightarrow> (this, [])
           | Some v \<Rightarrow>
               (let agentId = to_string_val v in
                (dist_storeProbe this agentId host calc time,
                 dist_log this (dist_level ''Debug'') ('' _callRemoteAgent ['' @ host @ '', '' @ agentId @ ''] Response received,  RTT: '' @ js_to_string calc @ ''ms'')
                 @ dist_log this (dist_level ''Debug'') ('' _storeProbe: storing the current probe '' @ agentId @ '', '' @ host @ '', '' @ js_to_string calc)))))"

text \<open>\<open>for (var entry in this.turnProbes)\<close>\<close>

fun dist_report :: "agent \<Rightarrow> int \<Rightarrow> (string \<times> probe) list \<Rightarrow> effect list" where
  "dist_report this now [] = []"
| "dist_report this now ((entry, p) # rest) =
     (let seen = js_parseInt_num (js_div (Fin (of_int (now - lastSeen p))) (Fin 1000)) in
      dist_log this (dist_level ''Information'') (entry @ [CHR 0x09] @ agentAddress p @ [CHR 0x09] @ ''~'' @ to_string_val (meanProbes p)
        @ ''ms'' @ [CHR 0x09] @ ''last seen before '' @ js_to_string seen @ ''s''))
     @ dist_report this now rest"

definition dist_statusReport :: "agent \<Rightarrow> int \<Rightarrow> effect list" where
  "dist_statusReport this now = dist_log this (dist_level ''Information'') ''Current stored TURN Agents''
     @ dist_report this now (turnProbes this) @ dist_log this (dist_level ''Information'') ''--------------------------''"

definition dist_runWatchDogs :: "agent \<Rightarrow> timer list \<times> effect list" where
  "dist_runWatchDogs this =
     (let out0 = dist_log this (dist_level ''Debug'') ''_runWatchDogs called'' in
      if isRegisteredAtBroker this then
        (let out1 = dist_log this (dist_level ''Debug'') ''Agent is registered at broker, setting timeout for re-registration'';
             ts = [Once ReRegister (registerTimeout this)]
         in if isAccessAgent this
            then (ts @ [Every RunProbing (probingTimeout this)] @ [Every StatusReport (showStateTimeout this)], out0 @ out1)
            else (ts, out0 @ out1))
      else (let out1 = dist_registerAtBroker this in ([Once RunWatchDogs (unsuccessfulRegisterTimeout this)], out0 @ out1)))"

fun dist_fire :: "timer_action \<Rightarrow> agent \<Rightarrow> nat \<Rightarrow> agent \<times> timer list \<times> effect list" where
  "dist_fire ReRegister this now = (let this1 = this\<lparr>isRegisteredAtBroker := False\<rparr> in (this1, [], dist_registerAtBroker this1))"
| "dist_fire RunProbing this now = (this, [], dist_runProbing this now)"
| "dist_fire StatusReport this now = (this, [], dist_statusReport this (int now))"
| "dist_fire RunWatchDogs this now = (case dist_runWatchDogs this of (ts, es) \<Rightarrow> (this, ts, es))"

text \<open>Module 14: construct, initialize, start.\<close>

definition dist_main :: "string \<Rightarrow> string \<Rightarrow> string \<Rightarrow> string option \<Rightarrow> string option \<Rightarrow> string option \<Rightarrow> run_state" where
  "dist_main user pass own argv2 argv3 argv4 =
     (case dist_Agent user pass own of (a0, out0) \<Rightarrow>
      case dist_initialize argv2 argv3 argv4 a0 of (a1, out1) \<Rightarrow>
      case dist_runWatchDogs a1 of (ts, out2) \<Rightarrow> \<lparr>ag = a1, pending = ts, out = out0 @ out1 @ out2\<rparr>)"

inductive dist_step :: "run_state \<Rightarrow> run_state \<Rightarrow> bool" where
  "i < length (pending s) \<Longrightarrow> pending s ! i = Once t ms \<Longrightarrow> dist_fire t (ag s) now = (a', ts, es) \<Longrightarrow>
    dist_step s \<lparr>ag = a', pending = take i (pending s) @ drop (Suc i) (pending s) @ ts, out = out s @ es\<rparr>"
| "i < length (pending s) \<Longrightarrow> pending s ! i = Every t ms \<Longrightarrow> dist_fire t (ag s) now = (a', ts, es) \<Longrightarrow>
    dist_step s \<lparr>ag = a', pending = pending s @ ts, out = out s @ es\<rparr>"
| "dist_on_register_response (ag s) r = (a', es) \<Longrightarrow> dist_step s (s\<lparr>ag := a', out := out s @ es\<rparr>)"
| "dist_on_ping_response (ag s) host body now time = (a', es) \<Longrightarrow> dist_step s (s\<lparr>ag := a', out := out s @ es\<rparr>)"

section \<open>The bundle does what the source does\<close>

named_theorems dist "operations of the bundle as those of the source"

lemma dist_levels [dist]: "dist_level ''Debug'' = level_Debug" "dist_level ''Information'' = level_Information"
  "dist_level ''Warning'' = level_Warning" "dist_level ''Error'' = level_Error" "dist_level ''Fatal'' = level_Fatal"
  by (simp_all add: dist_level_def level_json_def level_Debug_def level_Information_def level_Warning_def level_Error_def level_Fatal_def)

lemma dist_validate [dist]: "dist_validate = validate"
  by (auto simp: fun_eq_iff dist_validate_def validate_def Let_def split: option.split)

lemma dist_log [dist]: "dist_log = log_msg"
  by (simp add: fun_eq_iff dist_log_def log_msg_def log_line_def dist Let_def)

lemma dist_uuid_callbacks:
  "snd (snd (foldl (dist_uuid_callback rnd) (d, i, done) ts)) = done @ uuid_from d rnd i ts"
  by (induction ts arbitrary: d i "done") (simp_all add: dist_uuid_callback_def Let_def)

lemma dist_generateUUID [dist]: "dist_generateUUID = generateUUID"
  by (simp add: fun_eq_iff dist_generateUUID_def generateUUID_def uuid_template_def dist_uuid_callbacks del: foldl_Cons)

lemma dist_randomInt [dist]: "dist_randomInt = randomInt"
  by (simp add: fun_eq_iff dist_randomInt_def randomInt_def)

lemma dist_Agent [dist]:
  "dist_Agent user pass own = (new_Agent user pass own, log_msg (new_Agent user pass own) level_Information (''Running Agent: '' @ own))"
  by (simp add: dist_Agent_def new_Agent_def default_agents_def dist Let_def)

lemma dist_startREST [dist]: "dist_startREST = startREST" "dist_ping_handler = ping_handler"
  by (simp_all add: fun_eq_iff dist_startREST_def startREST_def dist_ping_handler_def ping_handler_def dist)

lemma arg_cases:
  "(if arg_true x then f (the x) else y) = (case x of Some s \<Rightarrow> if s \<noteq> [] then f s else y | None \<Rightarrow> y)"
  "(if arg_true x \<and> P (the x) then f (the x) else y) = (case x of Some s \<Rightarrow> if s \<noteq> [] \<and> P s then f s else y | None \<Rightarrow> y)"
  by (cases x; simp add: arg_true_def)+

lemma arg_access:
  "(if arg_true x \<and> the x = ''access'' then a\<lparr>isAccessAgent := True\<rparr> else a\<lparr>isAccessAgent := False\<rparr>)
   = a\<lparr>isAccessAgent := (x = Some ''access'')\<rparr>"
  by (cases x) (auto simp: arg_true_def)

lemma dist_initialize [dist]: "dist_initialize argv2 argv3 argv4 a = initialize argv2 argv3 argv4 a"
  unfolding dist_initialize_def initialize_def dist arg_access
    arg_cases(1)[where f = "\<lambda>s. a\<lparr>ownIp := s\<rparr>"]
    arg_cases(2)[where P = "\<lambda>s. \<not> js_isNaN s" and f = "\<lambda>s. (b :: agent)\<lparr>restPort := s\<rparr>" for b]
  by (rule refl)

lemma dist_registerAtBroker [dist]: "dist_registerAtBroker = registerAtBroker" "dist_on_register_response = on_register_response"
  by (simp_all add: fun_eq_iff dist_registerAtBroker_def registerAtBroker_def register_url_def dist
      dist_on_register_response_def on_register_response_def split: promise.split)

lemma dist_callRemoteAgent [dist]: "dist_callRemoteAgent = callRemoteAgent"
  by (simp add: fun_eq_iff dist_callRemoteAgent_def callRemoteAgent_def ping_url_def dist)

lemma dist_probe_from: "dist_probe_from a now i = concat (map (\<lambda>h. callRemoteAgent a h now) (drop i (turnAgentList a)))"
proof (induction a now i rule: dist_probe_from.induct)
  case (1 a now i)
  then show ?case by (subst dist_probe_from.simps) (auto simp: dist Cons_nth_drop_Suc[symmetric])
qed

lemma dist_runProbing [dist]: "dist_runProbing = runProbing"
  by (simp add: fun_eq_iff dist_runProbing_def runProbing_def dist_probe_from)

lemma dist_sum_from: "dist_sum_from ps i m = foldl js_add m (drop i ps)"
proof (induction ps i m rule: dist_sum_from.induct)
  case (1 ps i m)
  then show ?case by (subst dist_sum_from.simps) (auto simp: Cons_nth_drop_Suc[symmetric])
qed

lemma dist_storeProbe [dist]: "dist_storeProbe = storeProbe"
  by (simp add: fun_eq_iff dist_storeProbe_def storeProbe_def push_probe_def mean_probes_def dist_sum_from drop_Suc Let_def
      split: option.split)

lemma dist_on_ping_response [dist]: "dist_on_ping_response = on_ping_response"
  by (simp add: fun_eq_iff dist_on_ping_response_def on_ping_response_def rtt_def dist Let_def split: option.split)

lemma dist_report: "dist_report a now ps = concat (map (status_line a now) ps)"
  by (induction a now ps rule: dist_report.induct) (simp_all add: status_line_def dist Let_def)

lemma dist_statusReport [dist]: "dist_statusReport = statusReport"
  by (simp add: fun_eq_iff dist_statusReport_def statusReport_def dist_report dist)

lemma dist_runWatchDogs [dist]: "dist_runWatchDogs = runWatchDogs"
  by (simp add: fun_eq_iff dist_runWatchDogs_def runWatchDogs_def dist Let_def)

lemma dist_fire [dist]: "dist_fire t a now = fire t a now"
  by (cases t) (simp_all add: fire_def dist case_prod_beta)

lemma dist_main [dist]: "dist_main = main_program"
  by (simp add: fun_eq_iff dist_main_def main_program_def dist Let_def)

lemma dist_step [dist]: "dist_step = agent_step"
proof (intro ext iffI)
  show "agent_step s t" if "dist_step s t" for s t
    using that by cases (auto simp: dist intro: agent_step.intros)
  show "dist_step s t" if "agent_step s t" for s t
    using that by cases (auto simp: dist intro: dist_step.intros)
qed

section \<open>The loader ends\<close>

definition not_loaded :: "modules \<Rightarrow> load_state \<Rightarrow> nat set" where
  "not_loaded t st = fst ` set t - set (cache st)"

text \<open>What loading does to the cache: nothing leaves it, nothing enters it twice.\<close>

definition loads :: "load_state \<Rightarrow> load_state option \<Rightarrow> bool" where
  "loads st r = (\<exists>st'. r = Some st' \<and> set (cache st) \<subseteq> set (cache st') \<and> distinct (cache st'))"

lemma not_loaded_mono: "set (cache st) \<subseteq> set (cache st') \<Longrightarrow> card (not_loaded t st') \<le> card (not_loaded t st)"
  by (intro card_mono) (auto simp: not_loaded_def)

lemma not_loaded_cons:
  assumes "map_of t k = Some md" and "k \<notin> set (cache st)"
  shows "card (not_loaded t (st\<lparr>cache := k # cache st\<rparr>)) < card (not_loaded t st)"
proof (intro psubset_card_mono psubsetI)
  have "k \<in> fst ` set t" using map_of_SomeD[OF assms(1)] by force
  then show "not_loaded t (st\<lparr>cache := k # cache st\<rparr>) \<noteq> not_loaded t st" using assms(2) by (auto simp: not_loaded_def)
qed (auto simp: not_loaded_def)

lemma load_names_step:
  assumes "loads st r" and "\<And>st'. r = Some st' \<Longrightarrow> loads st' (f st')"
  shows "loads st (case r of None \<Rightarrow> None | Some st' \<Rightarrow> f st')"
  using assms by (fastforce simp: loads_def)

lemma load_ends:
  "card (not_loaded t st) < fuel \<Longrightarrow> distinct (cache st) \<Longrightarrow> loads st (load_module fuel t k st)"
  "card (not_loaded t st) < fuel \<Longrightarrow> distinct (cache st) \<Longrightarrow> loads st (load_names fuel t tab rs st)"
proof (induction fuel t k st and fuel t tab rs st rule: load_module_load_names.induct)
  case (1 fuel t k st)
  show ?case
  proof (cases "k \<in> set (cache st)")
    case False
    obtain n where n: "fuel = Suc n" using 1(2) by (cases fuel) auto
    show ?thesis
    proof (cases "map_of t k")
      case (Some md)
      have "loads (st\<lparr>cache := k # cache st\<rparr>) (load_names n t (m_table md) (m_requires md) (st\<lparr>cache := k # cache st\<rparr>))"
        using 1 False n Some not_loaded_cons[OF Some False] by (intro 1(1)) auto
      then show ?thesis using False n Some by (auto simp: loads_def)
    qed (use False n 1 in \<open>simp add: loads_def\<close>)
  qed (use 1 in \<open>simp add: loads_def\<close>)
next
  case (3 fuel t tab r rs st)
  have a: "loads st (case map_of tab r of Some k \<Rightarrow> load_module fuel t k st | None \<Rightarrow> Some (st\<lparr>external := external st @ [r]\<rparr>))"
    using 3 by (auto simp: loads_def split: option.split)
  show ?case unfolding load_names.simps
  proof (rule load_names_step[OF a])
    fix st'
    assume r: "(case map_of tab r of Some k \<Rightarrow> load_module fuel t k st | None \<Rightarrow> Some (st\<lparr>external := external st @ [r]\<rparr>)) = Some st'"
    then have "set (cache st) \<subseteq> set (cache st')" "distinct (cache st')" using a by (simp_all add: loads_def)
    then show "loads st' (load_names fuel t tab rs st')"
      using not_loaded_mono[of st st' t] 3(3) by (intro 3(2)[OF r]) simp_all
  qed
qed (simp add: loads_def)

lemma load_bundle_ends: "\<exists>st. load_bundle t ks = Some st \<and> distinct (cache st)"
proof (induction ks rule: rev_induct)
  case (snoc k ks)
  then obtain st where st: "load_bundle t ks = Some st" "distinct (cache st)" by blast
  have "card (not_loaded t st) \<le> card (fst ` set t)" by (intro card_mono) (auto simp: not_loaded_def)
  also have "\<dots> \<le> length t" using card_image_le[of "set t" fst] card_length[of t] by simp
  finally have "loads st (load_module (Suc (length t)) t k st)" by (intro load_ends(1) st(2)) simp
  then show ?case using st(1) by (auto simp: load_bundle_def loads_def)
qed (simp add: load_bundle_def)

section \<open>Properties of the bundle\<close>

text \<open>
  The loader ends on every table of modules, also when modules require each other, and evaluates no
  module twice.
\<close>

theorem loader_terminates: "\<exists>st. load_bundle t entries = Some st \<and> distinct (cache st)"
  by (rule load_bundle_ends)


end
