(* ===== verification/Agent_Build.thy ===== *)
theory Agent_Build
  imports Agent_Bundle
begin

text \<open>
  The build file of the agent, \<^verbatim>\<open>agent/gulpfile.js\<close>: its variables, its tasks with their dependencies and
  shell commands, and what the task \<open>start\<close> makes of the options of the command line.  Gulp, the shell
  and the parser of the options are not part of the repository: the options are a function from names to
  values, and of the shell only the splitting of a command into words is used.
\<close>

section \<open>Variables of the file\<close>

datatype gval = FunctionVal string | ObjectVal string

text \<open>The statements assign from top to bottom, before any task runs.\<close>

definition gulp_assignments :: "(string \<times> gval) list" where
  "gulp_assignments = [(''gulp'', ObjectVal ''gulp''), (''exec'', FunctionVal ''child_process.exec''), (''shell'', FunctionVal ''gulp-shell''),
     (''util'', ObjectVal ''gulp-util''), (''babel'', FunctionVal ''babelify''), (''browserify'', FunctionVal ''browserify''),
     (''source'', FunctionVal ''vinyl-source-stream''), (''exec'', ObjectVal ''child_process'')]"

definition gulp_vars :: "string \<rightharpoonup> gval" where
  "gulp_vars = foldl (\<lambda>m (n, v). m(n \<mapsto> v)) Map.empty gulp_assignments"

text \<open>A call of a variable.\<close>

definition call_var :: "string \<Rightarrow> string + string" where
  "call_var n = (case gulp_vars n of Some (FunctionVal f) \<Rightarrow> Inr f | _ \<Rightarrow> Inl ''TypeError'')"

definition doc_alt :: "string list \<times> (string + string)" where
  "doc_alt = ([''Generating documentation... (this exec stuff does not really work)''], call_var ''exec'')"

section \<open>Tasks\<close>

type_synonym options = "string \<Rightarrow> jsval"

text \<open>Shell commands, with whether their errors are ignored; code that writes lines to the console; or the bundling of
  an entry without the excluded names, to a file of a directory.\<close>

datatype task_action = Shell "string list" bool | Code "string list" | Bundle string "string list" string string

record gulp_task =
  t_name :: string
  t_deps :: "string list"
  t_action :: task_action

definition excluded :: "string list" where
  "excluded = [''express'', ''requestify'', ''microtime'', ''http'', ''process'', ''body-parser'']"

definition dist_commands :: "string list" where
  "dist_commands = [''mkdir -p dist'', ''cd ./dist && mkdir -p node_modules'',
     ''cd ./dist/node_modules && ln -s -f ../../node_modules/promise'', ''cd ./dist/node_modules && ln -s -f ../../node_modules/url'',
     ''cd ./dist/node_modules && ln -s -f ../../node_modules/websocket'', ''cd ./dist/node_modules && ln -s -f ../../node_modules/express'']"

definition start_command :: "options \<Rightarrow> string" where
  "start_command env = ''cd dist && node qosbroker-agent.js '' @ to_string_val (env ''address'') @ '' ''
     @ to_string_val (env ''port'') @ '' '' @ to_string_val (env ''type'')"

definition start_commands :: "options \<Rightarrow> string list" where
  "start_commands env = [''sleep 1'', start_command env]"

definition test_commands :: "string list" where
  "test_commands = [''screen -dmS a1 gulp start --address 127.0.0.1 --port 10000 --type access'']"

definition stoptest_commands :: "string list" where
  "stoptest_commands = [''screen -X -S \"agent1\" quit'', ''screen -X -S \"agent2\" quit'', ''screen -X -S \"agent3\" quit'',
     ''screen -X -S \"qosbroker\" quit'']"

definition help_line :: "string \<Rightarrow> string \<Rightarrow> string" where
  "help_line usage what = ''gulp'' @ '' '' @ usage @ [CHR 0x09, CHR 0x09] @ what @ [CHR 0x0A]"

definition help_lines :: "string list" where
  "help_lines = [[CHR 0x0A] @ ''The following gulp tasks are available:'' @ [CHR 0x0A],
     help_line ''help'' ''# show this help'',
     help_line ''doc'' ''# generates documentation in docs folder'',
     help_line ''build'' ''# transpile and bundle the Qos Broker Agent Sources'',
     help_line ''dist'' ''# creates dist folder with transpiled code (depends on build)'',
     help_line ''start --address [address] --port [port] --type [access|turn]'' ''# starts the QoSBroker Agent from dist folder (depends on dist)'',
     help_line ''test'' ''# executes the test cases'']"

definition gulp_tasks :: "options \<Rightarrow> gulp_task list" where
  "gulp_tasks env =
     [\<lparr>t_name = ''doc_alt'', t_deps = [], t_action = Code (fst doc_alt)\<rparr>,
      \<lparr>t_name = ''doc'', t_deps = [], t_action = Shell [''node_modules/.bin/jsdoc -R README.md -d docs src/**''] False\<rparr>,
      \<lparr>t_name = ''build'', t_deps = [], t_action = Bundle ''./src/main.js'' excluded ''qosbroker-agent.js'' ''./dist''\<rparr>,
      \<lparr>t_name = ''dist'', t_deps = [''build''], t_action = Shell dist_commands False\<rparr>,
      \<lparr>t_name = ''start'', t_deps = [''dist''], t_action = Shell (start_commands env) False\<rparr>,
      \<lparr>t_name = ''test'', t_deps = [''stoptest'', ''dist''], t_action = Shell test_commands False\<rparr>,
      \<lparr>t_name = ''stoptest'', t_deps = [], t_action = Shell stoptest_commands True\<rparr>,
      \<lparr>t_name = ''default'', t_deps = [''help''], t_action = Shell [] False\<rparr>,
      \<lparr>t_name = ''help'', t_deps = [], t_action = Code help_lines\<rparr>]"

section \<open>Starting an agent\<close>

text \<open>The words of a command without quotes or other characters that the shell treats specially.\<close>

definition shell_words :: "string \<Rightarrow> string list" where
  "shell_words s = filter (\<lambda>w. w \<noteq> []) (js_split s '' '')"

text \<open>\<open>process.argv\<close> from its third element on: the words after the script.\<close>

definition node_args :: "string \<Rightarrow> string list" where
  "node_args command = drop 2 (dropWhile (\<lambda>w. w \<noteq> ''node'') (shell_words command))"

definition gulp_start :: "options \<Rightarrow> string \<Rightarrow> string \<Rightarrow> string \<Rightarrow> run_state" where
  "gulp_start env user pass own = (let xs = node_args (start_command env) in
     dist_main user pass own (js_nth xs 0) (js_nth xs 1) (js_nth xs 2))"

text \<open>Letters, digits and the characters 45, 46, 58 and 95, which are dash, dot, colon and underscore.\<close>

definition plain_char :: "char \<Rightarrow> bool" where
  "plain_char c = (let n = of_char c :: nat in
     n \<in> {45, 46, 58, 95} \<or> (48 \<le> n \<and> n \<le> 57) \<or> (65 \<le> n \<and> n \<le> 90) \<or> (97 \<le> n \<and> n \<le> 122))"

definition plain_word :: "string \<Rightarrow> bool" where
  "plain_word s = (s \<noteq> [] \<and> list_all plain_char s)"

lemma plain_no_space: "plain_word s \<Longrightarrow> CHR '' '' \<notin> set s"
proof -
  have "\<not> plain_char (CHR '' '')" by (simp add: plain_char_def)
  then show "plain_word s \<Longrightarrow> CHR '' '' \<notin> set s" by (auto simp: plain_word_def list_all_iff)
qed

lemma js_split_space: "CHR '' '' \<notin> set s \<Longrightarrow> js_split (s @ '' '' @ t) '' '' = s # js_split t '' ''"
  using js_split_cons[of "CHR '' ''" s t] by simp

lemma command_words:
  assumes "plain_word a" and "plain_word p" and "plain_word t"
  shows "js_split (''cd dist && node qosbroker-agent.js '' @ a @ '' '' @ p @ '' '' @ t) '' '' =
    [''cd'', ''dist'', ''&&'', ''node'', ''qosbroker-agent.js'', a, p, t]"
proof -
  have r: "js_split (a @ '' '' @ p @ '' '' @ t) '' '' = [a, p, t]"
    using assms[THEN plain_no_space] by (simp add: js_split_space js_split_free del: append.simps append_Cons)
  have "''cd dist && node qosbroker-agent.js '' @ xs = ''cd'' @ '' '' @ ''dist'' @ '' '' @ ''&&'' @ '' '' @ ''node'' @ '' '' @ ''qosbroker-agent.js'' @ '' '' @ xs" for xs
    by simp
  moreover have "js_split (''cd'' @ '' '' @ ''dist'' @ '' '' @ ''&&'' @ '' '' @ ''node'' @ '' '' @ ''qosbroker-agent.js'' @ '' '' @ xs) '' ''
      = [''cd'', ''dist'', ''&&'', ''node'', ''qosbroker-agent.js''] @ js_split xs '' ''" for xs
    by (simp add: js_split_space del: append.simps append_Cons)
  ultimately show ?thesis using r by simp
qed

lemma node_args_start:
  assumes "plain_word (to_string_val (env ''address''))" and "plain_word (to_string_val (env ''port''))"
    and "plain_word (to_string_val (env ''type''))"
  shows "node_args (start_command env) = [to_string_val (env ''address''), to_string_val (env ''port''), to_string_val (env ''type'')]"
  using assms command_words[OF assms] by (simp add: node_args_def shell_words_def start_command_def plain_word_def)

lemma initialize_fields:
  "ownIp (fst (initialize (Some a) (Some p) (Some t) g)) = (if a = [] then ownIp g else a)"
  "restPort (fst (initialize (Some a) (Some p) (Some t) g)) = (if p = [] \<or> js_isNaN p then restPort g else p)"
  "isAccessAgent (fst (initialize (Some a) (Some p) (Some t) g)) = (t = ''access'')"
  by (simp_all add: initialize_def Let_def)

lemma main_agent: "ag (main_program user pass own x y z) = fst (initialize x y z (new_Agent user pass own))"
  by (simp add: main_program_def case_prod_beta Let_def)

section \<open>Properties of the build\<close>

text \<open>
  Starting an agent through the build: the agent that the bundle runs has the address of the option, its
  port when that is a number and the default port otherwise, and is an access agent exactly when the
  type is \<open>access\<close>; a missing option counts as the text \<open>undefined\<close>.
\<close>

theorem gulp_start_configures:
  assumes "plain_word (to_string_val (env ''address''))" and "plain_word (to_string_val (env ''port''))"
    and "plain_word (to_string_val (env ''type''))"
  shows "ownIp (ag (gulp_start env user pass own)) = to_string_val (env ''address'')
    \<and> restPort (ag (gulp_start env user pass own)) = (if js_isNaN (to_string_val (env ''port'')) then ''10000'' else to_string_val (env ''port''))
    \<and> isAccessAgent (ag (gulp_start env user pass own)) = (to_string_val (env ''type'') = ''access'')"
proof -
  have "ag (gulp_start env user pass own) = fst (initialize (Some (to_string_val (env ''address''))) (Some (to_string_val (env ''port'')))
      (Some (to_string_val (env ''type''))) (new_Agent user pass own))"
    by (simp add: gulp_start_def node_args_start[OF assms] dist main_agent Let_def)
  then show ?thesis using assms by (simp add: initialize_fields plain_word_def) (simp add: new_Agent_def)
qed

theorem gulp_start_configures_witness:
  "ownIp (ag (gulp_start (\<lambda>_. JUndef) ''u'' ''p'' ''me'')) = ''undefined''
   \<and> restPort (ag (gulp_start (\<lambda>_. JUndef) ''u'' ''p'' ''me'')) = ''10000''
   \<and> \<not> isAccessAgent (ag (gulp_start (\<lambda>_. JUndef) ''u'' ''p'' ''me''))"
proof -
  have "plain_word ''undefined''" by code_simp
  moreover have "js_isNaN ''undefined''" by code_simp
  ultimately show ?thesis using gulp_start_configures[of "\<lambda>_. JUndef" "''u''" "''p''" "''me''"] by simp
qed

text \<open>
  The names that the bundle leaves to Node are exactly those that the build excludes and a module requires, and
  every dependency of a task is a task.
\<close>

theorem build_matches_bundle:
  "map_option (set \<circ> external) (load_bundle agent_bundle [14])
     = Some (set excluded \<inter> (\<Union>(k, md) \<in> set agent_bundle. set (m_requires md)))
   \<and> list_all (\<lambda>t. list_all (\<lambda>d. d \<in> t_name ` set (gulp_tasks env)) (t_deps t)) (gulp_tasks env)"
proof -
  have "map_option (set \<circ> external) (load_bundle agent_bundle [14])
     = Some (set excluded \<inter> (\<Union>(k, md) \<in> set agent_bundle. set (m_requires md)))"
    by code_simp
  moreover have "list_all (\<lambda>t. list_all (\<lambda>d. d \<in> t_name ` set (gulp_tasks env)) (t_deps t)) (gulp_tasks env)"
    by (simp add: gulp_tasks_def)
  ultimately show ?thesis ..
qed

text \<open>
  The task \<open>doc_alt\<close> throws: the second declaration of \<open>exec\<close> replaces the function by the module.
\<close>

theorem doc_alt_throws: "snd doc_alt = Inl ''TypeError''"
  by code_simp

end
