(* ===== verification/Agent_Broker.thy ===== *)
theory Agent_Broker
  imports Agent_Build Broker_Routes
begin

text \<open>
  The agent against the broker of the repository: the registration that \<open>QoS_Agent\<close> sends, as a request to
  \<open>Broker_Routes\<close>.
\<close>

text \<open>The path is what follows the address of the broker; the fields of the body are \<open>params_of\<close>.\<close>

definition registration_request :: "agent \<Rightarrow> (string \<rightharpoonup> string) \<Rightarrow> effect \<Rightarrow> request option" where
  "registration_request a params_of eff = (case eff of
     PostRegister url body \<Rightarrow> Some \<lparr>rmethod = POST, rpath = drop (length (brokerUrl a)) url, query = Map.empty,
       form = params_of, authorization = None\<rparr>
   | _ \<Rightarrow> None)"

lemma agent_registers: "\<exists>b. PostRegister (register_url a) b \<in> set (registerAtBroker a)"
  unfolding registerAtBroker_def by (intro exI) (rule UnI2[THEN set_append[THEN equalityD2, THEN subsetD]], simp)

lemma no_register_route:
  assumes "rmethod req = POST" and "rpath req = ''/turn-servers-management/register/''"
  shows "routes e req = not_found"
proof -
  have "\<not> at_path req ''/provRequest''" unfolding at_path_def assms(2) by code_simp
  then show ?thesis using assms(1) by (simp add: routes_def)
qed

text \<open>
  The broker has no route for the registration of an agent: every request that an agent sends to
  register is answered 404, and the databases stay as they were.
\<close>

theorem registration_not_served:
  assumes "eff \<in> set (registerAtBroker a)" and "registration_request a params_of eff = Some req" and "static req = None"
  shows "fst (serve_action (app static e req) ex d) = d
    \<and> map_option status (snd (serve_action (app static e req) ex d)) = Some 404"
proof -
  have "\<nexists>u b. PostRegister u b \<in> set (log_msg a l m)" for l m
    by (auto simp: log_msg_def log_line_def Let_def split: if_splits)
  then obtain b where "eff = PostRegister (register_url a) b"
    using assms(1,2) by (auto simp: registerAtBroker_def registration_request_def split: effect.splits)
  then have "rmethod req = POST" "rpath req = ''/turn-servers-management/register/''"
    using assms(2) by (auto simp: registration_request_def register_url_def)
  from no_register_route[OF this] show ?thesis using assms(3) by (simp add: app_def not_found_def with_cors_def)
qed

theorem registration_not_served_witness:
  "\<exists>eff \<in> set (registerAtBroker (ag (main_program ''u'' ''p'' ''me'' None None None))).
     \<exists>req. registration_request (ag (main_program ''u'' ''p'' ''me'' None None None)) Map.empty eff = Some req
     \<and> map_option status (snd (serve_action (app (\<lambda>_. None) demo_env req) mem_exec empty_mem)) = Some 404"
proof -
  let ?a = "ag (main_program ''u'' ''p'' ''me'' None None None)"
  obtain b where b: "PostRegister (register_url ?a) b \<in> set (registerAtBroker ?a)" using agent_registers by blast
  obtain req where r: "registration_request ?a Map.empty (PostRegister (register_url ?a) b) = Some req"
    by (simp add: registration_request_def)
  have "map_option status (snd (serve_action (app (\<lambda>_. None) demo_env req) mem_exec empty_mem)) = Some 404"
    by (rule registration_not_served[OF b r, THEN conjunct2]) simp
  then show ?thesis using r by (intro bexI[OF _ b] exI[of _ req] conjI)
qed

end
