(* ===== verification/WebRTC_Signalling.thy ===== *)
theory WebRTC_Signalling
  imports JS_Number
begin

text \<open>
  The signalling server of the WebRTC example, \<^verbatim>\<open>broker/appWebRTC/appWebRTC.js\<close>: rooms of at most two
  clients and the forwarding of their messages.

  The rooms are kept by socket.io, which is not part of the repository.  The locale \<open>room_service\<close>
  states what the server relies on: who is a member of a room after joining, leaving, connecting
  (a socket is put in the room of its own identifier) and disconnecting; a room without members is
  undefined, and \<open>length\<close> of a room is the number of its members.  \<open>room_map\<close> is an implementation.
\<close>

section \<open>Events and emissions\<close>

datatype server_event =
    Connect string
  | Disconnect string
  | Message string string jsval
  | CreateOrJoin string string
  | Bye string string

datatype socket_event = Created string | Joined string | Join string | Full string | Msg jsval

text \<open>An emission: the sockets it goes to and what they receive.\<close>

type_synonym emission = "string set \<times> socket_event"

section \<open>Rooms\<close>

locale room_service =
  fixes members :: "'s \<Rightarrow> string \<Rightarrow> string set"
    and join :: "string \<Rightarrow> string \<Rightarrow> 's \<Rightarrow> 's"
    and leave :: "string \<Rightarrow> string \<Rightarrow> 's \<Rightarrow> 's"
    and quit :: "string \<Rightarrow> 's \<Rightarrow> 's"
  assumes members_join: "members (join sid room s) = (members s)(room := insert sid (members s room))"
    and members_leave: "members (leave sid room s) = (members s)(room := members s room - {sid})"
    and members_quit: "members (quit sid s) r = members s r - {sid}"
    and finite_members: "finite (members s r)"

type_synonym room_map = "(string \<times> string list) list"

definition rm_members :: "room_map \<Rightarrow> string \<Rightarrow> string set" where
  "rm_members m r = (case map_of m r of None \<Rightarrow> {} | Some xs \<Rightarrow> set xs)"

definition rm_list :: "room_map \<Rightarrow> string \<Rightarrow> string list" where
  "rm_list m r = (case map_of m r of None \<Rightarrow> [] | Some xs \<Rightarrow> xs)"

definition rm_join :: "string \<Rightarrow> string \<Rightarrow> room_map \<Rightarrow> room_map" where
  "rm_join sid room m = AList.update room (List.insert sid (rm_list m room)) m"

definition rm_leave :: "string \<Rightarrow> string \<Rightarrow> room_map \<Rightarrow> room_map" where
  "rm_leave sid room m = AList.update room (removeAll sid (rm_list m room)) m"

definition rm_quit :: "string \<Rightarrow> room_map \<Rightarrow> room_map" where
  "rm_quit sid m = map (\<lambda>(r, xs). (r, removeAll sid xs)) m"

lemma rm_members_list: "rm_members m r = set (rm_list m r)"
  by (simp add: rm_members_def rm_list_def split: option.split)

lemma rm_members_upd: "rm_members (AList.update room xs m) = (rm_members m)(room := set xs)"
  by (auto simp: rm_members_def fun_eq_iff)

interpretation rm: room_service rm_members rm_join rm_leave rm_quit
proof unfold_locales
  show "rm_members (rm_join sid room s) = (rm_members s)(room := insert sid (rm_members s room))" for sid room s
    by (simp add: rm_join_def rm_members_upd rm_members_list)
  show "rm_members (rm_leave sid room s) = (rm_members s)(room := rm_members s room - {sid})" for sid room s
    by (simp add: rm_leave_def rm_members_upd rm_members_list)
  show "rm_members (rm_quit sid s) r = rm_members s r - {sid}" for sid s r
    by (auto simp: rm_quit_def rm_members_def map_of_map split: option.split)
  show "finite (rm_members s r)" for s r by (simp add: rm_members_list)
qed

section \<open>The handlers\<close>

text \<open>The room service is an argument of the handlers: the members of a room, joining and leaving.\<close>

definition on_create_or_join ::
  "('s \<Rightarrow> string \<Rightarrow> string set) \<Rightarrow> (string \<Rightarrow> string \<Rightarrow> 's \<Rightarrow> 's) \<Rightarrow> string \<Rightarrow> string \<Rightarrow> 's \<Rightarrow> 's \<times> emission list" where
  "on_create_or_join members join sid room s =
     (let socketroom = members s room in
      if socketroom = {} then (join sid room s, [({sid}, Created room)])
      else if card socketroom < 2 then (join sid room s, [(socketroom, Join room), ({sid}, Joined room)])
      else (s, [({sid}, Full room)]))"

definition on_room_message ::
  "('s \<Rightarrow> string \<Rightarrow> string set) \<Rightarrow> string \<Rightarrow> string \<Rightarrow> jsval \<Rightarrow> 's \<Rightarrow> 's \<times> emission list" where
  "on_room_message members sid room msg s = (s, [(members s room - {sid}, Msg msg)])"

definition on_bye :: "(string \<Rightarrow> string \<Rightarrow> 's \<Rightarrow> 's) \<Rightarrow> string \<Rightarrow> string \<Rightarrow> 's \<Rightarrow> 's \<times> emission list" where
  "on_bye leave sid room s = (leave sid room s, [])"

fun serve_event ::
  "('s \<Rightarrow> string \<Rightarrow> string set) \<Rightarrow> (string \<Rightarrow> string \<Rightarrow> 's \<Rightarrow> 's) \<Rightarrow> (string \<Rightarrow> string \<Rightarrow> 's \<Rightarrow> 's) \<Rightarrow> (string \<Rightarrow> 's \<Rightarrow> 's)
    \<Rightarrow> server_event \<Rightarrow> 's \<Rightarrow> 's \<times> emission list" where
  "serve_event members join leave quit (Connect sid) s = (join sid sid s, [])"
| "serve_event members join leave quit (Disconnect sid) s = (quit sid s, [])"
| "serve_event members join leave quit (Message sid room msg) s = on_room_message members sid room msg s"
| "serve_event members join leave quit (CreateOrJoin sid room) s = on_create_or_join members join sid room s"
| "serve_event members join leave quit (Bye sid room) s = on_bye leave sid room s"

fun serve_events ::
  "('s \<Rightarrow> string \<Rightarrow> string set) \<Rightarrow> (string \<Rightarrow> string \<Rightarrow> 's \<Rightarrow> 's) \<Rightarrow> (string \<Rightarrow> string \<Rightarrow> 's \<Rightarrow> 's) \<Rightarrow> (string \<Rightarrow> 's \<Rightarrow> 's)
    \<Rightarrow> server_event list \<Rightarrow> 's \<Rightarrow> 's \<times> emission list" where
  "serve_events members join leave quit [] s = (s, [])"
| "serve_events members join leave quit (e # es) s =
     (let (s1, out1) = serve_event members join leave quit e s;
          (s2, out2) = serve_events members join leave quit es s1 in (s2, out1 @ out2))"

section \<open>The specification of a room\<close>

text \<open>A room seen from outside: who is in it.  The admission rule of two clients per room.\<close>

datatype admission = Admit_first | Admit_second | Refuse

definition admit :: "string set \<Rightarrow> admission" where
  "admit room = (if card room = 0 then Admit_first else if card room = 1 then Admit_second else Refuse)"

definition spec_room :: "server_event \<Rightarrow> string \<Rightarrow> string set \<Rightarrow> string set" where
  "spec_room e r room = (case e of
     CreateOrJoin sid r' \<Rightarrow> if r' = r \<and> admit room \<noteq> Refuse then insert sid room else room
   | Bye sid r' \<Rightarrow> if r' = r then room - {sid} else room
   | Disconnect sid \<Rightarrow> room - {sid}
   | Connect sid \<Rightarrow> if sid = r then insert sid room else room
   | Message _ _ _ \<Rightarrow> room)"

definition spec_out :: "server_event \<Rightarrow> (string \<Rightarrow> string set) \<Rightarrow> emission list" where
  "spec_out e rooms = (case e of
     CreateOrJoin sid r \<Rightarrow> (case admit (rooms r) of
         Admit_first \<Rightarrow> [({sid}, Created r)]
       | Admit_second \<Rightarrow> [(rooms r, Join r), ({sid}, Joined r)]
       | Refuse \<Rightarrow> [({sid}, Full r)])
   | Message sid r m \<Rightarrow> [(rooms r - {sid}, Msg m)]
   | _ \<Rightarrow> [])"

context room_service
begin

lemma refines_room: "members (fst (serve_event members join leave quit e s)) r = spec_room e r (members s r)"
proof (cases e)
  case (CreateOrJoin sid room)
  have "card (members s room) = 0 \<longleftrightarrow> members s room = {}" using finite_members by simp
  then show ?thesis using CreateOrJoin
    by (auto simp: on_create_or_join_def spec_room_def admit_def Let_def members_join)
qed (auto simp: spec_room_def on_room_message_def on_bye_def members_join members_leave members_quit)

lemma refines_out: "snd (serve_event members join leave quit e s) = spec_out e (members s)"
proof (cases e)
  case (CreateOrJoin sid room)
  have "card (members s room) = 0 \<longleftrightarrow> members s room = {}" using finite_members by simp
  then show ?thesis using CreateOrJoin
    by (auto simp: on_create_or_join_def spec_out_def admit_def Let_def)
qed (auto simp: spec_out_def on_room_message_def on_bye_def)

lemma room_step:
  assumes "card (members s r) \<le> 2" and "e \<noteq> Connect r"
  shows "card (members (fst (serve_event members join leave quit e s)) r) \<le> 2"
proof -
  have d: "card (members s r - {x}) \<le> card (members s r)" for x by (rule card_Diff1_le)
  have i: "card (insert x (members s r)) \<le> 2" if "admit (members s r) \<noteq> Refuse" for x
    using that finite_members card_insert_le_m1[of 2 "members s r" x] by (auto simp: admit_def split: if_splits)
  show ?thesis unfolding refines_room spec_room_def
    using assms i d le_trans[OF d] by (auto split: server_event.split)
qed

lemma rooms_bounded:
  assumes "card (members s r) \<le> 2" and "Connect r \<notin> set es"
  shows "card (members (fst (serve_events members join leave quit es s)) r) \<le> 2"
  using assms
proof (induction es arbitrary: s)
  case (Cons e es)
  let ?s = "fst (serve_event members join leave quit e s)"
  have "card (members (fst (serve_events members join leave quit es ?s)) r) \<le> 2"
    using Cons.prems room_step[of s r e] by (intro Cons.IH) auto
  then show ?case by (simp add: case_prod_beta)
qed simp

end

section \<open>Properties of the signalling server\<close>

text \<open>
  C3. Refinement: on any implementation of the rooms, every event changes every room and emits
  exactly what the admission rule of two clients per room says: the first client creates the room,
  the second joins and the first is told, a third is refused.
\<close>

theorem signalling_refines:
  assumes "room_service members join leave quit"
  shows "(\<forall>r. members (fst (serve_event members join leave quit e s)) r = spec_room e r (members s r))
    \<and> snd (serve_event members join leave quit e s) = spec_out e (members s)"
  using room_service.refines_room[OF assms] room_service.refines_out[OF assms] by blast

theorem signalling_refines_witness:
  "rm_members (fst (serve_event rm_members rm_join rm_leave rm_quit (CreateOrJoin ''b'' ''r'') [(''r'', [''a''])])) ''r'' = {''a'', ''b''}
   \<and> snd (serve_event rm_members rm_join rm_leave rm_quit (CreateOrJoin ''b'' ''r'') [(''r'', [''a''])])
     = [({''a''}, Join ''r''), ({''b''}, Joined ''r'')]"
  using signalling_refines[OF rm.room_service_axioms, of "CreateOrJoin ''b'' ''r''" "[(''r'', [''a''])]"]
  by (auto simp: spec_room_def spec_out_def admit_def rm_members_def)

text \<open>
  C18. No sequence of connections, messages, joins, departures and disconnections puts more than two
  clients in a room (a room that is not named like a socket).
\<close>

theorem at_most_two_clients:
  assumes "room_service members join leave quit" and "members s0 r = {}" and "Connect r \<notin> set es"
  shows "card (members (fst (serve_events members join leave quit es s0)) r) \<le> 2"
  using room_service.rooms_bounded[OF assms(1), of s0 r es] assms(2,3) by simp

theorem at_most_two_clients_witness:
  "card (rm_members (fst (serve_events rm_members rm_join rm_leave rm_quit
     [CreateOrJoin ''a'' ''r'', CreateOrJoin ''b'' ''r'', CreateOrJoin ''c'' ''r''] [])) ''r'') \<le> 2"
  by (rule at_most_two_clients[OF rm.room_service_axioms]) (simp_all add: rm_members_def)

end
