(* ===== verification/WebRTC_Client.thy ===== *)
theory WebRTC_Client
  imports WebRTC_Signalling Broker_Routes
begin

text \<open>
  The page of the WebRTC example, \<^verbatim>\<open>broker/appWebRTC/public/js/main.js\<close>: it asks the broker for a TURN
  server and credentials, joins a room of the signalling server and sets up a call.

  The page's global variables are the record \<open>client\<close>; every callback is an action on it that ends
  normally or throws (the state and the effects up to the throw stay).  The browser's peer
  connection is not part of the repository: that its constructor succeeds for a configuration is
  the argument \<open>pc_ok\<close>, and calling a method of a missing connection, or adding a missing stream to
  one, throws.
\<close>

section \<open>State and effects\<close>

record ice_server =
  urls :: string
  username :: jsval
  credential :: jsval

record rtc_config =
  iceServers :: "ice_server list"
  iceTransportPolicy :: string

datatype client_effect =
    OpenSocket string
  | GetUserMedia jsval
  | EmitMessage jsval jsval
  | EmitCreateOrJoin jsval
  | EmitBye jsval
  | NewConnection "rtc_config option"
  | AddStream jsval
  | CreateOffer
  | CreateAnswer jsval
  | SetLocal jsval
  | SetRemote jsval
  | AddCandidate jsval jsval
  | Close
  | Alert string
  | LocalVideo jsval
  | RemoteVideo jsval

text \<open>\<open>pc\<close> is \<^const>\<open>None\<close> before the first connection and after a stop, and otherwise holds the
  configuration the connection was made with.\<close>

record client =
  room :: jsval
  localStream :: jsval
  remoteStream :: jsval
  isChannelReady :: bool
  isInitiator :: bool
  isStarted :: bool
  pc :: "rtc_config option option"
  trace :: "client_effect list"

definition new_client :: "jsval \<Rightarrow> client" where
  "new_client r = \<lparr>room = r, localStream = JNull, remoteStream = JUndef, isChannelReady = False,
     isInitiator = False, isStarted = False, pc = None, trace = []\<rparr>"

text \<open>An action: the new state, and whether it threw.\<close>

type_synonym act = "client \<Rightarrow> client \<times> bool"

definition skip :: act where
  "skip c = (c, False)"

definition throw :: act where
  "throw c = (c, True)"

definition upd :: "(client \<Rightarrow> client) \<Rightarrow> act" where
  "upd f c = (f c, False)"

definition emit :: "client_effect \<Rightarrow> act" where
  "emit e c = (c\<lparr>trace := trace c @ [e]\<rparr>, False)"

definition andThen :: "act \<Rightarrow> act \<Rightarrow> act" where
  "andThen a b c = (let r = a c in if snd r then r else b (fst r))"

definition seq :: "act list \<Rightarrow> act" where
  "seq as = foldr andThen as skip"

text \<open>A method call on \<open>pc\<close>.\<close>

definition on_pc :: "client_effect \<Rightarrow> act" where
  "on_pc e c = (if pc c = None then (c, True) else emit e c)"

definition whenever :: "(client \<Rightarrow> bool) \<Rightarrow> act \<Rightarrow> act" where
  "whenever b a c = (if b c then a c else skip c)"

section \<open>Routines\<close>

definition sendMessage :: "jsval \<Rightarrow> act" where
  "sendMessage message c = emit (EmitMessage (room c) message) c"

definition createPeerConnection :: "(rtc_config option \<Rightarrow> bool) \<Rightarrow> rtc_config option \<Rightarrow> act" where
  "createPeerConnection pc_ok cfg =
     (if pc_ok cfg then andThen (emit (NewConnection cfg)) (upd (\<lambda>c. c\<lparr>pc := Some cfg\<rparr>))
      else emit (Alert ''Cannot create RTCPeerConnection object.''))"

definition addStream :: act where
  "addStream c = (if localStream c = JNull \<or> localStream c = JUndef then (c, True) else on_pc (AddStream (localStream c)) c)"

definition doCall :: act where
  "doCall = on_pc CreateOffer"

definition sdpConstraints :: jsval where
  "sdpConstraints = JObj [(''mandatory'', JObj [(''OfferToReceiveAudio'', JBool True), (''OfferToReceiveVideo'', JBool True)])]"

definition doAnswer :: act where
  "doAnswer = on_pc (CreateAnswer sdpConstraints)"

definition maybeStart :: "(rtc_config option \<Rightarrow> bool) \<Rightarrow> rtc_config option \<Rightarrow> act" where
  "maybeStart pc_ok cfg =
     whenever (\<lambda>c. \<not> isStarted c \<and> localStream c \<noteq> JUndef \<and> isChannelReady c)
       (seq [createPeerConnection pc_ok cfg, addStream, upd (\<lambda>c. c\<lparr>isStarted := True\<rparr>), whenever isInitiator doCall])"

text \<open>The promise of \<open>getUserMedia\<close> catches what its handler throws.\<close>

definition handleUserMedia :: "(rtc_config option \<Rightarrow> bool) \<Rightarrow> jsval \<Rightarrow> act" where
  "handleUserMedia pc_ok stream =
     seq [emit (LocalVideo stream), upd (\<lambda>c. c\<lparr>localStream := stream\<rparr>), sendMessage (JStr ''got user media''),
          whenever isInitiator (maybeStart pc_ok None)]"

definition handleUserMediaError :: act where
  "handleUserMediaError = skip"

definition caught :: "act \<Rightarrow> act" where
  "caught a c = (fst (a c), False)"

definition handleIceCandidate :: "(jsval \<times> jsval \<times> jsval) option \<Rightarrow> act" where
  "handleIceCandidate cand = (case cand of
     Some (label, i, candidate) \<Rightarrow>
       sendMessage (JObj [(''type'', JStr ''candidate''), (''label'', label), (''id'', i), (''candidate'', candidate)])
   | None \<Rightarrow> skip)"

text \<open>The handler names a variable that does not exist.\<close>

definition handleCreateOfferError :: act where
  "handleCreateOfferError = throw"

definition createAnswerFailed :: act where
  "createAnswerFailed = skip"

definition setLocalAndSendMessage :: "jsval \<Rightarrow> act" where
  "setLocalAndSendMessage sd = andThen (on_pc (SetLocal sd)) (sendMessage sd)"

definition handleRemoteStreamAdded :: "jsval \<Rightarrow> act" where
  "handleRemoteStreamAdded stream = andThen (emit (RemoteVideo stream)) (upd (\<lambda>c. c\<lparr>remoteStream := stream\<rparr>))"

definition handleRemoteStreamRemoved :: act where
  "handleRemoteStreamRemoved = skip"

definition stop :: act where
  "stop = seq [upd (\<lambda>c. c\<lparr>isStarted := False\<rparr>), on_pc Close, upd (\<lambda>c. c\<lparr>pc := None\<rparr>)]"

definition hangup :: act where
  "hangup = andThen stop (sendMessage (JStr ''bye''))"

definition handleRemoteHangup :: act where
  "handleRemoteHangup = seq [emit (RemoteVideo JNull), stop, upd (\<lambda>c. c\<lparr>isInitiator := True\<rparr>)]"

section \<open>Socket handlers\<close>

definition on_offer :: "(rtc_config option \<Rightarrow> bool) \<Rightarrow> jsval \<Rightarrow> act" where
  "on_offer pc_ok message =
     seq [whenever (\<lambda>c. \<not> isInitiator c \<and> \<not> isStarted c) (maybeStart pc_ok None), on_pc (SetRemote message), doAnswer]"

definition on_candidate :: "jsval \<Rightarrow> act" where
  "on_candidate message = (case (js_get message ''label'', js_get message ''candidate'') of
     (Some l, Some k) \<Rightarrow> on_pc (AddCandidate l k) | _ \<Rightarrow> throw)"

definition on_peer_message :: "(rtc_config option \<Rightarrow> bool) \<Rightarrow> rtc_config option \<Rightarrow> jsval \<Rightarrow> act" where
  "on_peer_message pc_ok cfg message =
     (if message = JStr ''got user media'' then maybeStart pc_ok cfg
      else case js_get message ''type'' of None \<Rightarrow> throw
        | Some t \<Rightarrow> (\<lambda>c.
            if t = JStr ''offer'' then on_offer pc_ok message c
            else if t = JStr ''answer'' \<and> isStarted c then on_pc (SetRemote message) c
            else if t = JStr ''candidate'' \<and> isStarted c then on_candidate message c
            else if message = JStr ''bye'' \<and> isStarted c then handleRemoteHangup c
            else skip c))"

definition on_socket :: "(rtc_config option \<Rightarrow> bool) \<Rightarrow> rtc_config option \<Rightarrow> socket_event \<Rightarrow> act" where
  "on_socket pc_ok cfg e = (case e of
     Created _ \<Rightarrow> upd (\<lambda>c. c\<lparr>isInitiator := True\<rparr>)
   | Full _ \<Rightarrow> skip
   | Join _ \<Rightarrow> upd (\<lambda>c. c\<lparr>isChannelReady := True\<rparr>)
   | Joined _ \<Rightarrow> upd (\<lambda>c. c\<lparr>isChannelReady := True\<rparr>)
   | Msg m \<Rightarrow> on_peer_message pc_ok cfg m)"

definition on_beforeunload :: act where
  "on_beforeunload = andThen (\<lambda>c. emit (EmitBye (room c)) c) (sendMessage (JStr ''bye''))"

definition RTCSERVICEURL :: string where "RTCSERVICEURL = ''https://10.193.5.91:8080''"

definition media_constraints :: jsval where
  "media_constraints = JObj [(''video'', JStr ''true''), (''audio'', JStr ''true'')]"

text \<open>The promise of \<open>getUserMedia\<close> settles in a later turn of the event loop.\<close>

definition startupBehavior :: act where
  "startupBehavior = seq [emit (OpenSocket RTCSERVICEURL), emit (GetUserMedia media_constraints),
     whenever (\<lambda>c. room c \<noteq> JStr '''') (\<lambda>c. emit (EmitCreateOrJoin (room c)) c)]"

section \<open>Startup\<close>

definition CSPNAME :: string where "CSPNAME = ''reThinkTestCSP''"

definition CLIENTNAME :: string where "CLIENTNAME = ''RealTimeVideoCall''"

definition turn_request :: request where
  "turn_request = \<lparr>rmethod = GET, rpath = ''/getAppropriateTurn'',
     query = [''cspId'' \<mapsto> CSPNAME, ''clientName'' \<mapsto> CLIENTNAME], form = Map.empty, authorization = None\<rparr>"

text \<open>\<open>data[i]\<close>, which throws on \<open>null\<close> and \<open>undefined\<close> only.\<close>

definition elem_val :: "jsval \<Rightarrow> nat \<Rightarrow> jsval option" where
  "elem_val data i = (case data of
     JArr vs \<Rightarrow> Some (case js_nth vs i of Some v \<Rightarrow> v | None \<Rightarrow> JUndef)
   | JStr s \<Rightarrow> Some (case js_nth s i of Some c \<Rightarrow> JStr [c] | None \<Rightarrow> JUndef)
   | _ \<Rightarrow> js_get data (nat_to_base 10 i))"

text \<open>A parameter of a request: a missing value is sent as the empty string.\<close>

definition param_str :: "jsval \<Rightarrow> string" where
  "param_str v = (if v = JUndef \<or> v = JNull then '''' else to_string_val v)"

definition credentials_request :: "jsval \<Rightarrow> request" where
  "credentials_request clientId = \<lparr>rmethod = GET, rpath = ''/getCredentials'',
     query = [''clientId'' \<mapsto> param_str clientId], form = Map.empty, authorization = None\<rparr>"

definition turn_config :: "string \<Rightarrow> jsval \<Rightarrow> rtc_config option" where
  "turn_config turn creds = (case (js_get creds ''clientId'', js_get creds ''password'') of
     (Some u, Some p) \<Rightarrow> Some \<lparr>iceServers = [\<lparr>urls = turn, username = u, credential = p\<rparr>],
        iceTransportPolicy = ''relay''\<rparr>
   | _ \<Rightarrow> None)"

text \<open>What the page does with the two answers of the broker: start with a configuration, start
  without one when the first request failed, or never start.\<close>

datatype startup = Start "rtc_config option" | Never

definition after_credentials :: "string \<Rightarrow> response option \<Rightarrow> startup" where
  "after_credentials turn r = (case r of
     Some resp \<Rightarrow> (case (status resp, rbody resp) of
        (n, Json creds) \<Rightarrow> if 200 \<le> n \<and> n < 300 \<and> turn_config turn creds \<noteq> None then Start (turn_config turn creds) else Never
      | _ \<Rightarrow> Never)
   | None \<Rightarrow> Never)"

definition page_start ::
  "(request \<Rightarrow> response option) \<Rightarrow> env \<Rightarrow> ('d \<Rightarrow> cmd \<Rightarrow> 'd \<times> reply) \<Rightarrow> 'd \<Rightarrow> 'd \<times> startup" where
  "page_start static e ex d =
     (let (d1, r1) = serve_action (app static e turn_request) ex d in
      case r1 of None \<Rightarrow> (d1, Never)
      | Some resp \<Rightarrow>
          if 200 \<le> status resp \<and> status resp < 300 then
            (case rbody resp of
               Json data \<Rightarrow> (case (elem_val data 0, elem_val data 1) of
                   (Some url, Some clientId) \<Rightarrow>
                     (let (d2, r2) = serve_action (app static e (credentials_request clientId)) ex d1
                      in (d2, after_credentials (''turn:'' @ to_string_val url) r2))
                 | _ \<Rightarrow> (d1, Never))
             | _ \<Rightarrow> (d1, Never))
          else (d1, Start None))"

section \<open>Runs of the page\<close>

datatype client_event =
    Socket socket_event
  | UserMedia jsval
  | UserMediaFailed
  | Candidate "(jsval \<times> jsval \<times> jsval) option"
  | DescriptionReady jsval
  | OfferFailed
  | AnswerFailed
  | StreamAdded jsval
  | StreamRemoved
  | HangupClicked
  | Unload

fun client_step :: "(rtc_config option \<Rightarrow> bool) \<Rightarrow> rtc_config option \<Rightarrow> client_event \<Rightarrow> act" where
  "client_step pc_ok cfg (Socket e) = on_socket pc_ok cfg e"
| "client_step pc_ok cfg (UserMedia s) = caught (handleUserMedia pc_ok s)"
| "client_step pc_ok cfg UserMediaFailed = handleUserMediaError"
| "client_step pc_ok cfg (Candidate k) = handleIceCandidate k"
| "client_step pc_ok cfg (DescriptionReady sd) = setLocalAndSendMessage sd"
| "client_step pc_ok cfg OfferFailed = handleCreateOfferError"
| "client_step pc_ok cfg AnswerFailed = createAnswerFailed"
| "client_step pc_ok cfg (StreamAdded s) = handleRemoteStreamAdded s"
| "client_step pc_ok cfg StreamRemoved = handleRemoteStreamRemoved"
| "client_step pc_ok cfg HangupClicked = hangup"
| "client_step pc_ok cfg Unload = on_beforeunload"

text \<open>An uncaught exception ends the callback, not the page.\<close>

fun client_run :: "(rtc_config option \<Rightarrow> bool) \<Rightarrow> rtc_config option \<Rightarrow> client_event list \<Rightarrow> client \<Rightarrow> client" where
  "client_run pc_ok cfg [] c = c"
| "client_run pc_ok cfg (e # es) c = client_run pc_ok cfg es (fst (client_step pc_ok cfg e c))"

definition page :: "(rtc_config option \<Rightarrow> bool) \<Rightarrow> rtc_config option \<Rightarrow> jsval \<Rightarrow> client_event list \<Rightarrow> client" where
  "page pc_ok cfg r es = client_run pc_ok cfg es (fst (startupBehavior (new_client r)))"

section \<open>Relations that the callbacks respect\<close>

lemmas act_defs = skip_def throw_def upd_def emit_def andThen_def seq_def on_pc_def whenever_def Let_def

text \<open>The two effects that say in which room the page is; only the start and the end of the page have
  them.\<close>

fun room_effect :: "client_effect \<Rightarrow> bool" where
  "room_effect (EmitCreateOrJoin r) = True"
| "room_effect (EmitBye r) = True"
| "room_effect _ = False"

definition does :: "(client \<Rightarrow> client \<Rightarrow> bool) \<Rightarrow> act \<Rightarrow> bool" where
  "does R a = (\<forall>c. R c (fst (a c)))"

text \<open>A relation between the state before and after a callback: the elementary updates, starting and
  stopping a call have to respect it, then every callback does.\<close>

locale page_relation =
  fixes R :: "client \<Rightarrow> client \<Rightarrow> bool"
  assumes R_refl: "R c c"
    and R_trans: "R c c1 \<Longrightarrow> R c1 c2 \<Longrightarrow> R c c2"
    and R_emit: "\<not> room_effect e \<Longrightarrow> R c (c\<lparr>trace := trace c @ [e]\<rparr>)"
    and R_initiator: "R c (c\<lparr>isInitiator := b\<rparr>)"
    and R_local: "R c (c\<lparr>localStream := s\<rparr>)"
    and R_remote: "R c (c\<lparr>remoteStream := s\<rparr>)"
    and R_start: "does R (maybeStart ok cfg)"
    and R_stop: "does R stop"
begin

lemma does_andThen: "does R a \<Longrightarrow> does R b \<Longrightarrow> does R (andThen a b)"
  by (auto simp: does_def andThen_def Let_def intro: R_trans)

lemma does_skip: "does R skip" "does R throw"
  by (simp_all add: does_def skip_def throw_def R_refl)

lemma does_seq: "list_all (does R) as \<Longrightarrow> does R (seq as)"
  by (induction as) (simp_all add: seq_def does_andThen does_skip)

lemma does_whenever: "does R a \<Longrightarrow> does R (whenever b a)"
  by (simp add: does_def whenever_def skip_def R_refl)

lemma does_caught: "does R a \<Longrightarrow> does R (caught a)"
  by (simp add: does_def caught_def)

lemma does_emit: "\<not> room_effect e \<Longrightarrow> does R (emit e)" "\<not> room_effect e \<Longrightarrow> does R (on_pc e)"
  by (simp_all add: does_def emit_def on_pc_def R_emit R_refl)

lemma does_sendMessage: "does R (sendMessage m)"
  by (simp add: does_def sendMessage_def emit_def R_emit)

lemma does_upd:
  "does R (upd (\<lambda>c. c\<lparr>isInitiator := b\<rparr>))" "does R (upd (\<lambda>c. c\<lparr>localStream := s\<rparr>))" "does R (upd (\<lambda>c. c\<lparr>remoteStream := s\<rparr>))"
  by (simp_all add: does_def upd_def R_initiator R_local R_remote)

lemmas does_basic = does_skip does_emit does_sendMessage does_upd R_start R_stop does_whenever

lemma does_handleUserMedia: "does R (handleUserMedia ok s)"
  unfolding handleUserMedia_def by (rule does_seq) (simp add: does_basic)

lemma does_on_offer: "does R (on_offer ok m)"
  unfolding on_offer_def by (rule does_seq) (simp add: does_basic doAnswer_def)

lemma does_hangups: "does R handleRemoteHangup" "does R hangup"
  unfolding handleRemoteHangup_def hangup_def
  by (rule does_seq, simp add: does_basic) (rule does_andThen, simp_all add: does_basic)

lemma does_on_candidate: "does R (on_candidate m)"
  by (simp add: on_candidate_def does_basic split: option.split)

lemma does_on_peer_message: "does R (on_peer_message ok cfg m)"
proof (cases "m = JStr ''got user media''")
  case True
  then show ?thesis by (simp add: on_peer_message_def R_start)
next
  case False
  have "does R (\<lambda>c. if t = JStr ''offer'' then on_offer ok m c
      else if t = JStr ''answer'' \<and> isStarted c then on_pc (SetRemote m) c
      else if t = JStr ''candidate'' \<and> isStarted c then on_candidate m c
      else if m = JStr ''bye'' \<and> isStarted c then handleRemoteHangup c else skip c)" for t
    using does_on_offer[of ok m] does_emit(2)[of "SetRemote m"] does_on_candidate[of m] does_hangups(1)
    by (simp add: does_def skip_def R_refl)
  then show ?thesis using False by (simp add: on_peer_message_def does_skip split: option.split)
qed

lemma does_on_socket: "e \<notin> range Join \<union> range Joined \<Longrightarrow> does R (on_socket ok cfg e)"
  by (cases e) (simp_all add: on_socket_def does_basic does_on_peer_message)

lemma does_client_step:
  assumes "e \<noteq> Unload" and "e \<notin> range (Socket \<circ> Join) \<union> range (Socket \<circ> Joined)"
  shows "does R (client_step ok cfg e)"
proof (cases e)
  case (Socket s)
  then show ?thesis using assms(2) by (auto intro!: does_on_socket)
next
  case (Candidate k)
  then show ?thesis by (simp add: handleIceCandidate_def does_basic split: option.split)
qed (use assms(1) in \<open>simp_all add: does_basic does_caught does_handleUserMedia does_andThen does_hangups handleUserMediaError_def
    setLocalAndSendMessage_def handleCreateOfferError_def createAnswerFailed_def handleRemoteStreamAdded_def handleRemoteStreamRemoved_def\<close>)

end

section \<open>Started calls have a connection\<close>

definition connected :: "client \<Rightarrow> bool" where
  "connected c = (isStarted c \<longrightarrow> pc c \<noteq> None)"

interpretation connection: page_relation "\<lambda>c c'. connected c \<longrightarrow> connected c'"
proof unfold_locales
  show "does (\<lambda>c c'. connected c \<longrightarrow> connected c') (maybeStart ok cfg)" for ok cfg
    by (auto simp: does_def maybeStart_def createPeerConnection_def addStream_def doCall_def connected_def act_defs)
  show "does (\<lambda>c c'. connected c \<longrightarrow> connected c') stop"
    by (auto simp: does_def stop_def connected_def act_defs)
qed (auto simp: connected_def)

lemma connected_client_step: "connected c \<Longrightarrow> connected (fst (client_step ok cfg e c))"
proof (cases "e = Unload \<or> e \<in> range (Socket \<circ> Join) \<union> range (Socket \<circ> Joined)")
  case True
  then show "connected c \<Longrightarrow> ?thesis"
    by (auto simp: on_beforeunload_def on_socket_def sendMessage_def act_defs connected_def)
next
  case False
  then show "connected c \<Longrightarrow> ?thesis" using connection.does_client_step[of e] by (simp add: does_def)
qed

lemma client_run_connected: "connected c \<Longrightarrow> connected (client_run ok cfg es c)"
  using connected_client_step by (induction es arbitrary: c) simp_all

lemma page_connected: "connected (page ok cfg r es)"
proof -
  have "connected (fst (startupBehavior (new_client r)))"
    by (simp add: connected_def startupBehavior_def new_client_def act_defs)
  then show ?thesis unfolding page_def by (rule client_run_connected)
qed

section \<open>Properties of the page\<close>

text \<open>
  C20. In every run of the page, whatever the order of events, a started call has a peer connection;
  so an answer, a candidate or a \<open>bye\<close> that arrives never fails on a missing connection.
\<close>

theorem started_call_has_connection:
  "let c = page pc_ok cfg r es in
   (isStarted c \<longrightarrow> pc c \<noteq> None)
   \<and> \<not> snd (on_peer_message pc_ok cfg (JObj [(''type'', JStr ''answer''), (''sdp'', sd)]) c)
   \<and> \<not> snd (on_peer_message pc_ok cfg (JObj [(''type'', JStr ''candidate''), (''label'', l), (''candidate'', k)]) c)
   \<and> \<not> snd (on_peer_message pc_ok cfg (JStr ''bye'') c)"
  using page_connected[of pc_ok cfg r es]
  by (auto simp: connected_def on_peer_message_def on_candidate_def handleRemoteHangup_def stop_def act_defs)

theorem started_call_has_connection_witness:
  "let c = page (\<lambda>_. True) None (JStr ''r'') [Socket (Joined ''r''), UserMedia (JStr ''s''), Socket (Msg (JObj [(''type'', JStr ''offer'')]))]
   in isStarted c \<and> pc c \<noteq> None"
proof -
  let ?c = "page (\<lambda>_. True) None (JStr ''r'') [Socket (Joined ''r''), UserMedia (JStr ''s''), Socket (Msg (JObj [(''type'', JStr ''offer'')]))]"
  have "isStarted ?c"
    by (simp add: page_def new_client_def startupBehavior_def on_socket_def on_peer_message_def on_offer_def maybeStart_def
        createPeerConnection_def addStream_def doCall_def doAnswer_def caught_def handleUserMedia_def sendMessage_def act_defs)
  with started_call_has_connection[of "\<lambda>_. True" None "JStr ''r''"
    "[Socket (Joined ''r''), UserMedia (JStr ''s''), Socket (Msg (JObj [(''type'', JStr ''offer'')]))]"]
  show ?thesis by (simp add: Let_def)
qed

text \<open>
  Hanging up when no call is established throws before the \<open>bye\<close> is sent: the peer is not told.
\<close>

theorem hangup_outside_call:
  assumes "pc c = None"
  shows "snd (hangup c) \<and> trace (fst (hangup c)) = trace c"
  using assms by (simp add: hangup_def stop_def act_defs)

theorem hangup_outside_call_witness: "snd (hangup (new_client (JStr ''r'')))"
  using hangup_outside_call[of "new_client (JStr ''r'')"] by (simp add: new_client_def)

section \<open>Startup with the broker\<close>

lemma app_turn_request:
  assumes "static turn_request = None"
  shows "app static e turn_request =
    Await (getAppropriateTurn (MD5 e) (now e) (rand e) CSPNAME CLIENTNAME) (map_option with_cors \<circ> turn_response)"
proof -
  have "at_path turn_request ''/getAppropriateTurn''" by (rule at_path_self) (simp_all add: turn_request_def)
  then have "routes e turn_request = get_getAppropriateTurn (MD5 e) (now e) (rand e) turn_request"
    by (simp add: routes_def path_simps) (simp add: turn_request_def)
  then show ?thesis using assms
    by (simp add: app_def get_getAppropriateTurn_def) (simp add: turn_request_def opt_str_def)
qed

lemma app_credentials_request:
  assumes "static (credentials_request v) = None"
  shows "app static e (credentials_request v) =
    Await (getCredentials (MD5 e) (rand e) (Some (param_str v))) (map_option with_cors \<circ> json_response)"
proof -
  have "at_path (credentials_request v) ''/getCredentials''" by (rule at_path_self) (simp_all add: credentials_request_def)
  then have "routes e (credentials_request v) = get_getCredentials (MD5 e) (rand e) (credentials_request v)"
    by (simp add: routes_def path_simps) (simp add: credentials_request_def)
  then show ?thesis using assms
    by (simp add: app_def get_getCredentials_def) (simp add: credentials_request_def)
qed


definition demo_page :: mem where
  "demo_page = empty_mem\<lparr>m_dbs := (\<lambda>_. [])(2 := [(''prov:reThinkTestCSP'', MHash [(''dataQuota'', ''1073741824'')]),
     (''prov:reThinkTestCSP:conso'', MHash [(''data'', ''10'')]), (''turnservers:turn1'', MStr ''up'')])\<rparr>"


end
