(* ===== verification/WebRTC_System.thy ===== *)
theory WebRTC_System
  imports WebRTC_Client
begin

text \<open>
  The WebRTC example as a whole: any number of pages (\<open>WebRTC_Client\<close>) on one signalling server
  (\<open>WebRTC_Signalling\<close>).

  Each page has a socket, which keeps the order of what is sent in either direction; pages, server and
  browsers act in any order.  A page that is closed sends its farewell and its socket is disconnected; a
  connection that is lost while the page stays open is outside the model.  Socket identifiers are never
  used twice, and no user types one as the name of a room (\<open>ids\<close> holds the identifiers).
\<close>

section \<open>Pages and server\<close>

record 's net =
  n_rooms :: 's
  n_pages :: "string \<Rightarrow> client option"
  n_up :: "string \<Rightarrow> server_event list"
  n_down :: "string \<Rightarrow> socket_event list"
  n_used :: "string set"

text \<open>What a page emits on its socket, as events of the server.\<close>

fun server_event_of :: "string \<Rightarrow> client_effect \<Rightarrow> server_event list" where
  "server_event_of sid (EmitMessage (JStr r) m) = [Message sid r m]"
| "server_event_of sid (EmitCreateOrJoin (JStr r)) = [CreateOrJoin sid r]"
| "server_event_of sid (EmitBye (JStr r)) = [Bye sid r]"
| "server_event_of sid _ = []"

definition emitted :: "string \<Rightarrow> client \<Rightarrow> client \<Rightarrow> server_event list" where
  "emitted sid c c' = concat (map (server_event_of sid) (drop (length (trace c)) (trace c')))"

definition deliver :: "emission list \<Rightarrow> (string \<Rightarrow> socket_event list) \<Rightarrow> string \<Rightarrow> socket_event list" where
  "deliver out q sid = q sid @ map snd (filter (\<lambda>(to, _). sid \<in> to) out)"

datatype net_action =
    OpenPage string string
  | Serve string
  | Deliver string
  | Browser string client_event
  | ClosePage string

fun browser_event :: "client_event \<Rightarrow> bool" where
  "browser_event (Socket _) = False"
| "browser_event Unload = False"
| "browser_event _ = True"

text \<open>The page of a socket handles an event and sends what the handler emits.\<close>

definition page_does :: "(rtc_config option \<Rightarrow> bool) \<Rightarrow> (string \<Rightarrow> rtc_config option) \<Rightarrow> string \<Rightarrow> client_event \<Rightarrow> client \<Rightarrow> 's net \<Rightarrow> 's net" where
  "page_does pc_ok cfg sid ev c N =
     (let c' = fst (client_step pc_ok (cfg sid) ev c) in
      N\<lparr>n_pages := (n_pages N)(sid \<mapsto> c'), n_up := (n_up N)(sid := n_up N sid @ emitted sid c c')\<rparr>)"

fun net_do ::
  "('s \<Rightarrow> string \<Rightarrow> string set) \<Rightarrow> (string \<Rightarrow> string \<Rightarrow> 's \<Rightarrow> 's) \<Rightarrow> (string \<Rightarrow> string \<Rightarrow> 's \<Rightarrow> 's) \<Rightarrow> (string \<Rightarrow> 's \<Rightarrow> 's)
    \<Rightarrow> (rtc_config option \<Rightarrow> bool) \<Rightarrow> (string \<Rightarrow> rtc_config option) \<Rightarrow> string set \<Rightarrow> net_action \<Rightarrow> 's net \<Rightarrow> 's net option" where
  "net_do members join leave quit pc_ok cfg ids (OpenPage sid r) N =
     (if sid \<in> ids \<and> sid \<notin> n_used N \<and> r \<notin> ids then
        (let c0 = new_client (JStr r); c = fst (startupBehavior c0) in
         Some (N\<lparr>n_pages := (n_pages N)(sid \<mapsto> c),
                 n_up := (n_up N)(sid := Connect sid # emitted sid c0 c), n_used := insert sid (n_used N)\<rparr>))
      else None)"
| "net_do members join leave quit pc_ok cfg ids (Serve sid) N =
     (case n_up N sid of [] \<Rightarrow> None
      | e # es \<Rightarrow> (let (s, out) = serve_event members join leave quit e (n_rooms N) in
          Some (N\<lparr>n_rooms := s, n_up := (n_up N)(sid := es), n_down := deliver out (n_down N)\<rparr>)))"
| "net_do members join leave quit pc_ok cfg ids (Deliver sid) N =
     (case (n_down N sid, n_pages N sid) of
        (ev # evs, Some c) \<Rightarrow> Some (page_does pc_ok cfg sid (Socket ev) c (N\<lparr>n_down := (n_down N)(sid := evs)\<rparr>))
      | _ \<Rightarrow> None)"
| "net_do members join leave quit pc_ok cfg ids (Browser sid ev) N =
     (case n_pages N sid of Some c \<Rightarrow> if browser_event ev then Some (page_does pc_ok cfg sid ev c N) else None
      | None \<Rightarrow> None)"
| "net_do members join leave quit pc_ok cfg ids (ClosePage sid) N =
     (case n_pages N sid of
        Some c \<Rightarrow> (let N' = page_does pc_ok cfg sid Unload c N in
          Some (N'\<lparr>n_pages := (n_pages N')(sid := None), n_up := (n_up N')(sid := n_up N' sid @ [Disconnect sid])\<rparr>))
      | None \<Rightarrow> None)"

definition net_start :: "'s \<Rightarrow> 's net" where
  "net_start s = \<lparr>n_rooms = s, n_pages = (\<lambda>_. None), n_up = (\<lambda>_. []), n_down = (\<lambda>_. []), n_used = {}\<rparr>"

inductive net_reach ::
  "('s \<Rightarrow> string \<Rightarrow> string set) \<Rightarrow> (string \<Rightarrow> string \<Rightarrow> 's \<Rightarrow> 's) \<Rightarrow> (string \<Rightarrow> string \<Rightarrow> 's \<Rightarrow> 's) \<Rightarrow> (string \<Rightarrow> 's \<Rightarrow> 's)
    \<Rightarrow> (rtc_config option \<Rightarrow> bool) \<Rightarrow> (string \<Rightarrow> rtc_config option) \<Rightarrow> string set \<Rightarrow> 's \<Rightarrow> 's net \<Rightarrow> bool"
  for members join leave quit pc_ok cfg ids s0 where
  start: "net_reach members join leave quit pc_ok cfg ids s0 (net_start s0)"
| step: "net_reach members join leave quit pc_ok cfg ids s0 N \<Longrightarrow> net_do members join leave quit pc_ok cfg ids a N = Some N'
    \<Longrightarrow> net_reach members join leave quit pc_ok cfg ids s0 N'"

section \<open>What a callback may change\<close>

definition in_call :: "client \<Rightarrow> client \<Rightarrow> bool" where
  "in_call c c' = (room c' = room c \<and> isChannelReady c' = isChannelReady c
     \<and> (\<exists>es. trace c' = trace c @ es \<and> (\<forall>e \<in> set es. \<not> room_effect e))
     \<and> (isStarted c' \<longrightarrow> isStarted c \<or> isChannelReady c))"

lemma in_call_emit: "\<not> room_effect e \<Longrightarrow> in_call c (c\<lparr>trace := trace c @ [e]\<rparr>)"
  by (simp add: in_call_def)

lemma in_call_trans: "in_call c c1 \<Longrightarrow> in_call c1 c2 \<Longrightarrow> in_call c c2"
  by (auto simp: in_call_def)

lemma in_call_maybeStart: "does in_call (maybeStart ok cfg)"
  by (auto simp: does_def in_call_def maybeStart_def createPeerConnection_def addStream_def doCall_def act_defs)

interpretation call: page_relation in_call
proof unfold_locales
  show "does in_call stop" by (auto simp: does_def in_call_def stop_def act_defs)
qed (fact in_call_trans in_call_emit in_call_maybeStart | simp add: in_call_def)+

text \<open>A handler on the socket or in the browser keeps the room, emits messages only, and starts a call
  only when the channel is ready; the channel becomes ready by \<open>join\<close> and \<open>joined\<close> only.\<close>

fun admission_event :: "socket_event \<Rightarrow> bool" where
  "admission_event (Join _) = True"
| "admission_event (Joined _) = True"
| "admission_event _ = False"

lemma browser_in_call: "browser_event ev \<Longrightarrow> in_call c (fst (client_step ok cfg ev c))"
  using call.does_client_step[of ev ok cfg] by (cases ev) (auto simp: does_def)

lemma socket_in_call: "\<not> admission_event ev \<Longrightarrow> in_call c (fst (client_step ok cfg (Socket ev) c))"
  using call.does_client_step[of "Socket ev" ok cfg] by (cases ev) (auto simp: does_def)

lemma admission_ready: "admission_event ev \<Longrightarrow> fst (client_step ok cfg (Socket ev) c) = c\<lparr>isChannelReady := True\<rparr>"
  by (cases ev) (simp_all add: on_socket_def upd_def)

lemma in_call_emitted:
  assumes "in_call c c'" and "e \<in> set (emitted sid c c')"
  obtains r m where "e = Message sid r m"
proof -
  obtain x where "e \<in> set (server_event_of sid x)" "\<not> room_effect x" using assms by (auto simp: in_call_def emitted_def)
  then show thesis by (cases "(sid, x)" rule: server_event_of.cases) (auto intro: that)
qed

lemma emitted_ready [simp]: "emitted sid c (c\<lparr>isChannelReady := b\<rparr>) = []"
  by (simp add: emitted_def)

lemma emitted_unload: "room c = JStr r \<Longrightarrow> emitted sid c (fst (client_step ok cfg Unload c)) = [Bye sid r, Message sid r (JStr ''bye'')]"
  by (simp add: emitted_def on_beforeunload_def sendMessage_def act_defs)

lemma startup_page:
  "fst (startupBehavior (new_client (JStr r)))
    = (new_client (JStr r))\<lparr>trace := [OpenSocket RTCSERVICEURL, GetUserMedia media_constraints]
        @ (if r = [] then [] else [EmitCreateOrJoin (JStr r)])\<rparr>"
  "emitted sid (new_client (JStr r)) (fst (startupBehavior (new_client (JStr r)))) = (if r = [] then [] else [CreateOrJoin sid r])"
  by (simp_all add: startupBehavior_def new_client_def act_defs emitted_def)

lemma startup_state:
  "room (fst (startupBehavior (new_client (JStr r)))) = JStr r" "\<not> isStarted (fst (startupBehavior (new_client (JStr r))))"
  "\<not> isChannelReady (fst (startupBehavior (new_client (JStr r))))"
  unfolding startup_page(1) by (simp_all add: new_client_def)

section \<open>The invariant\<close>

fun sender :: "server_event \<Rightarrow> string" where
  "sender (Connect sid) = sid"
| "sender (Disconnect sid) = sid"
| "sender (Message sid _ _) = sid"
| "sender (CreateOrJoin sid _) = sid"
| "sender (Bye sid _) = sid"

text \<open>What an open page may still have on its way to the server.\<close>

definition sendable :: "string \<Rightarrow> server_event \<Rightarrow> bool" where
  "sendable r e = (case e of CreateOrJoin _ r' \<Rightarrow> r' = r | Bye _ _ \<Rightarrow> False | Disconnect _ \<Rightarrow> False | _ \<Rightarrow> True)"

text \<open>An open page has one room, it is in no other one, and it is in that room once it has been told so.\<close>

definition page_ok :: "string set \<Rightarrow> (string \<Rightarrow> string set) \<Rightarrow> string \<Rightarrow> client \<Rightarrow> server_event list \<Rightarrow> socket_event list \<Rightarrow> bool" where
  "page_ok ids M sid c up down = (\<exists>r. room c = JStr r \<and> r \<notin> ids \<and> (isStarted c \<longrightarrow> isChannelReady c)
     \<and> (isChannelReady c \<or> (\<exists>ev \<in> set down. admission_event ev) \<longrightarrow> sid \<in> M r)
     \<and> (\<forall>r'. sid \<in> M r' \<and> r' \<notin> ids \<longrightarrow> r' = r) \<and> (\<forall>e \<in> set up. sendable r e))"

lemma page_ok_mono:
  assumes "page_ok ids M sid c up down" and "room c' = room c" and "isStarted c' \<Longrightarrow> isChannelReady c'"
    and "isChannelReady c' \<Longrightarrow> isChannelReady c \<or> (\<exists>ev \<in> set down. admission_event ev)"
    and "set down' \<subseteq> set down" and "\<And>e r. e \<in> set up' \<Longrightarrow> e \<in> set up \<or> sendable r e"
  shows "page_ok ids M sid c' up' down'"
proof -
  obtain r where r: "room c = JStr r" "r \<notin> ids" "isChannelReady c \<or> (\<exists>ev \<in> set down. admission_event ev) \<longrightarrow> sid \<in> M r"
      "\<forall>r'. sid \<in> M r' \<and> r' \<notin> ids \<longrightarrow> r' = r" "\<forall>e \<in> set up. sendable r e"
    using assms(1) unfolding page_ok_def by blast
  have "isChannelReady c' \<or> (\<exists>ev \<in> set down'. admission_event ev) \<longrightarrow> sid \<in> M r" using r(3) assms(4,5) by blast
  moreover have "room c' = JStr r" using r(1) assms(2) by simp
  moreover have "\<forall>e \<in> set up'. sendable r e" using r(5) assms(6) by blast
  ultimately show ?thesis unfolding page_ok_def using r(2,4) assms(3) by blast
qed

definition queue_ok :: "string set \<Rightarrow> string \<Rightarrow> server_event \<Rightarrow> bool" where
  "queue_ok ids sid e = (sender e = sid \<and> (\<forall>r. e = CreateOrJoin sid r \<longrightarrow> r \<notin> ids))"

definition net_ok :: "string set \<Rightarrow> (string \<Rightarrow> string set) \<Rightarrow> 's net \<Rightarrow> bool" where
  "net_ok ids M N = (n_used N \<subseteq> ids
     \<and> (\<forall>sid. sid \<notin> n_used N \<longrightarrow> n_pages N sid = None \<and> n_up N sid = [] \<and> n_down N sid = [] \<and> (\<forall>r. sid \<notin> M r))
     \<and> (\<forall>sid c. n_pages N sid = Some c \<longrightarrow> page_ok ids M sid c (n_up N sid) (n_down N sid))
     \<and> (\<forall>sid. \<forall>e \<in> set (n_up N sid). queue_ok ids sid e)
     \<and> (\<forall>r. r \<notin> ids \<longrightarrow> card (M r) \<le> 2))"

lemmas net_okD = net_ok_def[THEN iffD1, THEN conjunct1]
  net_ok_def[THEN iffD1, THEN conjunct2, THEN conjunct1, rule_format]
  net_ok_def[THEN iffD1, THEN conjunct2, THEN conjunct2, THEN conjunct1, rule_format]
  net_ok_def[THEN iffD1, THEN conjunct2, THEN conjunct2, THEN conjunct2, THEN conjunct1, rule_format]
  net_ok_def[THEN iffD1, THEN conjunct2, THEN conjunct2, THEN conjunct2, THEN conjunct2, rule_format]

text \<open>One page and its queues change, the rooms stay.\<close>

lemma net_ok_page:
  assumes "net_ok ids M N" and "sid \<in> ids" and "\<forall>e \<in> set up. queue_ok ids sid e"
    and "\<And>c. pg = Some c \<Longrightarrow> page_ok ids M sid c up down"
    and "n_used N' = insert sid (n_used N)" "n_pages N' = (n_pages N)(sid := pg)" "n_up N' = (n_up N)(sid := up)"
      "n_down N' = (n_down N)(sid := down)"
  shows "net_ok ids M N'"
  using assms by (auto simp: net_ok_def)

lemma open_ok:
  assumes N: "net_ok ids M N" and fresh: "sid \<in> ids" "sid \<notin> n_used N" "r \<notin> ids"
    and do: "net_do members join leave quit ok cfg ids (OpenPage sid r) N = Some N'"
  shows "net_ok ids M N'"
proof (rule net_ok_page[OF N fresh(1), of "Connect sid # (if r = [] then [] else [CreateOrJoin sid r])"
      "Some (fst (startupBehavior (new_client (JStr r))))" "[]"])
  note sid = net_okD(2)[OF N fresh(2)]
  show "\<forall>e \<in> set (Connect sid # (if r = [] then [] else [CreateOrJoin sid r])). queue_ok ids sid e"
    using fresh(3) by (simp add: queue_ok_def)
  show "page_ok ids M sid c (Connect sid # (if r = [] then [] else [CreateOrJoin sid r])) []"
    if "Some (fst (startupBehavior (new_client (JStr r)))) = Some c" for c
    using that[symmetric] fresh(3) sid by (simp add: startup_state page_ok_def sendable_def)
qed (use do fresh net_okD(2)[OF N fresh(2)] in \<open>auto simp: Let_def startup_page(2)\<close>)

text \<open>A page handles an event.\<close>

lemma page_does_ok:
  assumes N: "net_ok ids M N" and c: "n_pages N sid = Some c" and "in_call c c'"
    and "n_used N' = n_used N" "n_pages N' = (n_pages N)(sid \<mapsto> c')" "n_up N' = (n_up N)(sid := n_up N sid @ emitted sid c c')"
      "n_down N' = (n_down N)(sid := down)" and down: "set down \<subseteq> set (n_down N sid)"
  shows "net_ok ids M N'"
proof (rule net_ok_page[OF N])
  have u: "sid \<in> n_used N" using net_okD(2)[OF N] c by fastforce
  then show "sid \<in> ids" using net_okD(1)[OF N] by blast
  show "n_used N' = insert sid (n_used N)" using u assms(4) by auto
  show "\<forall>e \<in> set (n_up N sid @ emitted sid c c'). queue_ok ids sid e"
    using net_okD(4)[OF N] by (auto simp: queue_ok_def elim: in_call_emitted[OF assms(3)])
  have new: "sendable r e" if "e \<in> set (emitted sid c c')" for e r
    using that by (auto simp: sendable_def elim: in_call_emitted[OF assms(3)])
  have "isStarted c' \<Longrightarrow> isChannelReady c'" using net_okD(3)[OF N c] assms(3) by (auto simp: page_ok_def in_call_def)
  then show "page_ok ids M sid x (n_up N sid @ emitted sid c c') down" if "Some c' = Some x" for x
    using that new down assms(3) by (intro page_ok_mono[OF net_okD(3)[OF N c]]) (auto simp: in_call_def)
qed (use assms in simp_all)

lemma browser_ok:
  assumes "net_ok ids M N" and "net_do members join leave quit ok cfg ids (Browser sid ev) N = Some N'"
  shows "net_ok ids M N'"
proof -
  obtain c where c: "n_pages N sid = Some c" "browser_event ev" "N' = page_does ok cfg sid ev c N"
    using assms(2) by (auto split: option.splits if_splits)
  show ?thesis
    by (rule page_does_ok[OF assms(1) c(1) browser_in_call[OF c(2), of c ok "cfg sid"], of _ "n_down N sid"])
      (simp_all add: c(3) page_does_def Let_def)
qed

lemma deliver_ok:
  assumes N: "net_ok ids M N" and "net_do members join leave quit ok cfg ids (Deliver sid) N = Some N'"
  shows "net_ok ids M N'"
proof -
  obtain ev evs c where c: "n_down N sid = ev # evs" "n_pages N sid = Some c"
    "N' = page_does ok cfg sid (Socket ev) c (N\<lparr>n_down := (n_down N)(sid := evs)\<rparr>)"
    using assms(2) by (auto split: option.splits list.splits)
  show ?thesis
  proof (cases "admission_event ev")
    case True
    have u: "sid \<in> n_used N" using net_okD(2)[OF N] c(2) by fastforce
    have N': "N' = N\<lparr>n_pages := (n_pages N)(sid \<mapsto> c\<lparr>isChannelReady := True\<rparr>), n_down := (n_down N)(sid := evs)\<rparr>"
      by (simp only: c(3) page_does_def Let_def admission_ready[OF True] emitted_ready) simp
    show ?thesis
    proof (rule net_ok_page[OF N, of sid "n_up N sid" "Some (c\<lparr>isChannelReady := True\<rparr>)" evs])
      show "sid \<in> ids" using u net_okD(1)[OF N] by blast
      show "\<forall>e \<in> set (n_up N sid). queue_ok ids sid e" using net_okD(4)[OF N] by blast
      show "page_ok ids M sid x (n_up N sid) evs" if "Some (c\<lparr>isChannelReady := True\<rparr>) = Some x" for x
        using that[symmetric] c(1) True by (intro page_ok_mono[OF net_okD(3)[OF N c(2)]]) auto
    qed (use u in \<open>simp_all add: N' insert_absorb\<close>)
  next
    case False
    show ?thesis
      by (rule page_does_ok[OF N c(2) socket_in_call[OF False, of c ok "cfg sid"], of _ evs])
        (auto simp: c(1,3) page_does_def Let_def)
  qed
qed

lemma close_ok:
  assumes N: "net_ok ids M N" and "net_do members join leave quit ok cfg ids (ClosePage sid) N = Some N'"
  shows "net_ok ids M N'"
proof -
  obtain c where c: "n_pages N sid = Some c" using assms(2) by (auto split: option.splits)
  have u: "sid \<in> n_used N" using net_okD(2)[OF N] c by fastforce
  obtain r where "room c = JStr r" using net_okD(3)[OF N c] by (auto simp: page_ok_def)
  note e = emitted_unload[OF this, of sid ok "cfg sid"]
  show ?thesis
    by (rule net_ok_page[OF N, of sid "n_up N sid @ [Bye sid r, Message sid r (JStr ''bye''), Disconnect sid]" None "n_down N sid"])
      (use u net_okD(1,4)[OF N] assms(2) c e in \<open>auto simp: page_does_def Let_def queue_ok_def\<close>)
qed

text \<open>The server handles an event, in terms of the admission rule it refines.\<close>

lemma spec_room_keep: "x \<in> R \<Longrightarrow> (sender e = x \<Longrightarrow> sendable r0 e) \<Longrightarrow> x \<in> spec_room e r R"
  by (cases e) (auto simp: spec_room_def sendable_def)

lemma spec_room_new:
  "x \<in> spec_room e r R \<Longrightarrow> x \<in> R \<or> sender e = x \<and> (e = CreateOrJoin x r \<or> e = Connect x \<and> r = x)"
  by (cases e) (auto simp: spec_room_def split: if_splits)

lemma spec_out_targets: "(T, ev) \<in> set (spec_out e M) \<Longrightarrow> x \<in> T \<Longrightarrow> x = sender e \<or> (\<exists>r. x \<in> M r)"
  by (cases e) (auto simp: spec_out_def split: admission.splits)

lemma spec_out_admission:
  assumes "(T, ev) \<in> set (spec_out e M)" and "x \<in> T" and "admission_event ev"
  shows "\<exists>r. e = CreateOrJoin (sender e) r \<and> (x \<in> M r \<or> x = sender e \<and> x \<in> spec_room e r (M r))"
  using assms by (cases e) (auto simp: spec_out_def spec_room_def split: admission.splits)

lemma deliver_in: "ev \<in> set (deliver out q x) \<longleftrightarrow> ev \<in> set (q x) \<or> (\<exists>T. (T, ev) \<in> set out \<and> x \<in> T)"
  by (force simp: deliver_def)

lemma served_page_ok:
  assumes p: "page_ok ids M x c up down" and up: "set up' \<subseteq> set up"
    and e: "sender e \<in> ids" "\<And>r. e = CreateOrJoin (sender e) r \<Longrightarrow> r \<notin> ids" "sender e = x \<Longrightarrow> e \<in> set up"
    and M': "\<And>r. M' r = spec_room e r (M r)"
    and down: "\<And>ev. ev \<in> set down' \<Longrightarrow> ev \<in> set down \<or> (\<exists>T. (T, ev) \<in> set (spec_out e M) \<and> x \<in> T)"
  shows "page_ok ids M' x c up' down'"
proof -
  obtain r where r: "room c = JStr r" "r \<notin> ids" "isStarted c \<longrightarrow> isChannelReady c"
      "isChannelReady c \<or> (\<exists>ev \<in> set down. admission_event ev) \<longrightarrow> x \<in> M r"
      "\<forall>r'. x \<in> M r' \<and> r' \<notin> ids \<longrightarrow> r' = r" "\<forall>e \<in> set up. sendable r e"
    using p unfolding page_ok_def by blast
  have own: "r' = r" if "e = CreateOrJoin (sender e) r'" "sender e = x" for r'
    using that e(3) r(6) sendable_def[of r e] by (cases e) auto
  have keep: "x \<in> M r \<Longrightarrow> x \<in> M' r" unfolding M' by (rule spec_room_keep) (use e(3) r(6) in blast)+
  have "x \<in> M' r" if ev: "ev \<in> set down'" "admission_event ev" for ev
  proof (cases "ev \<in> set down")
    case True
    then show ?thesis using ev(2) r(4) keep by blast
  next
    case False
    then obtain T where T: "(T, ev) \<in> set (spec_out e M)" "x \<in> T" using down[OF ev(1)] by blast
    obtain r' where r': "e = CreateOrJoin (sender e) r'" "x \<in> M r' \<or> x = sender e \<and> x \<in> spec_room e r' (M r')"
      using spec_out_admission[OF T ev(2)] by blast
    have "r' = r" using r'(2) e(2)[OF r'(1)] r(5) own[OF r'(1)] by blast
    then show ?thesis using r'(2) keep M' by blast
  qed
  moreover have "r' = r" if "x \<in> M' r'" "r' \<notin> ids" for r'
  proof -
    have "x \<in> M r' \<or> sender e = x \<and> (e = CreateOrJoin x r' \<or> r' = x)" using spec_room_new that(1) M' by blast
    then show ?thesis using r(5) that(2) own e(1) by blast
  qed
  moreover have "isChannelReady c \<Longrightarrow> x \<in> M' r" using r(4) keep by blast
  ultimately show ?thesis unfolding page_ok_def using r(1-3,6) up by blast
qed

context room_service
begin

lemma serve_ok:
  assumes N: "net_ok ids (members (n_rooms N)) N"
    and "net_do members join leave quit ok cfg ids (Serve sid) N = Some N'"
  shows "net_ok ids (members (n_rooms N')) N'"
proof -
  let ?M = "members (n_rooms N)"
  obtain e es where up: "n_up N sid = e # es" using assms(2) by (auto split: list.splits)
  let ?out = "spec_out e ?M" and ?M' = "members (n_rooms N')"
  have N': "N' = N\<lparr>n_rooms := fst (serve_event members join leave quit e (n_rooms N)), n_up := (n_up N)(sid := es),
      n_down := deliver ?out (n_down N)\<rparr>"
    using assms(2) up by (simp add: case_prod_beta refines_out)
  have M': "?M' r = spec_room e r (?M r)" for r by (simp add: N' refines_room)
  have q: "sender e = sid" "\<And>r. e = CreateOrJoin (sender e) r \<Longrightarrow> r \<notin> ids"
    using net_okD(4)[OF N, of e sid] up by (auto simp: queue_ok_def)
  have u: "sid \<in> n_used N" using net_okD(2)[OF N, of sid] up by fastforce
  then have ids: "sid \<in> ids" using net_okD(1)[OF N] by blast
  have out: "\<exists>r. x \<in> ?M r" if "x \<notin> n_used N" "(T, ev) \<in> set ?out" "x \<in> T" for x T ev
    using spec_out_targets[OF that(2,3)] that(1) u q(1) by blast
  have "n_pages N' x = None \<and> n_up N' x = [] \<and> n_down N' x = [] \<and> (\<forall>r. x \<notin> ?M' r)" if x: "x \<notin> n_used N'" for x
  proof -
    have x': "x \<notin> n_used N" "x \<noteq> sid" using x u by (auto simp: N')
    have "n_down N' x = []"
      using net_okD(2)[OF N x'(1)] out[OF x'(1)] by (auto simp: N' deliver_def filter_empty_conv)
    moreover have "x \<notin> ?M' r" for r using spec_room_new[of x e r "?M r"] net_okD(2)[OF N x'(1)] x'(2) q(1) M' by blast
    ultimately show ?thesis using net_okD(2)[OF N x'(1)] x'(2) by (simp add: N')
  qed
  moreover have "page_ok ids ?M' x c (n_up N' x) (n_down N' x)" if c: "n_pages N' x = Some c" for x c
  proof (rule served_page_ok[OF net_okD(3)[OF N]])
    show "n_pages N x = Some c" using c by (simp add: N')
    show "set (n_up N' x) \<subseteq> set (n_up N x)" using up by (auto simp: N')
    show "ev \<in> set (n_down N x) \<or> (\<exists>T. (T, ev) \<in> set ?out \<and> x \<in> T)" if "ev \<in> set (n_down N' x)" for ev
      using that by (simp add: N' deliver_in)
  qed (use q ids up M' in auto)
  moreover have "\<forall>e' \<in> set (n_up N' x). queue_ok ids x e'" for x using net_okD(4)[OF N] up by (auto simp: N')
  moreover have "card (?M' r) \<le> 2" if "r \<notin> ids" for r
  proof -
    have "e \<noteq> Connect r" using q(1) ids that by auto
    then show ?thesis using room_step[OF net_okD(5)[OF N that], of e] by (simp add: N')
  qed
  ultimately show ?thesis using net_okD(1)[OF N] by (simp add: net_ok_def N')
qed

lemma rooms_served: "net_do members join leave quit ok cfg ids a N = Some N' \<Longrightarrow> a \<notin> range Serve \<Longrightarrow> n_rooms N' = n_rooms N"
  by (cases a) (auto simp: page_does_def Let_def split: list.splits option.splits if_splits)

lemma net_step_ok:
  assumes "net_ok ids (members (n_rooms N)) N" and do: "net_do members join leave quit ok cfg ids a N = Some N'"
  shows "net_ok ids (members (n_rooms N')) N'"
proof (cases "a \<in> range Serve")
  case True
  then show ?thesis using serve_ok assms by blast
next
  case False
  have "net_ok ids (members (n_rooms N)) N'"
  proof (cases a)
    case (OpenPage sid r)
    then show ?thesis using open_ok[OF assms(1) _ _ _ do[unfolded OpenPage]] do by (simp split: if_splits)
  next
    case (Deliver sid)
    then show ?thesis using deliver_ok[OF assms(1) do[unfolded Deliver]] by simp
  next
    case (Browser sid ev)
    then show ?thesis using browser_ok[OF assms(1) do[unfolded Browser]] by simp
  next
    case (ClosePage sid)
    then show ?thesis using close_ok[OF assms(1) do[unfolded ClosePage]] by simp
  qed (use False in simp)
  then show ?thesis unfolding rooms_served[OF do False] .
qed

lemma net_reach_ok:
  assumes "net_reach members join leave quit ok cfg ids s0 N" and "\<And>r. members s0 r = {}"
  shows "net_ok ids (members (n_rooms N)) N"
  using assms(1)
proof induction
  case start
  then show ?case using assms(2) by (simp add: net_ok_def net_start_def)
qed (rule net_step_ok)

end

section \<open>Runs\<close>

fun net_acts ::
  "('s \<Rightarrow> string \<Rightarrow> string set) \<Rightarrow> (string \<Rightarrow> string \<Rightarrow> 's \<Rightarrow> 's) \<Rightarrow> (string \<Rightarrow> string \<Rightarrow> 's \<Rightarrow> 's) \<Rightarrow> (string \<Rightarrow> 's \<Rightarrow> 's)
    \<Rightarrow> (rtc_config option \<Rightarrow> bool) \<Rightarrow> (string \<Rightarrow> rtc_config option) \<Rightarrow> string set \<Rightarrow> net_action list \<Rightarrow> 's net \<Rightarrow> 's net option" where
  "net_acts members join leave quit pc_ok cfg ids [] N = Some N"
| "net_acts members join leave quit pc_ok cfg ids (a # as) N =
     Option.bind (net_do members join leave quit pc_ok cfg ids a N) (net_acts members join leave quit pc_ok cfg ids as)"

lemma net_acts_reach:
  "net_acts members join leave quit pc_ok cfg ids as N = Some N' \<Longrightarrow> net_reach members join leave quit pc_ok cfg ids s0 N
    \<Longrightarrow> net_reach members join leave quit pc_ok cfg ids s0 N'"
  by (induction as arbitrary: N) (auto simp: bind_eq_Some_conv intro: net_reach.step)

definition call_schedule :: "string \<Rightarrow> string \<Rightarrow> string \<Rightarrow> jsval \<Rightarrow> jsval \<Rightarrow> jsval \<Rightarrow> jsval \<Rightarrow> net_action list" where
  "call_schedule a b r s1 s2 offer answer =
     [OpenPage a r, Serve a, Serve a, Deliver a, Browser a (UserMedia s1), Serve a,
      OpenPage b r, Serve b, Serve b, Deliver a, Deliver b, Browser b (UserMedia s2), Serve b, Deliver a,
      Browser a (DescriptionReady offer), Serve a, Deliver b, Browser b (DescriptionReady answer), Serve b, Deliver a]"

definition outsider_schedule ::
  "string \<Rightarrow> string \<Rightarrow> string \<Rightarrow> string \<Rightarrow> jsval \<Rightarrow> jsval \<Rightarrow> jsval \<Rightarrow> jsval \<Rightarrow> net_action list" where
  "outsider_schedule a b c r s1 s2 s3 offer =
     [OpenPage a r, Serve a, Serve a, Deliver a, Browser a (UserMedia s1), Serve a,
      OpenPage b r, Serve b, Serve b, Deliver a, Deliver b,
      OpenPage c r, Serve c, Serve c, Deliver c, Browser c (UserMedia s3), Serve c, Deliver a, Deliver b,
      Browser a (DescriptionReady offer), Serve a, Deliver b, Browser b (UserMedia s2), Serve b, Deliver a]"

lemmas page_defs = on_socket_def on_peer_message_def on_offer_def maybeStart_def createPeerConnection_def addStream_def
  doCall_def doAnswer_def caught_def handleUserMedia_def sendMessage_def setLocalAndSendMessage_def act_defs

context room_service
begin

lemma call_schedule_runs:
  assumes "\<And>r. members s0 r = {}" and "a \<noteq> b" "a \<in> ids" "b \<in> ids" "r \<notin> ids" "r \<noteq> []"
    and "s1 \<notin> {JNull, JUndef}" and "s2 \<notin> {JNull, JUndef}"
    and "offer = JObj [(''type'', JStr ''offer''), (''sdp'', sd1)]"
    and "answer = JObj [(''type'', JStr ''answer''), (''sdp'', sd2)]"
  shows "\<exists>N ca cb. net_acts members join leave quit (\<lambda>_. True) cfg ids (call_schedule a b r s1 s2 offer answer) (net_start s0) = Some N
    \<and> n_pages N a = Some ca \<and> isStarted ca \<and> pc ca = Some (cfg a) \<and> CreateOffer \<in> set (trace ca) \<and> SetRemote answer \<in> set (trace ca)
    \<and> n_pages N b = Some cb \<and> isStarted cb \<and> pc cb = Some None \<and> SetRemote offer \<in> set (trace cb) \<and> CreateAnswer sdpConstraints \<in> set (trace cb)"
proof -
  have "r \<noteq> a" "r \<noteq> b" using assms by auto
  then show ?thesis unfolding call_schedule_def net_start_def using assms
    by (simp add: startupBehavior_def page_does_def page_defs emitted_def deliver_def new_client_def
       on_create_or_join_def on_room_message_def members_join)
qed

lemma outsider_schedule_runs:
  assumes "\<And>r. members s0 r = {}" and "a \<noteq> b" "a \<noteq> c" "b \<noteq> c" "{a, b, c} \<subseteq> ids" "r \<notin> ids" "r \<noteq> []"
    and "s1 \<notin> {JNull, JUndef}" "s2 \<notin> {JNull, JUndef}" "s3 \<notin> {JNull, JUndef}" and "offer = JObj [(''type'', JStr ''offer''), (''sdp'', sd)]"
  shows "\<exists>N ca cb. net_acts members join leave quit (\<lambda>_. True) cfg ids (outsider_schedule a b c r s1 s2 s3 offer) (net_start s0) = Some N
    \<and> c \<notin> members (n_rooms N) r \<and> n_up N a = [] \<and> n_down N a = [] \<and> n_up N b = [] \<and> n_down N b = []
    \<and> n_pages N a = Some ca \<and> isStarted ca \<and> EmitMessage (JStr r) offer \<in> set (trace ca)
    \<and> n_pages N b = Some cb \<and> localStream cb = s2 \<and> isChannelReady cb \<and> \<not> isStarted cb \<and> (\<forall>m. SetRemote m \<notin> set (trace cb))"
proof -
  have "r \<noteq> a" "r \<noteq> b" "r \<noteq> c" using assms by auto
  then show ?thesis unfolding outsider_schedule_def net_start_def using assms
    by (simp add: startupBehavior_def page_does_def page_defs emitted_def deliver_def new_client_def
       on_create_or_join_def on_room_message_def members_join)
qed

end

section \<open>Properties of the whole example\<close>

text \<open>
  C17. Calls stay in their rooms.  Whatever pages are opened and closed, whatever browsers and users do and
  however events interleave, a page with a started call is a member of the room that its user typed,
  and at most two open pages per room have a call.
\<close>

theorem calls_stay_in_rooms:
  assumes "room_service members join leave quit" and "\<And>r. members s0 r = {}"
    and "net_reach members join leave quit pc_ok cfg ids s0 N"
  shows "(\<forall>sid c. n_pages N sid = Some c \<and> isStarted c \<longrightarrow> (\<exists>r. room c = JStr r \<and> sid \<in> members (n_rooms N) r))
    \<and> card {sid. \<exists>c. n_pages N sid = Some c \<and> isStarted c \<and> room c = JStr r} \<le> 2"
proof -
  note ok = room_service.net_reach_ok[OF assms(1,3,2)]
  have p: "\<exists>r. room c = JStr r \<and> r \<notin> ids \<and> sid \<in> members (n_rooms N) r" if "n_pages N sid = Some c" "isStarted c" for sid c
    using net_okD(3)[OF ok that(1)] that(2) by (auto simp: page_ok_def)
  let ?S = "{sid. \<exists>c. n_pages N sid = Some c \<and> isStarted c \<and> room c = JStr r}"
  have "card ?S \<le> 2"
  proof (cases "?S = {}")
    case True
    then show ?thesis by (simp only: card.empty)
  next
    case False
    then have "r \<notin> ids" "?S \<subseteq> members (n_rooms N) r" using p by fastforce+
    then show ?thesis
      using net_okD(5)[OF ok] card_mono[OF room_service.finite_members[OF assms(1)]] le_trans by blast
  qed
  then show ?thesis using p by blast
qed


theorem calls_stay_in_rooms_witness:
  "\<exists>N c. net_reach rm_members rm_join rm_leave rm_quit (\<lambda>_. True) (\<lambda>_. None) {''a'', ''b''} [] N
    \<and> n_pages N ''a'' = Some c \<and> isStarted c \<and> (\<exists>r. room c = JStr r \<and> ''a'' \<in> rm_members (n_rooms N) r)"
proof -
  have e: "rm_members [] r = {}" for r by (simp add: rm_members_def)
  obtain N c where N: "net_acts rm_members rm_join rm_leave rm_quit (\<lambda>_. True) (\<lambda>_. None) {''a'', ''b''}
      (call_schedule ''a'' ''b'' ''r'' (JStr ''s1'') (JStr ''s2'') (JObj [(''type'', JStr ''offer''), (''sdp'', JNull)])
        (JObj [(''type'', JStr ''answer''), (''sdp'', JNull)])) (net_start []) = Some N"
      "n_pages N ''a'' = Some c" "isStarted c"
    using rm.call_schedule_runs[where a = "''a''" and b = "''b''" and ids = "{''a'', ''b''}" and r = "''r''" and ?s1.0 = "JStr ''s1''" and ?s2.0 = "JStr ''s2''"
      and ?sd1.0 = JNull and ?sd2.0 = JNull and cfg = "\<lambda>_. None", OF e _ _ _ _ _ _ _ refl refl] by auto
  have "net_reach rm_members rm_join rm_leave rm_quit (\<lambda>_. True) (\<lambda>_. None) {''a'', ''b''} [] N"
    by (rule net_acts_reach[OF N(1) net_reach.start])
  then show ?thesis using calls_stay_in_rooms[OF rm.room_service_axioms e] N(2,3) by blast
qed



text \<open>
  The server forwards the messages of a client that it has refused.  Its \<open>got user media\<close> makes the first
  member of the room send its offer before the second has a stream; the second page throws on the offer,
  and when its stream arrives the first page has started already: nothing is in transit any more and the
  call is never answered.
\<close>

theorem outsider_blocks_call:
  assumes "room_service members join leave quit" and "\<And>r. members s0 r = {}"
    and "a \<noteq> b" "a \<noteq> c" "b \<noteq> c" "{a, b, c} \<subseteq> ids" "r \<notin> ids" "r \<noteq> []"
    and "s1 \<notin> {JNull, JUndef}" "s2 \<notin> {JNull, JUndef}" "s3 \<notin> {JNull, JUndef}" and "offer = JObj [(''type'', JStr ''offer''), (''sdp'', sd)]"
  shows "\<exists>N ca cb. net_acts members join leave quit (\<lambda>_. True) cfg ids (outsider_schedule a b c r s1 s2 s3 offer) (net_start s0) = Some N
    \<and> c \<notin> members (n_rooms N) r \<and> n_up N a = [] \<and> n_down N a = [] \<and> n_up N b = [] \<and> n_down N b = []
    \<and> n_pages N a = Some ca \<and> isStarted ca \<and> EmitMessage (JStr r) offer \<in> set (trace ca)
    \<and> n_pages N b = Some cb \<and> localStream cb = s2 \<and> isChannelReady cb \<and> \<not> isStarted cb \<and> (\<forall>m. SetRemote m \<notin> set (trace cb))"
  using assms by (rule room_service.outsider_schedule_runs)

theorem outsider_blocks_call_witness:
  "\<exists>N cb. net_acts rm_members rm_join rm_leave rm_quit (\<lambda>_. True) (\<lambda>_. None) {''a'', ''b'', ''c''}
      (outsider_schedule ''a'' ''b'' ''c'' ''r'' (JStr ''s1'') (JStr ''s2'') (JStr ''s3'') (JObj [(''type'', JStr ''offer''), (''sdp'', JNull)])) (net_start []) = Some N
    \<and> n_pages N ''b'' = Some cb \<and> localStream cb = JStr ''s2'' \<and> \<not> isStarted cb \<and> ''c'' \<notin> rm_members (n_rooms N) ''r''"
proof -
  have "rm_members [] r = {}" for r by (simp add: rm_members_def)
  from outsider_blocks_call[where a = "''a''" and b = "''b''" and c = "''c''" and ids = "{''a'', ''b'', ''c''}" and r = "''r''" and ?s1.0 = "JStr ''s1''"
      and ?s2.0 = "JStr ''s2''" and ?s3.0 = "JStr ''s3''" and sd = JNull and cfg = "\<lambda>_. None", OF rm.room_service_axioms this _ _ _ _ _ _ _ _ _ refl]
  show ?thesis by simp blast
qed

end
