(* ===== verification/LHCB_Lib.thy ===== *)
theory LHCB_Lib
  imports JS_Number
begin

text \<open>
  The browser library of the last-hop connectivity broker, \<^verbatim>\<open>lhcb/lhcb_lib_js/lhcb.js\<close>.

  Objects are shared: a remote client uses the broker object it was made from, so brokers and
  clients live in lists and refer to each other by position, and a promise is a position in the
  list of promises.  The browser's WebSocket is not part of the repository; a socket is its state,
  what was sent on it, and its one \<open>onmessage\<close> handler.  Sending while the socket is connecting
  throws, which rejects the promise whose executor sends; sending on a closed one does nothing.
\<close>

section \<open>Objects\<close>

datatype ready_state = CONNECTING | OPEN | CLOSED

datatype handler = ResolvePromise nat | TakeBrokerInfo

record wsock =
  ws_url :: string
  ws_state :: ready_state
  ws_sent :: "jsval list"
  onmessage :: "handler option"

record lbroker =
  b_ws :: wsock
  b_ready :: bool

record lclient =
  c_ready :: bool
  c_name :: jsval
  c_broker :: "nat option"
  localWs :: "wsock option"
  c_request :: jsval

record lib =
  mid :: nat
  brokers :: "lbroker list"
  clients :: "lclient list"
  promises :: "(jsval, string) promise list"

definition empty_lib :: lib where
  "empty_lib = \<lparr>mid = 0, brokers = [], clients = [], promises = []\<rparr>"

definition new_socket :: "string \<Rightarrow> wsock" where
  "new_socket u = \<lparr>ws_url = u, ws_state = CONNECTING, ws_sent = [], onmessage = None\<rparr>"

section \<open>Requests and promises\<close>

definition read_request :: "jsval \<Rightarrow> jsval" where
  "read_request name = JObj [(''type'', JStr ''read''), (''client'', name)]"

definition execute_request :: "jsval \<Rightarrow> jsval \<Rightarrow> jsval \<Rightarrow> jsval" where
  "execute_request client funcName args = JObj [(''type'', JStr ''execute''), (''client'', client),
     (''value'', JObj [(''name'', funcName), (''args'', args)])]"

definition local_read_request :: jsval where
  "local_read_request = JObj [(''type'', JStr ''read'')]"

definition local_execute_request :: "jsval \<Rightarrow> jsval \<Rightarrow> jsval" where
  "local_execute_request funcName args = JObj [(''type'', JStr ''execute''),
     (''value'', JObj [(''name'', funcName), (''args'', args)])]"

definition info_request :: "nat \<Rightarrow> jsval" where
  "info_request n = JObj [(''type'', JStr ''execute''), (''mid'', JNum (Fin (of_nat n))),
     (''value'', JObj [(''name'', JStr ''getBrokerInfo'')])]"

text \<open>A settled promise does not change.\<close>

definition settle :: "nat \<Rightarrow> (jsval, string) promise \<Rightarrow> lib \<Rightarrow> lib" where
  "settle p v l = (if p < length (promises l) \<and> promises l ! p = Unsettled
     then l\<lparr>promises := (promises l)[p := v]\<rparr> else l)"

text \<open>The executor of the promises: set the handler, then send.\<close>

definition executor :: "nat \<Rightarrow> jsval \<Rightarrow> wsock \<Rightarrow> wsock \<times> (jsval, string) promise" where
  "executor p request ws =
     (let ws' = ws\<lparr>onmessage := Some (ResolvePromise p)\<rparr> in
      case ws_state ws of
        CONNECTING \<Rightarrow> (ws', Rejected ''InvalidStateError'')
      | OPEN \<Rightarrow> (ws'\<lparr>ws_sent := ws_sent ws @ [request]\<rparr>, Unsettled)
      | CLOSED \<Rightarrow> (ws', Unsettled))"

section \<open>Brokers\<close>

definition broker_url :: "string \<Rightarrow> string \<Rightarrow> string" where
  "broker_url host port = ''wss://'' @ host @ '':'' @ port @ ''/ws''"

definition new_LHCBBroker :: "string \<Rightarrow> string \<Rightarrow> lib \<Rightarrow> lib \<times> nat" where
  "new_LHCBBroker host port l =
     (l\<lparr>brokers := brokers l @ [\<lparr>b_ws = new_socket (broker_url host port), b_ready = False\<rparr>]\<rparr>, length (brokers l))"

definition broker_onopen :: "nat \<Rightarrow> lib \<Rightarrow> lib" where
  "broker_onopen b l = l\<lparr>brokers := (brokers l)[b := (brokers l ! b)
     \<lparr>b_ws := (b_ws (brokers l ! b))\<lparr>ws_state := OPEN\<rparr>, b_ready := True\<rparr>]\<rparr>"

definition broker_isReady :: "nat \<Rightarrow> lib \<Rightarrow> bool" where
  "broker_isReady b l = b_ready (brokers l ! b)"

definition broker_promise :: "nat \<Rightarrow> jsval \<Rightarrow> lib \<Rightarrow> lib \<times> nat" where
  "broker_promise b request l =
     (let p = length (promises l); (ws, v) = executor p request (b_ws (brokers l ! b))
      in (l\<lparr>brokers := (brokers l)[b := (brokers l ! b)\<lparr>b_ws := ws\<rparr>], promises := promises l @ [v]\<rparr>, p))"

definition broker_read :: "nat \<Rightarrow> jsval \<Rightarrow> lib \<Rightarrow> lib \<times> nat" where
  "broker_read b name = broker_promise b (read_request name)"

definition broker_execute :: "nat \<Rightarrow> jsval \<Rightarrow> jsval \<Rightarrow> jsval \<Rightarrow> lib \<Rightarrow> lib \<times> nat" where
  "broker_execute b client funcName args = broker_promise b (execute_request client funcName args)"

text \<open>A message arrives on the broker's socket.\<close>

definition broker_onmessage :: "nat \<Rightarrow> jsval \<Rightarrow> lib \<Rightarrow> lib" where
  "broker_onmessage b response l = (case onmessage (b_ws (brokers l ! b)) of
     Some (ResolvePromise p) \<Rightarrow> settle p (Fulfilled response) l | _ \<Rightarrow> l)"

section \<open>Clients\<close>

text \<open>\<open>!broker || !name\<close>\<close>

definition unspecified :: "nat option \<Rightarrow> jsval \<Rightarrow> bool" where
  "unspecified broker name = (broker = None \<or> \<not> truthy name)"

definition local_url :: string where
  "local_url = ''wss://localhost:9443/ws''"

definition new_LHCBClient :: "nat option \<Rightarrow> jsval \<Rightarrow> lib \<Rightarrow> lib \<times> nat" where
  "new_LHCBClient broker name l =
     (if unspecified broker name then
        (l\<lparr>mid := mid l + 1, clients := clients l @ [\<lparr>c_ready = False, c_name = JUndef, c_broker = None,
             localWs = Some ((new_socket local_url)\<lparr>onmessage := Some TakeBrokerInfo\<rparr>),
             c_request = info_request (mid l)\<rparr>]\<rparr>, length (clients l))
      else (l\<lparr>clients := clients l @ [\<lparr>c_ready = True, c_name = name, c_broker = broker, localWs = None,
             c_request = JUndef\<rparr>]\<rparr>, length (clients l)))"

definition getRemoteClient :: "nat \<Rightarrow> jsval \<Rightarrow> lib \<Rightarrow> lib \<times> nat" where
  "getRemoteClient b name = new_LHCBClient (Some b) name"

definition getLocalClient :: "lib \<Rightarrow> lib \<times> nat" where
  "getLocalClient = new_LHCBClient None JUndef"

definition upd_client :: "nat \<Rightarrow> (lclient \<Rightarrow> lclient) \<Rightarrow> lib \<Rightarrow> lib" where
  "upd_client k f l = l\<lparr>clients := (clients l)[k := f (clients l ! k)]\<rparr>"

text \<open>The local socket opens: the request for the broker's address is sent.\<close>

definition client_onopen :: "nat \<Rightarrow> lib \<Rightarrow> lib" where
  "client_onopen k l = upd_client k (\<lambda>c. c\<lparr>localWs := map_option
     (\<lambda>w. w\<lparr>ws_state := OPEN, ws_sent := ws_sent w @ [c_request c]\<rparr>) (localWs c)\<rparr>) l"

text \<open>\<open>v == "response"\<close>: objects are compared as strings, and no number or boolean equals that string.\<close>

definition is_response :: "jsval option \<Rightarrow> bool" where
  "is_response v = (case v of Some (JStr s) \<Rightarrow> s = ''response'' | Some (JArr vs) \<Rightarrow> to_string_val (JArr vs) = ''response''
     | Some (JObj ps) \<Rightarrow> to_string_val (JObj ps) = ''response'' | _ \<Rightarrow> False)"

text \<open>The answer with the broker's address; a missing \<open>value\<close> throws and changes nothing.\<close>

definition take_broker_info :: "nat \<Rightarrow> jsval \<Rightarrow> lib \<Rightarrow> lib" where
  "take_broker_info k response l =
     (if is_response (js_get response ''type'') then
        (case Option.bind (js_get response ''value'') (\<lambda>v. js_get v ''name'') of
           None \<Rightarrow> l
         | Some name \<Rightarrow>
             (let v = the (js_get response ''value'');
                  (l1, b) = new_LHCBBroker (to_string_val (the (js_get v ''host''))) (to_string_val (the (js_get v ''port''))) l
              in upd_client k (\<lambda>c. c\<lparr>c_name := name, c_broker := Some b, c_ready := True\<rparr>) l1))
      else l)"

definition client_onmessage :: "nat \<Rightarrow> jsval \<Rightarrow> lib \<Rightarrow> lib" where
  "client_onmessage k response l = (case Option.bind (localWs (clients l ! k)) onmessage of
     Some (ResolvePromise p) \<Rightarrow> settle p (Fulfilled response) l
   | Some TakeBrokerInfo \<Rightarrow> take_broker_info k response l
   | None \<Rightarrow> l)"

definition client_isReady :: "nat \<Rightarrow> lib \<Rightarrow> bool" where
  "client_isReady k l = c_ready (clients l ! k)"

definition client_promise :: "nat \<Rightarrow> wsock \<Rightarrow> jsval \<Rightarrow> lib \<Rightarrow> lib \<times> nat" where
  "client_promise k w request l =
     (let p = length (promises l); (ws, v) = executor p request w
      in (upd_client k (\<lambda>c. c\<lparr>localWs := Some ws\<rparr>) (l\<lparr>promises := promises l @ [v]\<rparr>), p))"

text \<open>Through the local socket when it is open, else through the broker; \<^const>\<open>None\<close> is the TypeError of
  a client that has no broker yet.\<close>

definition open_local :: "nat \<Rightarrow> lib \<Rightarrow> wsock option" where
  "open_local k l = (case localWs (clients l ! k) of Some w \<Rightarrow> if ws_state w = OPEN then Some w else None | None \<Rightarrow> None)"

definition client_read :: "nat \<Rightarrow> lib \<Rightarrow> (lib \<times> nat) option" where
  "client_read k l = (case open_local k l of
     Some w \<Rightarrow> Some (client_promise k w local_read_request l)
   | None \<Rightarrow> (case c_broker (clients l ! k) of None \<Rightarrow> None
       | Some b \<Rightarrow> Some (broker_read b (c_name (clients l ! k)) l)))"

definition client_execute :: "nat \<Rightarrow> jsval \<Rightarrow> jsval \<Rightarrow> lib \<Rightarrow> (lib \<times> nat) option" where
  "client_execute k funcName args l = (case open_local k l of
     Some w \<Rightarrow> Some (client_promise k w (local_execute_request funcName args) l)
   | None \<Rightarrow> (case c_broker (clients l ! k) of None \<Rightarrow> None
       | Some b \<Rightarrow> Some (broker_execute b (c_name (clients l ! k)) funcName args l)))"

definition client_getBroker :: "nat \<Rightarrow> lib \<Rightarrow> nat option" where
  "client_getBroker k l = c_broker (clients l ! k)"

definition client_getName :: "nat \<Rightarrow> lib \<Rightarrow> jsval" where
  "client_getName k l = c_name (clients l ! k)"

section \<open>Traffic on one broker\<close>

datatype broker_event = Request jsval | Incoming jsval

fun broker_events :: "nat \<Rightarrow> broker_event list \<Rightarrow> lib \<Rightarrow> lib" where
  "broker_events b [] l = l"
| "broker_events b (Request q # es) l = broker_events b es (fst (broker_promise b q l))"
| "broker_events b (Incoming v # es) l = broker_events b es (broker_onmessage b v l)"

fun requests :: "broker_event list \<Rightarrow> nat" where
  "requests [] = 0"
| "requests (Request q # es) = Suc (requests es)"
| "requests (Incoming v # es) = requests es"

fun first_incoming :: "broker_event list \<Rightarrow> (jsval, string) promise" where
  "first_incoming [] = Unsettled"
| "first_incoming (Incoming v # es) = Fulfilled v"
| "first_incoming (Request q # es) = first_incoming es"

definition usable :: "nat \<Rightarrow> lib \<Rightarrow> bool" where
  "usable b l = (b < length (brokers l) \<and> ws_state (b_ws (brokers l ! b)) = OPEN)"

definition current :: "nat \<Rightarrow> lib \<Rightarrow> handler option" where
  "current b l = onmessage (b_ws (brokers l ! b))"

lemma broker_events_append: "broker_events b (xs @ ys) l = broker_events b ys (broker_events b xs l)"
  by (induction b xs l rule: broker_events.induct) auto

lemma request_step:
  assumes "usable b l"
  shows "usable b (fst (broker_promise b q l))" "promises (fst (broker_promise b q l)) = promises l @ [Unsettled]"
    "current b (fst (broker_promise b q l)) = Some (ResolvePromise (length (promises l)))"
  using assms by (simp_all add: usable_def current_def broker_promise_def executor_def Let_def)

lemma settle_brokers [simp]: "brokers (settle p v l) = brokers l"
  by (simp add: settle_def)

lemma incoming_step:
  "brokers (broker_onmessage b v l) = brokers l" "length (promises (broker_onmessage b v l)) = length (promises l)"
  "usable b (broker_onmessage b v l) = usable b l" "current b (broker_onmessage b v l) = current b l"
  by (simp_all add: broker_onmessage_def settle_def usable_def current_def split: option.split handler.split)

lemma incoming_other:
  "current b l \<noteq> Some (ResolvePromise p) \<Longrightarrow> promises (broker_onmessage b v l) ! p = promises l ! p"
  by (auto simp: broker_onmessage_def settle_def current_def split: option.split handler.split)

lemma incoming_own:
  "current b l = Some (ResolvePromise p) \<Longrightarrow> p < length (promises l) \<Longrightarrow>
   promises (broker_onmessage b v l) ! p = (if promises l ! p = Unsettled then Fulfilled v else promises l ! p)"
  by (simp add: broker_onmessage_def settle_def current_def)

lemma events_usable: "usable b l \<Longrightarrow> usable b (broker_events b es l)"
  by (induction b es l rule: broker_events.induct) (simp_all add: request_step incoming_step)

lemma events_length: "usable b l \<Longrightarrow> length (promises (broker_events b es l)) = length (promises l) + requests es"
  by (induction b es l rule: broker_events.induct) (simp_all add: request_step incoming_step)

text \<open>Once the handler belongs to another promise, a promise does not change any more.\<close>

lemma events_keep:
  "usable b l \<Longrightarrow> p < length (promises l) \<Longrightarrow> current b l \<noteq> Some (ResolvePromise p) \<or> es = [] \<or> (\<exists>q. hd es = Request q) \<Longrightarrow>
   promises (broker_events b es l) ! p = promises l ! p"
proof (induction b es l rule: broker_events.induct)
  case (2 b q es l)
  have "promises (broker_events b es (fst (broker_promise b q l))) ! p = promises (fst (broker_promise b q l)) ! p"
    using 2 by (intro 2(1)) (simp_all add: request_step)
  then show ?case using 2 by (simp add: request_step nth_append)
next
  case (3 b v es l)
  then show ?case by (simp add: incoming_step incoming_other)
qed simp

lemma events_own:
  "usable b l \<Longrightarrow> p < length (promises l) \<Longrightarrow> current b l = Some (ResolvePromise p) \<Longrightarrow> requests es = 0 \<Longrightarrow>
   promises (broker_events b es l) ! p = (if promises l ! p = Unsettled then first_incoming es else promises l ! p)"
proof (induction b es l rule: broker_events.induct)
  case (3 b v es l)
  then show ?case by (simp add: incoming_step incoming_own)
qed simp_all

lemma correlation:
  assumes "usable b l" and "requests md = 0" and "post = [] \<or> (\<exists>q'. hd post = Request q')"
  shows "promises (broker_events b (pre @ Request q # md @ post) l) ! (length (promises l) + requests pre) = first_incoming md"
proof -
  define l1 where "l1 = broker_events b pre l"
  define l2 where "l2 = fst (broker_promise b q l1)"
  define p where "p = length (promises l) + requests pre"
  have u1: "usable b l1" "length (promises l1) = p"
    using assms(1) by (simp_all add: l1_def p_def events_usable events_length)
  have u2: "usable b l2" "p < length (promises l2)" "current b l2 = Some (ResolvePromise p)" "promises l2 ! p = Unsettled"
    using request_step[OF u1(1), of q] u1(2) by (simp_all add: l2_def nth_append)
  have o: "promises (broker_events b md l2) ! p = first_incoming md"
    using events_own[OF u2(1-3) assms(2)] u2(4) by simp
  have "promises (broker_events b post (broker_events b md l2)) ! p = promises (broker_events b md l2) ! p"
    using events_usable[OF u2(1)] events_length[OF u2(1), of md] u2(2) assms(3) by (intro events_keep) simp_all
  then show ?thesis using o by (simp add: broker_events_append l1_def[symmetric] l2_def[symmetric] p_def[symmetric])
qed

section \<open>Properties of the library\<close>

text \<open>
  C25. Which answer a request gets, on an open broker connection and for every sequence of requests
  and incoming messages: the first message that arrives after the request and before the next
  request; when the next request is made first, the promise stays unsettled for ever.
\<close>

theorem request_answer:
  assumes "usable b l" and "requests md = 0" and "post = [] \<or> (\<exists>q'. hd post = Request q')"
  shows "promises (broker_events b (pre @ Request q # md @ post) l) ! (length (promises l) + requests pre) = first_incoming md"
  using assms by (rule correlation)

definition demo_lib :: lib where
  "demo_lib = broker_onopen 0 (fst (new_LHCBBroker ''host'' ''9443'' empty_lib))"

theorem request_answer_witness:
  "promises (broker_events 0 [Request JNull, Request JNull, Incoming (JStr ''first''), Incoming (JStr ''second'')] demo_lib) ! 0 = Unsettled
   \<and> promises (broker_events 0 [Request JNull, Request JNull, Incoming (JStr ''first''), Incoming (JStr ''second'')] demo_lib) ! 1
     = Fulfilled (JStr ''first'')"
proof -
  have u: "usable 0 demo_lib" "length (promises demo_lib) = 0"
    by (simp_all add: usable_def demo_lib_def broker_onopen_def new_LHCBBroker_def empty_lib_def)
  show ?thesis
    using request_answer[OF u(1), of "[]" "[Request JNull, Incoming (JStr ''first''), Incoming (JStr ''second'')]" "[]" JNull]
      request_answer[OF u(1), of "[Incoming (JStr ''first''), Incoming (JStr ''second'')]" "[]" "[Request JNull]" JNull] u(2)
    by simp
qed

text \<open>
  A local client that reads before the answer with the broker's address has arrived loses that
  answer to the read: the read's promise is resolved with it and the client does not become ready.
\<close>

theorem early_read_takes_info:
  assumes "k < length (clients l)" and "localWs (clients l ! k) = Some w" and "ws_state w = OPEN"
    and "client_read k l = Some (l1, p)"
  shows "promises (client_onmessage k info l1) ! p = Fulfilled info
    \<and> client_isReady k (client_onmessage k info l1) = client_isReady k l"
  using assms
  by (auto simp: client_read_def open_local_def client_promise_def executor_def upd_client_def client_onmessage_def
      settle_def client_isReady_def Let_def)

definition demo_local :: lib where
  "demo_local = client_onopen 0 (fst (getLocalClient empty_lib))"

theorem early_read_takes_info_witness:
  "\<exists>l1 p. client_read 0 demo_local = Some (l1, p) \<and> \<not> client_isReady 0 (client_onmessage 0 (JStr ''info'') l1)"
proof -
  obtain w where w: "0 < length (clients demo_local)" "localWs (clients demo_local ! 0) = Some w" "ws_state w = OPEN"
    by (simp add: demo_local_def client_onopen_def getLocalClient_def new_LHCBClient_def unspecified_def upd_client_def empty_lib_def)
  obtain l1 p where r: "client_read 0 demo_local = Some (l1, p)"
    using w by (auto simp: client_read_def open_local_def client_promise_def Let_def case_prod_beta)
  have "\<not> client_isReady 0 demo_local"
    by (simp add: client_isReady_def demo_local_def client_onopen_def getLocalClient_def new_LHCBClient_def
        unspecified_def upd_client_def empty_lib_def)
  then show ?thesis using early_read_takes_info[OF w r, of "JStr ''info''"] r by auto
qed

end
