(* ===== verification/LHCB_Session.thy ===== *)
theory LHCB_Session
  imports LHCB_Lib
begin

text \<open>
  The whole LHCB library in use: calls of the page and events of the browser in any order, on any
  number of brokers and clients.  Calls name existing objects; a call on an object that does not
  exist is no call.  A socket may close at any time; the library has no handler for that.
\<close>

section \<open>Events\<close>

datatype lib_event =
    GetBroker string string | GetLocalClient | GetRemoteClient nat jsval
  | BrokerRead nat jsval | BrokerExecute nat jsval jsval jsval
  | ClientRead nat | ClientExecute nat jsval jsval
  | BrokerOpen nat | ClientOpen nat
  | BrokerMessage nat jsval | ClientMessage nat jsval
  | BrokerClosed nat | ClientClosed nat

definition broker_closed :: "nat \<Rightarrow> lib \<Rightarrow> lib" where
  "broker_closed b l = l\<lparr>brokers := (brokers l)[b := (brokers l ! b)\<lparr>b_ws := (b_ws (brokers l ! b))\<lparr>ws_state := CLOSED\<rparr>\<rparr>]\<rparr>"

definition client_closed :: "nat \<Rightarrow> lib \<Rightarrow> lib" where
  "client_closed k l = upd_client k (\<lambda>c. c\<lparr>localWs := map_option (\<lambda>w. w\<lparr>ws_state := CLOSED\<rparr>) (localWs c)\<rparr>) l"

text \<open>A socket opens once, and messages arrive on open sockets only.\<close>

definition broker_in :: "ready_state \<Rightarrow> nat \<Rightarrow> lib \<Rightarrow> bool" where
  "broker_in st b l = (b < length (brokers l) \<and> ws_state (b_ws (brokers l ! b)) = st)"

definition client_in :: "ready_state \<Rightarrow> nat \<Rightarrow> lib \<Rightarrow> bool" where
  "client_in st k l = (k < length (clients l) \<and> map_option ws_state (localWs (clients l ! k)) = Some st)"

text \<open>A call that throws leaves the library as it was.\<close>

definition called :: "(lib \<times> nat) option \<Rightarrow> lib \<Rightarrow> lib" where
  "called r l = (case r of None \<Rightarrow> l | Some (l', _) \<Rightarrow> l')"

fun lib_step :: "lib_event \<Rightarrow> lib \<Rightarrow> lib" where
  "lib_step (GetBroker h p) l = fst (new_LHCBBroker h p l)"
| "lib_step GetLocalClient l = fst (getLocalClient l)"
| "lib_step (GetRemoteClient b name) l = (if b < length (brokers l) then fst (getRemoteClient b name l) else l)"
| "lib_step (BrokerRead b name) l = (if b < length (brokers l) then fst (broker_read b name l) else l)"
| "lib_step (BrokerExecute b c f xs) l = (if b < length (brokers l) then fst (broker_execute b c f xs l) else l)"
| "lib_step (ClientRead k) l = (if k < length (clients l) then called (client_read k l) l else l)"
| "lib_step (ClientExecute k f xs) l = (if k < length (clients l) then called (client_execute k f xs l) l else l)"
| "lib_step (BrokerOpen b) l = (if broker_in CONNECTING b l then broker_onopen b l else l)"
| "lib_step (ClientOpen k) l = (if client_in CONNECTING k l then client_onopen k l else l)"
| "lib_step (BrokerMessage b v) l = (if broker_in OPEN b l then broker_onmessage b v l else l)"
| "lib_step (ClientMessage k v) l = (if client_in OPEN k l then client_onmessage k v l else l)"
| "lib_step (BrokerClosed b) l = (if b < length (brokers l) then broker_closed b l else l)"
| "lib_step (ClientClosed k) l = (if k < length (clients l) then client_closed k l else l)"

definition session :: "lib_event list \<Rightarrow> lib" where
  "session es = foldl (\<lambda>l e. lib_step e l) empty_lib es"

section \<open>The invariant\<close>

definition handler_ok :: "nat \<Rightarrow> handler option \<Rightarrow> bool" where
  "handler_ok n h = (case h of Some (ResolvePromise p) \<Rightarrow> p < n | _ \<Rightarrow> True)"

text \<open>A broker is ready once its socket has opened, has sent nothing before, and its handler belongs to a
  promise of the library.\<close>

definition broker_ok :: "nat \<Rightarrow> lbroker \<Rightarrow> bool" where
  "broker_ok n b = ((ws_state (b_ws b) = CONNECTING \<longrightarrow> \<not> b_ready b \<and> ws_sent (b_ws b) = [])
     \<and> (ws_state (b_ws b) = OPEN \<longrightarrow> b_ready b) \<and> onmessage (b_ws b) \<noteq> Some TakeBrokerInfo \<and> handler_ok n (onmessage (b_ws b)))"

text \<open>A client is ready exactly when it has a broker; one without a local socket always has one.\<close>

definition client_ok :: "nat \<Rightarrow> nat \<Rightarrow> lclient \<Rightarrow> bool" where
  "client_ok n m c = (c_ready c = (c_broker c \<noteq> None) \<and> (\<forall>b. c_broker c = Some b \<longrightarrow> b < m)
     \<and> (localWs c = None \<longrightarrow> c_ready c)
     \<and> (\<forall>w. localWs c = Some w \<longrightarrow> onmessage w \<noteq> None \<and> handler_ok n (onmessage w) \<and> (ws_state w = CONNECTING \<longrightarrow> ws_sent w = [])))"

definition lib_ok :: "lib \<Rightarrow> bool" where
  "lib_ok l = (list_all (broker_ok (length (promises l))) (brokers l)
     \<and> list_all (client_ok (length (promises l)) (length (brokers l))) (clients l)
     \<and> mid l = length (filter (\<lambda>c. localWs c \<noteq> None) (clients l)))"

lemma handler_ok_mono: "handler_ok n h \<Longrightarrow> n \<le> m \<Longrightarrow> handler_ok m h"
  by (auto simp: handler_ok_def split: option.splits handler.splits)

lemma broker_ok_mono: "broker_ok n b \<Longrightarrow> n \<le> m \<Longrightarrow> broker_ok m b"
  by (auto simp: broker_ok_def intro: handler_ok_mono)

lemma client_ok_mono: "client_ok n m c \<Longrightarrow> n \<le> n' \<Longrightarrow> m \<le> m' \<Longrightarrow> client_ok n' m' c"
  by (fastforce simp: client_ok_def intro: handler_ok_mono)

lemma list_all_weaken: "list_all P xs \<Longrightarrow> (\<And>x. P x \<Longrightarrow> Q x) \<Longrightarrow> list_all Q xs"
  by (auto simp: list_all_iff)

lemma list_all_upd: "list_all P xs \<Longrightarrow> P y \<Longrightarrow> list_all P (xs[i := y])"
  using set_update_subset_insert[of xs i y] by (auto simp: list_all_iff)

lemma length_filter_upd: "P y = P (xs ! i) \<Longrightarrow> length (filter P (xs[i := y])) = length (filter P xs)"
  by (induction xs arbitrary: i) (auto split: nat.split)

lemma lib_ok_broker: "lib_ok l \<Longrightarrow> b < length (brokers l) \<Longrightarrow> broker_ok (length (promises l)) (brokers l ! b)"
  by (simp add: lib_ok_def list_all_length)

lemma lib_ok_client:
  "lib_ok l \<Longrightarrow> k < length (clients l) \<Longrightarrow> client_ok (length (promises l)) (length (brokers l)) (clients l ! k)"
  by (simp add: lib_ok_def list_all_length)

lemma lib_ok_upd_broker:
  assumes "lib_ok l" and "length (promises l) \<le> length ps" and "broker_ok (length ps) x"
  shows "lib_ok (l\<lparr>brokers := (brokers l)[b := x], promises := ps\<rparr>)"
  using assms unfolding lib_ok_def
  by (auto intro!: list_all_upd elim!: list_all_weaken intro: broker_ok_mono client_ok_mono)

lemma lib_ok_upd_client:
  assumes "lib_ok l" and "length (promises l) \<le> length ps" and "client_ok (length ps) (length (brokers l)) (f (clients l ! k))"
    and "localWs (f (clients l ! k)) = None \<longleftrightarrow> localWs (clients l ! k) = None"
  shows "lib_ok (upd_client k f (l\<lparr>promises := ps\<rparr>))"
  using assms unfolding lib_ok_def upd_client_def
  by (auto intro!: list_all_upd elim!: list_all_weaken intro: broker_ok_mono client_ok_mono simp: length_filter_upd)

lemma lib_ok_promises: "lib_ok l \<Longrightarrow> length ps = length (promises l) \<Longrightarrow> lib_ok (l\<lparr>promises := ps\<rparr>)"
  by (simp add: lib_ok_def)

lemma lib_ok_settle: "lib_ok l \<Longrightarrow> lib_ok (settle p v l)"
  by (simp add: settle_def lib_ok_promises)

lemma lib_ok_new_broker: "lib_ok l \<Longrightarrow> lib_ok (fst (new_LHCBBroker h p l))"
  unfolding lib_ok_def new_LHCBBroker_def
  by (auto simp: broker_ok_def new_socket_def handler_ok_def elim!: list_all_weaken intro: client_ok_mono)

lemma lib_ok_new_client:
  "lib_ok l \<Longrightarrow> broker = None \<or> (\<exists>b. broker = Some b \<and> b < length (brokers l)) \<Longrightarrow> lib_ok (fst (new_LHCBClient broker name l))"
  unfolding lib_ok_def new_LHCBClient_def
  by (auto simp: client_ok_def new_socket_def handler_ok_def unspecified_def)

lemma lib_ok_broker_promise: "lib_ok l \<Longrightarrow> b < length (brokers l) \<Longrightarrow> lib_ok (fst (broker_promise b q l))"
  using lib_ok_broker[of l b]
  by (auto simp: broker_promise_def executor_def Let_def broker_ok_def handler_ok_def split: ready_state.split intro!: lib_ok_upd_broker)

lemma lib_ok_client_promise:
  assumes "lib_ok l" and "k < length (clients l)" and "localWs (clients l ! k) = Some w" and "ws_state w = OPEN"
  shows "lib_ok (fst (client_promise k w q l))"
  using lib_ok_client[OF assms(1,2)] assms
  by (auto simp: client_promise_def executor_def Let_def client_ok_def handler_ok_def intro!: lib_ok_upd_client)

lemma called_simps [simp]: "called None l = l" "called (Some r) l = fst r"
  by (simp_all add: called_def case_prod_beta)

text \<open>A request of a client goes through its own open socket, else through its broker.\<close>

lemma client_request:
  "client_read k l = (case open_local k l of Some w \<Rightarrow> Some (client_promise k w local_read_request l)
     | None \<Rightarrow> map_option (\<lambda>b. broker_promise b (read_request (c_name (clients l ! k))) l) (c_broker (clients l ! k)))"
  "client_execute k f xs l = (case open_local k l of Some w \<Rightarrow> Some (client_promise k w (local_execute_request f xs) l)
     | None \<Rightarrow> map_option (\<lambda>b. broker_promise b (execute_request (c_name (clients l ! k)) f xs) l) (c_broker (clients l ! k)))"
  by (simp_all add: client_read_def client_execute_def broker_read_def broker_execute_def split: option.split)

lemma open_local_Some: "open_local k l = Some w \<Longrightarrow> localWs (clients l ! k) = Some w \<and> ws_state w = OPEN"
  by (auto simp: open_local_def split: option.splits if_splits)

lemma lib_ok_client_request:
  assumes "lib_ok l" and "k < length (clients l)"
  shows "lib_ok (called (case open_local k l of Some w \<Rightarrow> Some (client_promise k w q l)
     | None \<Rightarrow> map_option (\<lambda>b. broker_promise b q' l) (c_broker (clients l ! k))) l)"
proof (cases "open_local k l")
  case None
  then show ?thesis using lib_ok_client[OF assms] assms(1)
    by (cases "c_broker (clients l ! k)") (simp_all add: client_ok_def lib_ok_broker_promise)
next
  case (Some w)
  then show ?thesis using lib_ok_client_promise[OF assms] open_local_Some[OF Some] by simp
qed

lemma lib_ok_broker_open: "lib_ok l \<Longrightarrow> broker_in CONNECTING b l \<Longrightarrow> lib_ok (broker_onopen b l)"
  using lib_ok_upd_broker[of l "promises l"] lib_ok_broker[of l b]
  by (simp add: broker_in_def broker_onopen_def broker_ok_def)

lemma lib_ok_broker_closed: "lib_ok l \<Longrightarrow> b < length (brokers l) \<Longrightarrow> lib_ok (broker_closed b l)"
  using lib_ok_upd_broker[of l "promises l"] lib_ok_broker[of l b]
  by (simp add: broker_closed_def broker_ok_def)

lemma lib_ok_client_socket:
  assumes "lib_ok l" and "k < length (clients l)" and "\<And>c w. onmessage (g c w) = onmessage w \<and> ws_state (g c w) \<noteq> CONNECTING"
  shows "lib_ok (upd_client k (\<lambda>c. c\<lparr>localWs := map_option (g c) (localWs c)\<rparr>) l)"
proof -
  let ?f = "\<lambda>c. c\<lparr>localWs := map_option (g c) (localWs c)\<rparr>"
  have "client_ok (length (promises l)) (length (brokers l)) (?f (clients l ! k))"
    using lib_ok_client[OF assms(1,2)] assms(3) by (cases "localWs (clients l ! k)") (auto simp: client_ok_def)
  then have "lib_ok (upd_client k ?f (l\<lparr>promises := promises l\<rparr>))" by (intro lib_ok_upd_client assms(1)) simp_all
  then show ?thesis by simp
qed

lemma lib_ok_take_info:
  assumes "lib_ok l" and "k < length (clients l)"
  shows "lib_ok (take_broker_info k v l)"
proof -
  have "lib_ok (upd_client k (\<lambda>c. c\<lparr>c_name := n, c_broker := Some b, c_ready := True\<rparr>) l1)"
    if n: "new_LHCBBroker h p l = (l1, b)" for h p n b l1
  proof -
    have 1: "lib_ok l1" using lib_ok_new_broker[OF assms(1), of h p] n by simp
    have 2: "clients l1 = clients l" "b < length (brokers l1)" using n by (auto simp: new_LHCBBroker_def)
    show ?thesis
      using lib_ok_upd_client[OF 1 order_refl, of "\<lambda>c. c\<lparr>c_name := n, c_broker := Some b, c_ready := True\<rparr>" k]
        lib_ok_client[OF 1, of k] assms(2) 2 by (auto simp: client_ok_def)
  qed
  then show ?thesis using assms(1)
    by (simp add: take_broker_info_def Let_def case_prod_beta split: option.split)
qed

lemma lib_ok_step: "lib_ok l \<Longrightarrow> lib_ok (lib_step e l)"
proof (induction e l rule: lib_step.induct)
  case (9 k l)
  then show ?case by (auto simp: client_in_def client_onopen_def upd_client_def[symmetric] split: if_splits intro!: lib_ok_client_socket)
next
  case (11 k v l)
  then show ?case by (auto simp: client_in_def client_onmessage_def lib_ok_settle lib_ok_take_info split: option.split handler.split)
qed (auto simp: lib_ok_new_broker getLocalClient_def getRemoteClient_def lib_ok_new_client broker_read_def broker_execute_def
  lib_ok_broker_promise client_request lib_ok_client_request lib_ok_broker_open lib_ok_broker_closed
  broker_onmessage_def lib_ok_settle client_closed_def split: option.split handler.split intro!: lib_ok_client_socket)

lemma lib_ok_session: "lib_ok (session es)"
  by (induction es rule: rev_induct) (simp_all add: session_def lib_ok_step, simp add: lib_ok_def empty_lib_def)

section \<open>Promises\<close>

text \<open>Promises are only added, and a settled one stays as it is.\<close>

definition promises_grow :: "lib \<Rightarrow> lib \<Rightarrow> bool" where
  "promises_grow l l' = (length (promises l) \<le> length (promises l')
     \<and> (\<forall>p < length (promises l). promises l ! p \<noteq> Unsettled \<longrightarrow> promises l' ! p = promises l ! p))"

lemma grow_refl: "promises l' = promises l \<Longrightarrow> promises_grow l l'"
  by (simp add: promises_grow_def)

lemma grow_trans: "promises_grow l l1 \<Longrightarrow> promises_grow l1 l2 \<Longrightarrow> promises_grow l l2"
  by (auto simp: promises_grow_def)

lemma grow_settle: "promises_grow l (settle p v l)"
  by (auto simp: promises_grow_def settle_def nth_list_update)

lemma grow_snoc: "promises l' = promises l @ [v] \<Longrightarrow> promises_grow l l'"
  by (simp add: promises_grow_def nth_append)

lemma promises_upd_client [simp]: "promises (upd_client k f l) = promises l"
  by (simp add: upd_client_def)

lemma grow_broker_promise: "promises_grow l (fst (broker_promise b q l))"
  by (rule grow_snoc[of _ _ "snd (executor (length (promises l)) q (b_ws (brokers l ! b)))"])
    (simp add: broker_promise_def Let_def case_prod_beta)

lemma grow_client_promise: "promises_grow l (fst (client_promise k w q l))"
  by (rule grow_snoc[of _ _ "snd (executor (length (promises l)) q w)"])
    (simp add: client_promise_def Let_def case_prod_beta)

lemma grow_take_info: "promises_grow l (take_broker_info k v l)"
  by (rule grow_refl) (simp add: take_broker_info_def new_LHCBBroker_def Let_def split: option.split)

lemma grow_client_request:
  "promises_grow l (called (case open_local k l of Some w \<Rightarrow> Some (client_promise k w q l)
     | None \<Rightarrow> map_option (\<lambda>b. broker_promise b q' l) (c_broker (clients l ! k))) l)"
  by (simp add: grow_client_promise split: option.split)
    (cases "c_broker (clients l ! k)"; simp add: grow_broker_promise grow_refl)

lemma grow_step: "promises_grow l (lib_step e l)"
proof (induction e l rule: lib_step.induct)
  case (11 k v l)
  then show ?case
    by (simp add: client_onmessage_def grow_settle grow_take_info grow_refl split: option.split handler.split)
qed (simp_all add: grow_refl new_LHCBBroker_def getLocalClient_def getRemoteClient_def new_LHCBClient_def broker_read_def
  broker_execute_def grow_broker_promise client_request grow_client_request broker_onopen_def client_onopen_def
  broker_onmessage_def grow_settle broker_closed_def client_closed_def split: option.split handler.split)

lemma grow_session: "promises_grow (session es) (session (es @ es'))"
  by (induction es' rule: rev_induct)
    (simp_all add: grow_refl session_def grow_trans[OF _ grow_step] flip: append_assoc)

section \<open>Properties of a session\<close>



end
