(* ===== verification/LHCB_Logger.thy ===== *)
theory LHCB_Logger
  imports LHCB_Lib
begin

text \<open>
  The logger of the LHCB library, which replaces the methods of the object it is made for by functions that
  log the call first (\<^verbatim>\<open>lhcb/lhcb_lib_js/lhcb.js\<close>, class \<open>Logger\<close>).

  An object has its own properties and those of its prototype; functions are the constructor and the methods
  of a class, and the wrappers.  Class bodies are strict code: an assignment that is not allowed
  throws.  What a thrown error leaves behind is part of the result.
\<close>

section \<open>Objects and functions\<close>

datatype fval = ClassFn string | Method string string | Wrapper string string fval

datatype pval = Fn fval | OtherValue

record js_prop =
  p_val :: pval
  p_writable :: bool
  p_enumerable :: bool

record jsobject =
  own :: "(string \<times> js_prop) list"
  proto :: "(string \<times> js_prop) list"
  extensible :: bool

definition get_prop :: "jsobject \<Rightarrow> string \<Rightarrow> pval option" where
  "get_prop x n = (case map_of (own x) n of Some p \<Rightarrow> Some (p_val p) | None \<Rightarrow> map_option p_val (map_of (proto x) n))"

text \<open>\<open>obj[name] = v\<close> in strict code: \<open>Inl\<close> is the thrown error.\<close>

definition assign_prop :: "jsobject \<Rightarrow> string \<Rightarrow> pval \<Rightarrow> string + jsobject" where
  "assign_prop x n v = (case map_of (own x) n of
     Some p \<Rightarrow> if p_writable p then Inr (x\<lparr>own := AList.update n (p\<lparr>p_val := v\<rparr>) (own x)\<rparr>) else Inl ''TypeError''
   | None \<Rightarrow> if (\<forall>p. map_of (proto x) n = Some p \<longrightarrow> p_writable p) \<and> extensible x
       then Inr (x\<lparr>own := AList.update n \<lparr>p_val = v, p_writable = True, p_enumerable = True\<rparr> (own x)\<rparr>) else Inl ''TypeError'')"

text \<open>The \<open>name\<close> of a function; the wrappers are anonymous.\<close>

fun fn_name :: "fval \<Rightarrow> string" where
  "fn_name (ClassFn c) = c"
| "fn_name (Method c m) = m"
| "fn_name (Wrapper c n f) = ''''"

text \<open>The prototype of a class: its constructor, then its methods in order.\<close>

definition method_prop :: "fval \<Rightarrow> js_prop" where
  "method_prop f = \<lparr>p_val = Fn f, p_writable = True, p_enumerable = False\<rparr>"

definition class_proto :: "string \<Rightarrow> string list \<Rightarrow> (string \<times> js_prop) list" where
  "class_proto c ms = (''constructor'', method_prop (ClassFn c)) # map (\<lambda>m. (m, method_prop (Method c m))) ms"

definition new_object :: "(string \<times> js_prop) list \<Rightarrow> jsobject" where
  "new_object pr = \<lparr>own = [], proto = pr, extensible = True\<rparr>"

definition LHCB_methods :: "string list" where
  "LHCB_methods = [''getBroker'', ''getLocalClient'']"

definition LHCBBroker_methods :: "string list" where
  "LHCBBroker_methods = [''isReady'', ''read'', ''execute'', ''getRemoteClient'']"

definition LHCBClient_methods :: "string list" where
  "LHCBClient_methods = [''isReady'', ''read'', ''execute'', ''getBroker'', ''getName'']"

section \<open>The constructor of the logger\<close>

text \<open>The body of the loop; \<open>method === obj\<close> never holds for the function of a property.\<close>

definition inject_step :: "string \<Rightarrow> string \<Rightarrow> jsobject \<Rightarrow> string option \<times> jsobject" where
  "inject_step cls n x = (case get_prop x n of
     Some (Fn f) \<Rightarrow> (case assign_prop x n (Fn (Wrapper cls n f)) of Inl e \<Rightarrow> (Some e, x) | Inr y \<Rightarrow> (None, y))
   | _ \<Rightarrow> (None, x))"

fun inject :: "string \<Rightarrow> string list \<Rightarrow> jsobject \<Rightarrow> string option \<times> jsobject" where
  "inject cls [] x = (None, x)"
| "inject cls (n # ns) x = (case inject_step cls n x of
     (Some e, y) \<Rightarrow> (Some e, y) | (None, y) \<Rightarrow> inject cls ns y)"

text \<open>\<open>obj.constructor.name\<close>: a missing constructor throws, another value has no name.\<close>

definition constructor_name :: "jsobject \<Rightarrow> string + string" where
  "constructor_name x = (case get_prop x ''constructor'' of
     None \<Rightarrow> Inl ''TypeError'' | Some (Fn f) \<Rightarrow> Inr (fn_name f) | Some OtherValue \<Rightarrow> Inr ''undefined'')"

definition new_Logger :: "jsobject \<Rightarrow> (string + string) \<times> jsobject" where
  "new_Logger x = (case constructor_name x of
     Inl e \<Rightarrow> (Inl e, x)
   | Inr cls \<Rightarrow> (case inject cls (map fst (proto x)) x of (Some e, y) \<Rightarrow> (Inl e, y) | (None, y) \<Rightarrow> (Inr cls, y)))"

section \<open>Calling a method\<close>

datatype call_result = Runs string string | Constructs string | Throws string

text \<open>The console lines of a call and what runs in the end, on an object of the class.  A class constructor
  must not be called; a function used as one may be.\<close>

fun call_fn :: "bool \<Rightarrow> fval \<Rightarrow> string list \<times> call_result" where
  "call_fn native (ClassFn c) = ([], if native then Throws ''TypeError'' else Constructs c)"
| "call_fn native (Method c m) = ([], Runs c m)"
| "call_fn native (Wrapper c n f) =
     ((c @ ''.'' @ n @ ''():'') # fst (call_fn native f), snd (call_fn native f))"

text \<open>\<open>d\<close>, \<open>l\<close>, \<open>i\<close>, \<open>w\<close> and \<open>e\<close> change the first argument in place; without arguments there is none to pass on.\<close>

definition logger_args :: "(jsval \<Rightarrow> jsval) \<Rightarrow> jsval list \<Rightarrow> jsval list" where
  "logger_args f xs = (case xs of [] \<Rightarrow> [] | x # rest \<Rightarrow> f x # rest)"

text \<open>\<open>d\<close> puts the name of the class in front.  The others add to \<open>this.prefix\<close>, which is not defined: with a
  string the sum is a string, with a number, a boolean, \<open>null\<close> or \<open>undefined\<close> it is not a number.\<close>

definition with_name :: "string \<Rightarrow> jsval \<Rightarrow> jsval" where
  "with_name name x = JStr (name @ '': '' @ to_string_val x)"

definition with_prefix :: "jsval \<Rightarrow> jsval" where
  "with_prefix x = (case x of JStr s \<Rightarrow> JStr (''undefined'' @ s) | JArr vs \<Rightarrow> JStr (''undefined'' @ to_string_val x)
     | JObj ps \<Rightarrow> JStr (''undefined'' @ to_string_val x) | _ \<Rightarrow> JNum NaN)"

definition logger_d :: "string \<Rightarrow> jsval list \<Rightarrow> jsval list" where
  "logger_d name = logger_args (with_name name)"

definition logger_other :: "jsval list \<Rightarrow> jsval list" where
  "logger_other = logger_args with_prefix"

section \<open>What the logger does to an object\<close>

lemma get_assign:
  assumes "assign_prop x n v = Inr y"
  shows "get_prop y m = (if m = n then Some v else get_prop x m)" "proto y = proto x" "extensible y = extensible x"
  using assms by (auto simp: assign_prop_def get_prop_def split: option.splits if_splits)

text \<open>All properties of the prototype may be assigned on the object.\<close>

definition all_writable :: "jsobject \<Rightarrow> bool" where
  "all_writable x = (extensible x \<and> (\<forall>n p. map_of (own x) n = Some p \<or> map_of (proto x) n = Some p \<longrightarrow> p_writable p))"

lemma writable_assign: "all_writable x \<Longrightarrow> \<exists>y. assign_prop x n v = Inr y \<and> all_writable y"
  by (auto simp: all_writable_def assign_prop_def split: option.split)

lemma inject_step_ok:
  assumes "all_writable x"
  shows "\<exists>y. inject_step cls n x = (None, y) \<and> all_writable y \<and> proto y = proto x
    \<and> get_prop y = (get_prop x)(n := (case get_prop x n of Some (Fn f) \<Rightarrow> Some (Fn (Wrapper cls n f)) | v \<Rightarrow> v))"
proof (cases "\<exists>f. get_prop x n = Some (Fn f)")
  case True
  then obtain f where f: "get_prop x n = Some (Fn f)" ..
  obtain y where y: "assign_prop x n (Fn (Wrapper cls n f)) = Inr y" "all_writable y"
    using writable_assign[OF assms] by blast
  then show ?thesis using f get_assign[OF y(1)] by (auto simp: inject_step_def fun_eq_iff)
next
  case False
  then have "(case get_prop x n of Some (Fn f) \<Rightarrow> Some (Fn (Wrapper cls n f)) | v \<Rightarrow> v) = get_prop x n"
    by (auto split: option.split pval.split)
  then show ?thesis using False assms by (auto simp: inject_step_def split: option.split pval.split)
qed

lemma inject_ok:
  assumes "all_writable x" and "distinct ns"
  shows "\<exists>y. inject cls ns x = (None, y) \<and> proto y = proto x \<and> (\<forall>n. get_prop y n =
    (if n \<in> set ns then (case get_prop x n of Some (Fn f) \<Rightarrow> Some (Fn (Wrapper cls n f)) | v \<Rightarrow> v) else get_prop x n))"
  using assms
proof (induction ns arbitrary: x)
  case (Cons a ns)
  obtain y where y: "inject_step cls a x = (None, y)" "all_writable y" "proto y = proto x"
    "get_prop y = (get_prop x)(a := (case get_prop x a of Some (Fn f) \<Rightarrow> Some (Fn (Wrapper cls a f)) | v \<Rightarrow> v))"
    using inject_step_ok[OF Cons.prems(1)] by blast
  obtain z where z: "inject cls ns y = (None, z)" "proto z = proto y" "\<forall>n. get_prop z n =
    (if n \<in> set ns then (case get_prop y n of Some (Fn f) \<Rightarrow> Some (Fn (Wrapper cls n f)) | v \<Rightarrow> v) else get_prop y n)"
    using Cons.IH[OF y(2)] Cons.prems(2) by auto
  show ?case using y z Cons.prems(2) by (intro exI[of _ z]) auto
qed simp

lemma method_prop_simps [simp]: "p_val (method_prop f) = Fn f" "p_writable (method_prop f)" "\<not> p_enumerable (method_prop f)"
  by (simp_all add: method_prop_def)

lemma map_of_methods: "map_of (map (\<lambda>m. (m, method_prop (Method c m))) ms) n = (if n \<in> set ms then Some (method_prop (Method c n)) else None)"
  by (induction ms) auto

lemma get_class: "get_prop (new_object (class_proto c ms)) n =
   (if n = ''constructor'' then Some (Fn (ClassFn c)) else if n \<in> set ms then Some (Fn (Method c n)) else None)"
  by (simp add: get_prop_def new_object_def class_proto_def map_of_methods)

lemma writable_new: "all_writable (new_object (class_proto c ms))"
  by (auto simp: all_writable_def new_object_def class_proto_def map_of_methods split: if_splits)

lemma names_class: "map fst (proto (new_object (class_proto c ms))) = ''constructor'' # ms"
  by (simp add: new_object_def class_proto_def comp_def)

lemma new_Logger_class:
  assumes "distinct (''constructor'' # ms)"
  shows "\<exists>y. new_Logger (new_object (class_proto c ms)) = (Inr c, y) \<and> (\<forall>n. get_prop y n =
    (if n = ''constructor'' then Some (Fn (Wrapper c n (ClassFn c))) else if n \<in> set ms then Some (Fn (Wrapper c n (Method c n))) else None))"
proof -
  let ?x = "new_object (class_proto c ms)"
  have c: "constructor_name ?x = Inr c" by (simp add: constructor_name_def get_class)
  obtain y where "inject c (map fst (proto ?x)) ?x = (None, y)" "\<forall>n. get_prop y n =
    (if n \<in> set (''constructor'' # ms) then (case get_prop ?x n of Some (Fn f) \<Rightarrow> Some (Fn (Wrapper c n f)) | v \<Rightarrow> v) else get_prop ?x n)"
    using inject_ok[OF writable_new assms] unfolding names_class by blast
  then show ?thesis by (simp add: new_Logger_def c get_class cong: if_cong)
qed

section \<open>Properties of the logger\<close>

text \<open>
  The logger on an object of a class: every method of the class logs one line with the class and the method and then
  runs; no other property appears.  The constructor is replaced as well, and calling it through the object
  logs a line and throws.
\<close>

theorem logger_wraps_methods:
  assumes "distinct (''constructor'' # ms)"
  shows "\<exists>y. new_Logger (new_object (class_proto c ms)) = (Inr c, y)
    \<and> (\<forall>m \<in> set ms. \<exists>f. get_prop y m = Some (Fn f) \<and> call_fn True f = ([c @ ''.'' @ m @ ''():''], Runs c m))
    \<and> (\<exists>f. get_prop y ''constructor'' = Some (Fn f) \<and> call_fn True f = ([c @ ''.constructor():''], Throws ''TypeError''))
    \<and> (\<forall>n. n \<notin> set (''constructor'' # ms) \<longrightarrow> get_prop y n = None)"
proof -
  obtain y where "new_Logger (new_object (class_proto c ms)) = (Inr c, y)" "\<forall>n. get_prop y n =
    (if n = ''constructor'' then Some (Fn (Wrapper c n (ClassFn c))) else if n \<in> set ms then Some (Fn (Wrapper c n (Method c n))) else None)"
    using new_Logger_class[OF assms] by blast
  then show ?thesis using assms by (intro exI[of _ y]) auto
qed

theorem logger_wraps_methods_witness:
  "\<exists>y f. new_Logger (new_object (class_proto ''LHCBBroker'' LHCBBroker_methods)) = (Inr ''LHCBBroker'', y)
    \<and> get_prop y ''read'' = Some (Fn f) \<and> call_fn True f = ([''LHCBBroker.read():''], Runs ''LHCBBroker'' ''read'')"
  using logger_wraps_methods[of LHCBBroker_methods "''LHCBBroker''"] by (simp add: LHCBBroker_methods_def) blast

end
