(* ===== verification/LHCB_Compiled.thy ===== *)
theory LHCB_Compiled
  imports LHCB_Session LHCB_Logger
begin

text \<open>
  The LHCB library as it is shipped to browsers, \<^verbatim>\<open>lhcb/lhcb_lib_js/lhcb.compiled.js\<close>: classes are functions
  whose prototypes \<open>_createClass\<close> fills, \<open>for ... of\<close> is a loop over an explicit iterator with its own
  error handling, rest parameters are copied by a loop, and every method has its own closure.  The
  operations are written here as the compiled text has them, and shown to do what those of
  \<^verbatim>\<open>lhcb.js\<close> do.
\<close>

section \<open>Classes\<close>

record descriptor =
  d_key :: string
  d_value :: "pval option"
  d_enumerable :: bool

text \<open>\<open>Object.defineProperty\<close> with the flags that the helper sets: \<open>writable\<close> only next to a value.\<close>

definition define_property :: "descriptor \<Rightarrow> (string \<times> js_prop) list \<Rightarrow> (string \<times> js_prop) list" where
  "define_property d target = AList.update (d_key d)
     (case d_value d of Some v \<Rightarrow> \<lparr>p_val = v, p_writable = True, p_enumerable = d_enumerable d\<rparr>
      | None \<Rightarrow> \<lparr>p_val = OtherValue, p_writable = False, p_enumerable = d_enumerable d\<rparr>) target"

function defineProperties :: "(string \<times> js_prop) list \<Rightarrow> descriptor list \<Rightarrow> nat \<Rightarrow> (string \<times> js_prop) list" where
  "defineProperties target props i = (if i < length props
     then defineProperties (define_property (props ! i) target) props (Suc i) else target)"
  by pat_completeness auto
termination
  by (relation "measure (\<lambda>(target, props, i). length props - i)") auto

declare defineProperties.simps [simp del]

text \<open>The prototype a function is born with, filled by \<open>_createClass\<close>.\<close>

definition createClass :: "string \<Rightarrow> descriptor list \<Rightarrow> (string \<times> js_prop) list" where
  "createClass c protoProps = defineProperties [(''constructor'', method_prop (ClassFn c))] protoProps 0"

definition method_descriptor :: "string \<Rightarrow> string \<Rightarrow> descriptor" where
  "method_descriptor c m = \<lparr>d_key = m, d_value = Some (Fn (Method c m)), d_enumerable = False\<rparr>"

definition classCallCheck :: "bool \<Rightarrow> string option" where
  "classCallCheck instanceof = (if instanceof then None else Some ''Cannot call a class as a function'')"

section \<open>The logger\<close>

text \<open>The iterator of an array, which has no \<open>return\<close> method.\<close>

record array_iterator =
  it_items :: "string list"
  it_pos :: nat

definition it_next :: "array_iterator \<Rightarrow> (bool \<times> string) \<times> array_iterator" where
  "it_next it = (if it_pos it < length (it_items it)
     then ((False, it_items it ! it_pos it), it\<lparr>it_pos := Suc (it_pos it)\<rparr>) else ((True, ''undefined''), it))"

record loop_vars =
  iteratorNormalCompletion :: bool
  didIteratorError :: bool
  iteratorError :: "string option"
  iter :: array_iterator
  target :: jsobject

text \<open>The closure \<open>_loop\<close>: an error, or \<open>"continue"\<close>, or nothing.\<close>

definition es5_loop :: "string \<Rightarrow> string \<Rightarrow> jsobject \<Rightarrow> (string + string option) \<times> jsobject" where
  "es5_loop cls name x = (case get_prop x name of
     Some (Fn f) \<Rightarrow> (case assign_prop x name (Fn (Wrapper cls name f)) of Inl e \<Rightarrow> (Inl e, x) | Inr y \<Rightarrow> (Inr None, y))
   | _ \<Rightarrow> (Inr (Some ''continue''), x))"

text \<open>The loop with its \<open>catch\<close>; both ways through the body reach the update of the loop.\<close>

function es5_for :: "string \<Rightarrow> loop_vars \<Rightarrow> loop_vars" where
  "es5_for cls v =
     (let step = it_next (iter v); v1 = v\<lparr>iter := snd step, iteratorNormalCompletion := fst (fst step)\<rparr> in
      if fst (fst step) then v1
      else (case es5_loop cls (snd (fst step)) (target v1) of
          (Inl err, y) \<Rightarrow> v1\<lparr>target := y, didIteratorError := True, iteratorError := Some err\<rparr>
        | (Inr _, y) \<Rightarrow> es5_for cls (v1\<lparr>target := y, iteratorNormalCompletion := True\<rparr>)))"
  by pat_completeness auto
termination
  by (relation "measure (\<lambda>(cls, v). length (it_items (iter v)) - it_pos (iter v))")
    (auto simp: it_next_def split: if_splits)

declare es5_for.simps [simp del]

text \<open>The \<open>finally\<close> rethrows; the rest of the constructor stores the console.\<close>

definition es5_Logger :: "jsobject \<Rightarrow> (string + string) \<times> jsobject" where
  "es5_Logger x = (case constructor_name x of
     Inl e \<Rightarrow> (Inl e, x)
   | Inr cls \<Rightarrow>
       (let v = es5_for cls \<lparr>iteratorNormalCompletion = True, didIteratorError = False, iteratorError = None,
             iter = \<lparr>it_items = map fst (proto x), it_pos = 0\<rparr>, target = x\<rparr>
        in if didIteratorError v then (Inl (case iteratorError v of Some e \<Rightarrow> e | None \<Rightarrow> ''undefined''), target v)
           else (Inr cls, target v)))"

text \<open>The copy of the rest parameters, and the arguments that the console gets.\<close>

function copy_rest :: "jsval list \<Rightarrow> nat \<Rightarrow> jsval list \<Rightarrow> jsval list" where
  "copy_rest arguments key args = (if key < length arguments
     then copy_rest arguments (Suc key) (args[key - 1 := arguments ! key]) else args)"
  by pat_completeness auto
termination
  by (relation "measure (\<lambda>(arguments, key, args). length arguments - key)") auto

declare copy_rest.simps [simp del]

definition es5_rest :: "jsval list \<Rightarrow> jsval list" where
  "es5_rest arguments = copy_rest arguments 1 (replicate (if length arguments > 1 then length arguments - 1 else 0) JUndef)"

definition es5_console :: "(jsval \<Rightarrow> jsval) \<Rightarrow> jsval list \<Rightarrow> jsval list \<times> jsval list" where
  "es5_console f arguments = (es5_rest arguments, if arguments = [] then [] else arguments[0 := f (arguments ! 0)])"

definition es5_d :: "string \<Rightarrow> jsval list \<Rightarrow> jsval list" where
  "es5_d name arguments = snd (es5_console (with_name name) arguments)"

definition es5_other :: "jsval list \<Rightarrow> jsval list" where
  "es5_other arguments = snd (es5_console with_prefix arguments)"

section \<open>Brokers\<close>

text \<open>\<open>send\<close> of a WebSocket: it throws while the socket is connecting.\<close>

definition ws_send :: "jsval \<Rightarrow> wsock \<Rightarrow> wsock option" where
  "ws_send x ws = (if ws_state ws = CONNECTING then None
     else if ws_state ws = OPEN then Some (ws\<lparr>ws_sent := ws_sent ws @ [x]\<rparr>) else Some ws)"

definition put_broker :: "nat \<Rightarrow> wsock \<Rightarrow> lib \<Rightarrow> lib" where
  "put_broker b ws l = l\<lparr>brokers := (brokers l)[b := (brokers l ! b)\<lparr>b_ws := ws\<rparr>]\<rparr>"

definition new_promise :: "(jsval, string) promise \<Rightarrow> lib \<Rightarrow> lib" where
  "new_promise v l = l\<lparr>promises := promises l @ [v]\<rparr>"

definition es5_LHCBBroker :: "string \<Rightarrow> string \<Rightarrow> lib \<Rightarrow> lib \<times> nat" where
  "es5_LHCBBroker host port l =
     (let ws = new_socket (''wss://'' @ host @ '':'' @ port @ ''/ws'')
      in (l\<lparr>brokers := brokers l @ [\<lparr>b_ws = ws, b_ready = False\<rparr>]\<rparr>, length (brokers l)))"

definition es5_broker_onopen :: "nat \<Rightarrow> lib \<Rightarrow> lib" where
  "es5_broker_onopen b l =
     (let l1 = put_broker b ((b_ws (brokers l ! b))\<lparr>ws_state := OPEN\<rparr>) l
      in l1\<lparr>brokers := (brokers l1)[b := (brokers l1 ! b)\<lparr>b_ready := True\<rparr>]\<rparr>)"

definition es5_broker_isReady :: "nat \<Rightarrow> lib \<Rightarrow> bool" where
  "es5_broker_isReady b l = b_ready (brokers l ! b)"

definition es5_broker_read :: "nat \<Rightarrow> jsval \<Rightarrow> lib \<Rightarrow> lib \<times> nat" where
  "es5_broker_read b name l =
     (let p = length (promises l);
          request = JObj [(''type'', JStr ''read''), (''client'', name)];
          ws = (b_ws (brokers l ! b))\<lparr>onmessage := Some (ResolvePromise p)\<rparr>
      in case ws_send request ws of
           None \<Rightarrow> (new_promise (Rejected ''InvalidStateError'') (put_broker b ws l), p)
         | Some ws' \<Rightarrow> (new_promise Unsettled (put_broker b ws' l), p))"

definition es5_broker_execute :: "nat \<Rightarrow> jsval \<Rightarrow> jsval \<Rightarrow> jsval \<Rightarrow> lib \<Rightarrow> lib \<times> nat" where
  "es5_broker_execute b client funcName args l =
     (let p = length (promises l);
          request = JObj [(''type'', JStr ''execute''), (''client'', client),
            (''value'', JObj [(''name'', funcName), (''args'', args)])];
          ws = (b_ws (brokers l ! b))\<lparr>onmessage := Some (ResolvePromise p)\<rparr>
      in case ws_send request ws of
           None \<Rightarrow> (new_promise (Rejected ''InvalidStateError'') (put_broker b ws l), p)
         | Some ws' \<Rightarrow> (new_promise Unsettled (put_broker b ws' l), p))"

text \<open>\<open>resolve(response)\<close> of the closure in the slot; a promise is resolved once.\<close>

definition es5_resolve :: "nat \<Rightarrow> jsval \<Rightarrow> lib \<Rightarrow> lib" where
  "es5_resolve p response l = (if p < length (promises l) then
     (case promises l ! p of Unsettled \<Rightarrow> l\<lparr>promises := (promises l)[p := Fulfilled response]\<rparr> | _ \<Rightarrow> l) else l)"

definition es5_broker_onmessage :: "nat \<Rightarrow> jsval \<Rightarrow> lib \<Rightarrow> lib" where
  "es5_broker_onmessage b response l = (case onmessage (b_ws (brokers l ! b)) of
     Some (ResolvePromise p) \<Rightarrow> es5_resolve p response l | _ \<Rightarrow> l)"

section \<open>Clients\<close>

definition es5_LHCBClient :: "nat option \<Rightarrow> jsval \<Rightarrow> lib \<Rightarrow> lib \<times> nat" where
  "es5_LHCBClient broker name l =
     (let c = \<lparr>c_ready = False, c_name = JUndef, c_broker = None, localWs = None, c_request = JUndef\<rparr>;
          (c', l') =
            (if \<not> (broker \<noteq> None) \<or> \<not> truthy name then
               (let ws = new_socket ''wss://localhost:9443/ws'';
                    request = JObj [(''type'', JStr ''execute''), (''mid'', JNum (Fin (of_nat (mid l)))),
                      (''value'', JObj [(''name'', JStr ''getBrokerInfo'')])];
                    ws' = ws\<lparr>onmessage := Some TakeBrokerInfo\<rparr>
                in (c\<lparr>c_request := request, localWs := Some ws'\<rparr>, l\<lparr>mid := Suc (mid l)\<rparr>))
             else (c\<lparr>c_broker := broker, c_name := name, c_ready := True\<rparr>, l))
      in (l'\<lparr>clients := clients l' @ [c']\<rparr>, length (clients l')))"

definition es5_getRemoteClient :: "nat \<Rightarrow> jsval \<Rightarrow> lib \<Rightarrow> lib \<times> nat" where
  "es5_getRemoteClient b name l = es5_LHCBClient (Some b) name l"

definition es5_getBroker :: "string \<Rightarrow> string \<Rightarrow> lib \<Rightarrow> lib \<times> nat" where
  "es5_getBroker host port l = es5_LHCBBroker host port l"

definition es5_getLocalClient :: "lib \<Rightarrow> lib \<times> nat" where
  "es5_getLocalClient l = es5_LHCBClient None JUndef l"

definition es5_client_onopen :: "nat \<Rightarrow> lib \<Rightarrow> lib" where
  "es5_client_onopen k l = (case localWs (clients l ! k) of
     None \<Rightarrow> l
   | Some w \<Rightarrow> (case ws_send (c_request (clients l ! k)) (w\<lparr>ws_state := OPEN\<rparr>) of
       None \<Rightarrow> l | Some w' \<Rightarrow> l\<lparr>clients := (clients l)[k := (clients l ! k)\<lparr>localWs := Some w'\<rparr>]\<rparr>))"

text \<open>The three assignments of the handler, with the constructor call between the first and the second.\<close>

definition es5_take_broker_info :: "nat \<Rightarrow> jsval \<Rightarrow> lib \<Rightarrow> lib" where
  "es5_take_broker_info k response l =
     (if \<not> is_response (js_get response ''type'') then l
      else case js_get response ''value'' of
          None \<Rightarrow> l
        | Some v \<Rightarrow> (case js_get v ''name'' of
            None \<Rightarrow> l
          | Some name \<Rightarrow>
              (let l1 = l\<lparr>clients := (clients l)[k := (clients l ! k)\<lparr>c_name := name\<rparr>]\<rparr>;
                   (l2, b) = es5_LHCBBroker (to_string_val (the (js_get v ''host''))) (to_string_val (the (js_get v ''port''))) l1;
                   l3 = l2\<lparr>clients := (clients l2)[k := (clients l2 ! k)\<lparr>c_broker := Some b\<rparr>]\<rparr>
               in l3\<lparr>clients := (clients l3)[k := (clients l3 ! k)\<lparr>c_ready := True\<rparr>]\<rparr>)))"

definition es5_client_onmessage :: "nat \<Rightarrow> jsval \<Rightarrow> lib \<Rightarrow> lib" where
  "es5_client_onmessage k response l = (case localWs (clients l ! k) of
     None \<Rightarrow> l
   | Some w \<Rightarrow> (case onmessage w of
       Some (ResolvePromise p) \<Rightarrow> es5_resolve p response l
     | Some TakeBrokerInfo \<Rightarrow> es5_take_broker_info k response l
     | None \<Rightarrow> l))"

definition es5_client_isReady :: "nat \<Rightarrow> lib \<Rightarrow> bool" where
  "es5_client_isReady k l = c_ready (clients l ! k)"

definition put_local :: "nat \<Rightarrow> wsock \<Rightarrow> lib \<Rightarrow> lib" where
  "put_local k w l = l\<lparr>clients := (clients l)[k := (clients l ! k)\<lparr>localWs := Some w\<rparr>]\<rparr>"

definition es5_client_read :: "nat \<Rightarrow> lib \<Rightarrow> (lib \<times> nat) option" where
  "es5_client_read k l =
     (let this = clients l ! k; viaBroker = map_option (\<lambda>b. es5_broker_read b (c_name this) l) (c_broker this) in
      case localWs this of
        None \<Rightarrow> viaBroker
      | Some w \<Rightarrow>
          if ws_state w = OPEN then
            (let p = length (promises l); request = JObj [(''type'', JStr ''read'')];
                 w' = w\<lparr>onmessage := Some (ResolvePromise p)\<rparr>
             in case ws_send request w' of
                  None \<Rightarrow> Some (new_promise (Rejected ''InvalidStateError'') (put_local k w' l), p)
                | Some w'' \<Rightarrow> Some (new_promise Unsettled (put_local k w'' l), p))
          else viaBroker)"

definition es5_client_execute :: "nat \<Rightarrow> jsval \<Rightarrow> jsval \<Rightarrow> lib \<Rightarrow> (lib \<times> nat) option" where
  "es5_client_execute k funcName args l =
     (let this = clients l ! k; viaBroker = map_option (\<lambda>b. es5_broker_execute b (c_name this) funcName args l) (c_broker this) in
      case localWs this of
        None \<Rightarrow> viaBroker
      | Some w \<Rightarrow>
          if ws_state w = OPEN then
            (let p = length (promises l);
                 request = JObj [(''type'', JStr ''execute''), (''value'', JObj [(''name'', funcName), (''args'', args)])];
                 w' = w\<lparr>onmessage := Some (ResolvePromise p)\<rparr>
             in case ws_send request w' of
                  None \<Rightarrow> Some (new_promise (Rejected ''InvalidStateError'') (put_local k w' l), p)
                | Some w'' \<Rightarrow> Some (new_promise Unsettled (put_local k w'' l), p))
          else viaBroker)"

definition es5_client_getBroker :: "nat \<Rightarrow> lib \<Rightarrow> nat option" where
  "es5_client_getBroker k l = c_broker (clients l ! k)"

definition es5_client_getName :: "nat \<Rightarrow> lib \<Rightarrow> jsval" where
  "es5_client_getName k l = c_name (clients l ! k)"

section \<open>Sessions of the compiled library\<close>

fun es5_step :: "lib_event \<Rightarrow> lib \<Rightarrow> lib" where
  "es5_step (GetBroker h p) l = fst (es5_getBroker h p l)"
| "es5_step GetLocalClient l = fst (es5_getLocalClient l)"
| "es5_step (GetRemoteClient b name) l = (if b < length (brokers l) then fst (es5_getRemoteClient b name l) else l)"
| "es5_step (BrokerRead b name) l = (if b < length (brokers l) then fst (es5_broker_read b name l) else l)"
| "es5_step (BrokerExecute b c f xs) l = (if b < length (brokers l) then fst (es5_broker_execute b c f xs l) else l)"
| "es5_step (ClientRead k) l = (if k < length (clients l) then called (es5_client_read k l) l else l)"
| "es5_step (ClientExecute k f xs) l = (if k < length (clients l) then called (es5_client_execute k f xs l) l else l)"
| "es5_step (BrokerOpen b) l = (if broker_in CONNECTING b l then es5_broker_onopen b l else l)"
| "es5_step (ClientOpen k) l = (if client_in CONNECTING k l then es5_client_onopen k l else l)"
| "es5_step (BrokerMessage b v) l = (if broker_in OPEN b l then es5_broker_onmessage b v l else l)"
| "es5_step (ClientMessage k v) l = (if client_in OPEN k l then es5_client_onmessage k v l else l)"
| "es5_step (BrokerClosed b) l = (if b < length (brokers l) then broker_closed b l else l)"
| "es5_step (ClientClosed k) l = (if k < length (clients l) then client_closed k l else l)"

definition es5_session :: "lib_event list \<Rightarrow> lib" where
  "es5_session es = foldl (\<lambda>l e. es5_step e l) empty_lib es"

section \<open>The operations agree\<close>

named_theorems es5 "operations of the compiled library as those of the source"

lemma es5_brokers [es5]:
  "es5_LHCBBroker = new_LHCBBroker" "es5_broker_isReady = broker_isReady"
  "es5_broker_read = broker_read" "es5_broker_execute = broker_execute"
  "es5_resolve p v = settle p (Fulfilled v)" "es5_broker_onmessage = broker_onmessage"
  by (auto simp: fun_eq_iff es5_LHCBBroker_def new_LHCBBroker_def broker_url_def es5_broker_isReady_def broker_isReady_def
      es5_broker_read_def broker_read_def es5_broker_execute_def broker_execute_def broker_promise_def executor_def
      read_request_def execute_request_def ws_send_def put_broker_def new_promise_def es5_resolve_def settle_def
      es5_broker_onmessage_def broker_onmessage_def Let_def
      split: ready_state.split option.split handler.split promise.split)

lemma es5_broker_onopen [es5]: "es5_broker_onopen b l = broker_onopen b l"
  by (cases "b < length (brokers l)") (simp_all add: es5_broker_onopen_def broker_onopen_def put_broker_def Let_def list_update_beyond)

lemma es5_clients [es5]:
  "es5_LHCBClient = new_LHCBClient" "es5_getLocalClient = getLocalClient" "es5_getBroker = new_LHCBBroker"
  "es5_getRemoteClient = getRemoteClient" "es5_client_isReady = client_isReady"
  "es5_client_getBroker = client_getBroker" "es5_client_getName = client_getName"
  by (auto simp: fun_eq_iff es5 es5_LHCBClient_def new_LHCBClient_def unspecified_def info_request_def local_url_def Let_def
      es5_getLocalClient_def getLocalClient_def es5_getBroker_def es5_getRemoteClient_def getRemoteClient_def
      es5_client_isReady_def client_isReady_def es5_client_getBroker_def client_getBroker_def es5_client_getName_def client_getName_def)

lemma es5_client_onopen [es5]: "client_in CONNECTING k l \<Longrightarrow> es5_client_onopen k l = client_onopen k l"
  by (auto simp: client_in_def es5_client_onopen_def client_onopen_def upd_client_def ws_send_def)

lemma es5_take_broker_info [es5]: "k < length (clients l) \<Longrightarrow> es5_take_broker_info k v l = take_broker_info k v l"
  by (auto simp: es5_take_broker_info_def take_broker_info_def es5 new_LHCBBroker_def upd_client_def Let_def split: option.split)

lemma es5_client_onmessage [es5]: "k < length (clients l) \<Longrightarrow> es5_client_onmessage k v l = client_onmessage k v l"
  by (simp add: es5_client_onmessage_def client_onmessage_def es5 split: option.split handler.split)

lemma es5_client_read [es5]: "es5_client_read k l = client_read k l"
  by (auto simp: es5_client_read_def client_read_def open_local_def es5 client_promise_def executor_def local_read_request_def
      ws_send_def put_local_def new_promise_def upd_client_def Let_def split: option.split)

lemma es5_client_execute [es5]: "es5_client_execute k f xs l = client_execute k f xs l"
  by (auto simp: es5_client_execute_def client_execute_def open_local_def es5 client_promise_def executor_def local_execute_request_def
      ws_send_def put_local_def new_promise_def upd_client_def Let_def split: option.split)

lemma client_in_length: "client_in st k l \<Longrightarrow> k < length (clients l)"
  by (simp add: client_in_def)

lemma es5_step_same: "es5_step e l = lib_step e l"
  by (induction e l rule: lib_step.induct) (simp_all add: es5 client_in_length)

lemma es5_session_same: "es5_session es = session es"
  by (simp add: es5_session_def session_def es5_step_same)

section \<open>The logger and the classes agree\<close>

text \<open>The iterator loop from a position is the loop over the rest of the names.\<close>

lemma es5_loop_step: "es5_loop cls n x = (case inject_step cls n x of (Some e, y) \<Rightarrow> (Inl e, y)
   | (None, y) \<Rightarrow> (Inr (case get_prop x n of Some (Fn f) \<Rightarrow> None | _ \<Rightarrow> Some ''continue''), y))"
  by (simp add: es5_loop_def inject_step_def split: option.split pval.split sum.split)

lemma es5_for_stop: "\<not> it_pos (iter v) < length (it_items (iter v)) \<Longrightarrow> es5_for cls v = v\<lparr>iteratorNormalCompletion := True\<rparr>"
  by (subst es5_for.simps) (simp add: it_next_def)

lemma es5_for_next:
  assumes "it_pos (iter v) < length (it_items (iter v))"
    and "inject_step cls (it_items (iter v) ! it_pos (iter v)) (target v) = (r, y)"
    and "it = (iter v)\<lparr>it_pos := Suc (it_pos (iter v))\<rparr>"
  shows "es5_for cls v = (case r of
     Some e \<Rightarrow> v\<lparr>iter := it, iteratorNormalCompletion := False, target := y, didIteratorError := True, iteratorError := Some e\<rparr>
   | None \<Rightarrow> es5_for cls (v\<lparr>iter := it, target := y, iteratorNormalCompletion := True\<rparr>))"
  using assms by (subst es5_for.simps) (simp add: it_next_def es5_loop_step Let_def split: option.split)

lemma es5_for_inject:
  "drop (it_pos (iter v)) (it_items (iter v)) = ns \<Longrightarrow> \<not> didIteratorError v \<Longrightarrow> inject cls ns (target v) = (r, y) \<Longrightarrow>
   target (es5_for cls v) = y \<and> didIteratorError (es5_for cls v) = (r \<noteq> None) \<and> (r \<noteq> None \<longrightarrow> iteratorError (es5_for cls v) = r)"
proof (induction ns arbitrary: v)
  case Nil
  then show ?case by (simp add: es5_for_stop)
next
  case (Cons n ns)
  let ?i = "it_pos (iter v)" and ?it = "(iter v)\<lparr>it_pos := Suc (it_pos (iter v))\<rparr>"
  have i: "?i < length (it_items (iter v))" using Cons.prems(1) by (metis drop_eq_Nil linorder_not_le list.distinct(1))
  then have n: "it_items (iter v) ! ?i = n" "drop (Suc ?i) (it_items (iter v)) = ns"
    using Cons.prems(1) Cons_nth_drop_Suc[OF i] by simp_all
  obtain r1 y1 where s: "inject_step cls n (target v) = (r1, y1)" by (cases "inject_step cls n (target v)")
  show ?case
  proof (cases r1)
    case (Some e)
    then have "r = Some e" "y = y1" using Cons.prems(3) s by simp_all
    then show ?thesis using s es5_for_next[OF i _ refl, of cls "Some e" y1] n(1) Some by simp
  next
    case None
    let ?v = "v\<lparr>iter := ?it, target := y1, iteratorNormalCompletion := True\<rparr>"
    have "es5_for cls v = es5_for cls ?v" using es5_for_next[OF i _ refl, of cls r1 y1] s n(1) None by simp
    then show ?thesis using Cons.IH[of ?v] Cons.prems(2,3) s n(2) None by simp
  qed
qed

lemma es5_Logger_same: "es5_Logger x = new_Logger x"
proof (cases "constructor_name x")
  case (Inr cls)
  let ?v = "\<lparr>iteratorNormalCompletion = True, didIteratorError = False, iteratorError = None,
     iter = \<lparr>it_items = map fst (proto x), it_pos = 0\<rparr>, target = x\<rparr>"
  obtain r y where i: "inject cls (map fst (proto x)) x = (r, y)" by (cases "inject cls (map fst (proto x)) x")
  from es5_for_inject[of ?v "map fst (proto x)" cls r y] i
  show ?thesis by (cases r) (simp_all add: es5_Logger_def new_Logger_def Inr Let_def)
qed (simp add: es5_Logger_def new_Logger_def)

lemma defineProperties_drop:
  "defineProperties pr ds i = foldl (\<lambda>pr d. define_property d pr) pr (drop i ds)"
proof (induction pr ds i rule: defineProperties.induct)
  case (1 pr ds i)
  then show ?case by (subst defineProperties.simps) (auto simp: Cons_nth_drop_Suc[symmetric])
qed

lemma define_method:
  "m \<notin> fst ` set pr \<Longrightarrow> define_property (method_descriptor c m) pr = pr @ [(m, method_prop (Method c m))]"
  by (induction pr) (auto simp: define_property_def method_descriptor_def method_prop_def)

lemma define_methods:
  "distinct ms \<Longrightarrow> set ms \<inter> fst ` set pr = {} \<Longrightarrow>
   foldl (\<lambda>pr d. define_property d pr) pr (map (method_descriptor c) ms) = pr @ map (\<lambda>m. (m, method_prop (Method c m))) ms"
proof (induction ms arbitrary: pr)
  case (Cons m ms)
  then have "define_property (method_descriptor c m) pr = pr @ [(m, method_prop (Method c m))]" by (intro define_method) auto
  with Cons show ?case by auto
qed simp

lemma createClass_same:
  "distinct (''constructor'' # ms) \<Longrightarrow> createClass c (map (method_descriptor c) ms) = class_proto c ms"
  by (simp add: createClass_def class_proto_def defineProperties_drop define_methods)

lemma library_methods: "distinct (''constructor'' # LHCB_methods)" "distinct (''constructor'' # LHCBBroker_methods)"
  "distinct (''constructor'' # LHCBClient_methods)"
  by (simp_all add: LHCB_methods_def LHCBBroker_methods_def LHCBClient_methods_def)

lemma copy_rest_step:
  "key \<ge> 1 \<Longrightarrow> length args = length arguments - 1 \<Longrightarrow>
   copy_rest arguments key args = take (key - 1) args @ drop key arguments"
proof (induction arguments key args rule: copy_rest.induct)
  case (1 arguments key args)
  show ?case
  proof (cases "key < length arguments")
    case True
    then have "key - 1 < length args" using 1(2,3) by simp
    then have "take key (args[key - 1 := arguments ! key]) = take (key - 1) args @ [arguments ! key]"
      using 1(2) take_Suc_conv_app_nth[of "key - 1" "args[key - 1 := arguments ! key]"] by simp
    then show ?thesis using True 1 by (subst copy_rest.simps) (simp add: Cons_nth_drop_Suc)
  next
    case False
    then show ?thesis using 1(2,3) by (subst copy_rest.simps) simp
  qed
qed

lemma es5_rest_tl: "es5_rest xs = drop 1 xs"
  by (simp add: es5_rest_def copy_rest_step)

lemma es5_console_same: "es5_console f xs = (tl xs, logger_args f xs)"
  by (simp add: es5_console_def logger_args_def es5_rest_tl drop_Suc split: list.split)

lemma es5_logger_methods: "es5_d = logger_d" "es5_other = logger_other"
  by (simp_all add: fun_eq_iff es5_d_def logger_d_def es5_other_def logger_other_def es5_console_same)

section \<open>Properties of the compiled library\<close>


text \<open>
  The one difference: calling the constructor of an object through the object throws with the classes of the source;
  in the compiled library the class check passes, and the constructor runs a second time on the
  object, after the line of the logger.
\<close>

theorem constructor_call_differs:
  assumes "distinct (''constructor'' # ms)"
  shows "\<exists>y f. es5_Logger (new_object (createClass c (map (method_descriptor c) ms))) = (Inr c, y)
    \<and> get_prop y ''constructor'' = Some (Fn f)
    \<and> call_fn True f = ([c @ ''.constructor():''], Throws ''TypeError'')
    \<and> call_fn False f = ([c @ ''.constructor():''], Constructs c) \<and> classCallCheck True = None"
proof -
  obtain y where "new_Logger (new_object (class_proto c ms)) = (Inr c, y)" "get_prop y ''constructor'' = Some (Fn (Wrapper c ''constructor'' (ClassFn c)))"
    using new_Logger_class[OF assms, of c] by auto
  then show ?thesis unfolding createClass_same[OF assms] es5_Logger_same
    by (intro exI[of _ y] exI[of _ "Wrapper c ''constructor'' (ClassFn c)"]) (simp add: classCallCheck_def)
qed

theorem constructor_call_differs_witness:
  "\<exists>y f. es5_Logger (new_object (createClass ''LHCB'' (map (method_descriptor ''LHCB'') LHCB_methods))) = (Inr ''LHCB'', y)
    \<and> get_prop y ''constructor'' = Some (Fn f) \<and> snd (call_fn True f) \<noteq> snd (call_fn False f)"
  using constructor_call_differs[of LHCB_methods "''LHCB''"] by (simp add: LHCB_methods_def) fastforce

end
