(* ===== verification/ApiDoc_Locale.thy ===== *)
theory ApiDoc_Locale
  imports QoS_Prelude
begin

text \<open>
  The languages of the API documentation page: the nine message tables of
  \<^verbatim>\<open>broker/BrokerServer/public/apidoc/locales\<close> and \<^verbatim>\<open>locale.js\<close>, which merges them, chooses a table
  from the language of the browser and translates the messages of the page.

  A message is the list of the bytes of its UTF-8 encoding, as it stands in the source file; the
  code only passes messages on.  A language tag is none of the names that every object inherits,
  so tables are looked up with \<^const>\<open>map_of\<close>; a message may be such a name, because the page also
  translates the keys of the documentation data.
\<close>

type_synonym table = "(string \<times> string) list"

section \<open>Message tables\<close>

definition de_js :: "(string \<times> table) list" where
  "de_js = [(''de'',
    [(''Allowed values:'', ''Erlaubte Werte:''),
     (''Compare all with predecessor'', ''Vergleiche alle mit ihren Vorg'' @ [CHR 0xC3, CHR 0xA4] @ ''ngern''),
     (''compare changes to:'', ''vergleiche '' @ [CHR 0xC3, CHR 0x84] @ ''nderungen mit:''),
     (''compared to'', ''verglichen mit''),
     (''Default value:'', ''Standardwert:''),
     (''Description'', ''Beschreibung''),
     (''Field'', ''Feld''),
     (''General'', ''Allgemein''),
     (''Generated with'', ''Erstellt mit''),
     (''Name'', ''Name''),
     (''No response values.'', ''Keine R'' @ [CHR 0xC3, CHR 0xBC] @ ''ckgabewerte.''),
     (''optional'', ''optional''),
     (''Parameter'', ''Parameter''),
     (''Permission:'', ''Berechtigung:''),
     (''Response'', ''Antwort''),
     (''Send'', ''Senden''),
     (''Send a Sample Request'', ''Eine Beispielanfrage senden''),
     (''show up to version:'', ''zeige bis zur Version:''),
     (''Size range:'', ''Gr'' @ [CHR 0xC3, CHR 0xB6, CHR 0xC3, CHR 0x9F] @ ''enbereich:''),
     (''Type'', ''Typ''),
     (''url'', ''url'')])]"

definition es_js :: "(string \<times> table) list" where
  "es_js = [(''es'',
    [(''Allowed values:'', ''Valores permitidos:''),
     (''Compare all with predecessor'', ''Comparar todo con versi'' @ [CHR 0xC3, CHR 0xB3] @ ''n anterior''),
     (''compare changes to:'', ''comparar cambios con:''),
     (''compared to'', ''comparado con''),
     (''Default value:'', ''Valor por defecto:''),
     (''Description'', ''Descripci'' @ [CHR 0xC3, CHR 0xB3] @ ''n''),
     (''Field'', ''Campo''),
     (''General'', ''General''),
     (''Generated with'', ''Generado con''),
     (''Name'', ''Nombre''),
     (''No response values.'', ''Sin valores en la respuesta.''),
     (''optional'', ''opcional''),
     (''Parameter'', ''Par'' @ [CHR 0xC3, CHR 0xA1] @ ''metro''),
     (''Permission:'', ''Permisos:''),
     (''Response'', ''Respuesta''),
     (''Send'', ''Enviar''),
     (''Send a Sample Request'', ''Enviar una petici'' @ [CHR 0xC3, CHR 0xB3] @ ''n de ejemplo''),
     (''show up to version:'', ''mostrar a versi'' @ [CHR 0xC3, CHR 0xB3] @ ''n:''),
     (''Size range:'', ''Tama'' @ [CHR 0xC3, CHR 0xB1] @ ''o de rango:''),
     (''Type'', ''Tipo''),
     (''url'', ''url'')])]"

definition fr_js :: "(string \<times> table) list" where
  "fr_js = [(''fr'',
    [(''Allowed values:'', ''Valeurs autoris'' @ [CHR 0xC3, CHR 0xA9] @ ''es :''),
     (''Compare all with predecessor'', ''Tout comparer avec ...''),
     (''compare changes to:'', ''comparer les changements '' @ [CHR 0xC3, CHR 0xA0] @ '' :''),
     (''compared to'', ''comparer '' @ [CHR 0xC3, CHR 0xA0]),
     (''Default value:'', ''Valeur par d'' @ [CHR 0xC3, CHR 0xA9] @ ''faut :''),
     (''Description'', ''Description''),
     (''Field'', ''Champ''),
     (''General'', ''G'' @ [CHR 0xC3, CHR 0xA9] @ ''n'' @ [CHR 0xC3, CHR 0xA9] @ ''ral''),
     (''Generated with'', ''G'' @ [CHR 0xC3, CHR 0xA9] @ ''n'' @ [CHR 0xC3, CHR 0xA9] @ ''r'' @ [CHR 0xC3, CHR 0xA9] @ '' avec''),
     (''Name'', ''Nom''),
     (''No response values.'', ''Aucune valeur de r'' @ [CHR 0xC3, CHR 0xA9] @ ''ponse.''),
     (''optional'', ''optionnel''),
     (''Parameter'', ''Param'' @ [CHR 0xC3, CHR 0xA8] @ ''tre''),
     (''Permission:'', ''Permission :''),
     (''Response'', ''R'' @ [CHR 0xC3, CHR 0xA9] @ ''ponse''),
     (''Send'', ''Envoyer''),
     (''Send a Sample Request'', ''Envoyer une requ'' @ [CHR 0xC3, CHR 0xAA] @ ''te repr'' @ [CHR 0xC3, CHR 0xA9] @ ''sentative''),
     (''show up to version:'', ''Montrer '' @ [CHR 0xC3, CHR 0xA0] @ '' partir de la version :''),
     (''Size range:'', ''Ordre de grandeur :''),
     (''Type'', ''Type''),
     (''url'', ''url'')])]"

definition nl_js :: "(string \<times> table) list" where
  "nl_js = [(''nl'',
    [(''Allowed values:'', ''Toegestane waarden:''),
     (''Compare all with predecessor'', ''Vergelijk alle met voorgaande versie''),
     (''compare changes to:'', ''vergelijk veranderingen met:''),
     (''compared to'', ''vergelijk met''),
     (''Default value:'', ''Standaard waarde:''),
     (''Description'', ''Omschrijving''),
     (''Field'', ''Veld''),
     (''General'', ''Algemeen''),
     (''Generated with'', ''Gegenereerd met''),
     (''Name'', ''Naam''),
     (''No response values.'', ''Geen response waardes.''),
     (''optional'', ''optioneel''),
     (''Parameter'', ''Parameter''),
     (''Permission:'', ''Permissie:''),
     (''Response'', ''Antwoorden''),
     (''Send'', ''Sturen''),
     (''Send a Sample Request'', ''Stuur een sample aanvragen''),
     (''show up to version:'', ''toon tot en met versie:''),
     (''Size range:'', ''Maatbereik:''),
     (''Type'', ''Type''),
     (''url'', ''url'')])]"

definition pl_js :: "(string \<times> table) list" where
  "pl_js = [(''pl'',
    [(''Allowed values:'', ''Dozwolone warto'' @ [CHR 0xC5, CHR 0x9B] @ ''ci:''),
     (''Compare all with predecessor'', ''Por'' @ [CHR 0xC3, CHR 0xB3] @ ''wnaj z poprzednimi wersjami''),
     (''compare changes to:'', ''por'' @ [CHR 0xC3, CHR 0xB3] @ ''wnaj zmiany do:''),
     (''compared to'', ''por'' @ [CHR 0xC3, CHR 0xB3] @ ''wnaj do:''),
     (''Default value:'', ''Warto'' @ [CHR 0xC5, CHR 0x9B, CHR 0xC4, CHR 0x87] @ '' domy'' @ [CHR 0xC5, CHR 0x9B] @ ''lna:''),
     (''Description'', ''Opis''),
     (''Field'', ''Pole''),
     (''General'', ''Generalnie''),
     (''Generated with'', ''Wygenerowano z''),
     (''Name'', ''Nazwa''),
     (''No response values.'', ''Brak odpowiedzi.''),
     (''optional'', ''opcjonalny''),
     (''Parameter'', ''Parametr''),
     (''Permission:'', ''Uprawnienia:''),
     (''Response'', ''Odpowied'' @ [CHR 0xC5, CHR 0xBA]),
     (''Send'', ''Wy'' @ [CHR 0xC5, CHR 0x9B] @ ''lij''),
     (''Send a Sample Request'', ''Wy'' @ [CHR 0xC5, CHR 0x9B] @ ''lij przyk'' @ [CHR 0xC5, CHR 0x82] @ ''adowe '' @ [CHR 0xC5, CHR 0xBC, CHR 0xC4, CHR 0x85] @ ''danie''),
     (''show up to version:'', ''poka'' @ [CHR 0xC5, CHR 0xBC] @ '' do wersji:''),
     (''Size range:'', ''Zakres rozmiaru:''),
     (''Type'', ''Typ''),
     (''url'', ''url'')])]"

definition pt_br_js :: "(string \<times> table) list" where
  "pt_br_js = [(''pt_br'',
    [(''Allowed values:'', ''Valores permitidos:''),
     (''Compare all with predecessor'', ''Compare todos com antecessores''),
     (''compare changes to:'', ''comparar altera'' @ [CHR 0xC3, CHR 0xA7, CHR 0xC3, CHR 0xB5] @ ''es com:''),
     (''compared to'', ''comparado com''),
     (''Default value:'', ''Valor padr'' @ [CHR 0xC3, CHR 0xA3] @ ''o:''),
     (''Description'', ''Descri'' @ [CHR 0xC3, CHR 0xA7, CHR 0xC3, CHR 0xA3] @ ''o''),
     (''Field'', ''Campo''),
     (''General'', ''Geral''),
     (''Generated with'', ''Gerado com''),
     (''Name'', ''Nome''),
     (''No response values.'', ''Sem valores de resposta.''),
     (''optional'', ''opcional''),
     (''Parameter'', ''Par'' @ [CHR 0xC3, CHR 0xA2] @ ''metro''),
     (''Permission:'', ''Permiss'' @ [CHR 0xC3, CHR 0xA3] @ ''o:''),
     (''Response'', ''Resposta''),
     (''Send'', ''Enviar''),
     (''Send a Sample Request'', ''Enviar um Exemplo de Pedido''),
     (''show up to version:'', ''aparecer para a vers'' @ [CHR 0xC3, CHR 0xA3] @ ''o:''),
     (''Size range:'', ''Faixa de tamanho:''),
     (''Type'', ''Tipo''),
     (''url'', ''url'')])]"

definition ru_js :: "(string \<times> table) list" where
  "ru_js = [(''ru'',
    [(''Allowed values:'', [CHR 0xD0, CHR 0x94, CHR 0xD0, CHR 0xBE, CHR 0xD0, CHR 0xBF, CHR 0xD1, CHR 0x83, CHR 0xD1, CHR 0x81, CHR 0xD1, CHR 0x82, CHR 0xD0, CHR 0xB8, CHR 0xD0, CHR 0xBC, CHR 0xD1, CHR 0x8B, CHR 0xD0, CHR 0xB5] @ '' '' @ [CHR 0xD0, CHR 0xB7, CHR 0xD0, CHR 0xBD, CHR 0xD0, CHR 0xB0, CHR 0xD1, CHR 0x87, CHR 0xD0, CHR 0xB5, CHR 0xD0, CHR 0xBD, CHR 0xD0, CHR 0xB8, CHR 0xD1, CHR 0x8F] @ '':''),
     (''Compare all with predecessor'', [CHR 0xD0, CHR 0xA1, CHR 0xD1, CHR 0x80, CHR 0xD0, CHR 0xB0, CHR 0xD0, CHR 0xB2, CHR 0xD0, CHR 0xBD, CHR 0xD0, CHR 0xB8, CHR 0xD1, CHR 0x82, CHR 0xD1, CHR 0x8C] @ '' '' @ [CHR 0xD1, CHR 0x81] @ '' '' @ [CHR 0xD0, CHR 0xBF, CHR 0xD1, CHR 0x80, CHR 0xD0, CHR 0xB5, CHR 0xD0, CHR 0xB4, CHR 0xD1, CHR 0x8B, CHR 0xD0, CHR 0xB4, CHR 0xD1, CHR 0x83, CHR 0xD1, CHR 0x89, CHR 0xD0, CHR 0xB5, CHR 0xD0, CHR 0xB9] @ '' '' @ [CHR 0xD0, CHR 0xB2, CHR 0xD0, CHR 0xB5, CHR 0xD1, CHR 0x80, CHR 0xD1, CHR 0x81, CHR 0xD0, CHR 0xB8, CHR 0xD0, CHR 0xB5, CHR 0xD0, CHR 0xB9]),
     (''compare changes to:'', [CHR 0xD1, CHR 0x81, CHR 0xD1, CHR 0x80, CHR 0xD0, CHR 0xB0, CHR 0xD0, CHR 0xB2, CHR 0xD0, CHR 0xBD, CHR 0xD0, CHR 0xB8, CHR 0xD1, CHR 0x82, CHR 0xD1, CHR 0x8C] @ '' '' @ [CHR 0xD1, CHR 0x81] @ '':''),
     (''compared to'', [CHR 0xD0, CHR 0xB2] @ '' '' @ [CHR 0xD1, CHR 0x81, CHR 0xD1, CHR 0x80, CHR 0xD0, CHR 0xB0, CHR 0xD0, CHR 0xB2, CHR 0xD0, CHR 0xBD, CHR 0xD0, CHR 0xB5, CHR 0xD0, CHR 0xBD, CHR 0xD0, CHR 0xB8, CHR 0xD0, CHR 0xB8] @ '' '' @ [CHR 0xD1, CHR 0x81]),
     (''Default value:'', [CHR 0xD0, CHR 0x9F, CHR 0xD0, CHR 0xBE] @ '' '' @ [CHR 0xD1, CHR 0x83, CHR 0xD0, CHR 0xBC, CHR 0xD0, CHR 0xBE, CHR 0xD0, CHR 0xBB, CHR 0xD1, CHR 0x87, CHR 0xD0, CHR 0xB0, CHR 0xD0, CHR 0xBD, CHR 0xD0, CHR 0xB8, CHR 0xD1, CHR 0x8E] @ '':''),
     (''Description'', [CHR 0xD0, CHR 0x9E, CHR 0xD0, CHR 0xBF, CHR 0xD0, CHR 0xB8, CHR 0xD1, CHR 0x81, CHR 0xD0, CHR 0xB0, CHR 0xD0, CHR 0xBD, CHR 0xD0, CHR 0xB8, CHR 0xD0, CHR 0xB5]),
     (''Field'', [CHR 0xD0, CHR 0x9D, CHR 0xD0, CHR 0xB0, CHR 0xD0, CHR 0xB7, CHR 0xD0, CHR 0xB2, CHR 0xD0, CHR 0xB0, CHR 0xD0, CHR 0xBD, CHR 0xD0, CHR 0xB8, CHR 0xD0, CHR 0xB5]),
     (''General'', [CHR 0xD0, CHR 0x9E, CHR 0xD0, CHR 0xB1, CHR 0xD1, CHR 0x89, CHR 0xD0, CHR 0xB0, CHR 0xD1, CHR 0x8F] @ '' '' @ [CHR 0xD0, CHR 0xB8, CHR 0xD0, CHR 0xBD, CHR 0xD1, CHR 0x84, CHR 0xD0, CHR 0xBE, CHR 0xD1, CHR 0x80, CHR 0xD0, CHR 0xBC, CHR 0xD0, CHR 0xB0, CHR 0xD1, CHR 0x86, CHR 0xD0, CHR 0xB8, CHR 0xD1, CHR 0x8F]),
     (''Generated with'', [CHR 0xD0, CHR 0xA1, CHR 0xD0, CHR 0xB3, CHR 0xD0, CHR 0xB5, CHR 0xD0, CHR 0xBD, CHR 0xD0, CHR 0xB5, CHR 0xD1, CHR 0x80, CHR 0xD0, CHR 0xB8, CHR 0xD1, CHR 0x80, CHR 0xD0, CHR 0xBE, CHR 0xD0, CHR 0xB2, CHR 0xD0, CHR 0xB0, CHR 0xD0, CHR 0xBD, CHR 0xD0, CHR 0xBE] @ '' '' @ [CHR 0xD1, CHR 0x81] @ '' '' @ [CHR 0xD0, CHR 0xBF, CHR 0xD0, CHR 0xBE, CHR 0xD0, CHR 0xBC, CHR 0xD0, CHR 0xBE, CHR 0xD1, CHR 0x89, CHR 0xD1, CHR 0x8C, CHR 0xD1, CHR 0x8E]),
     (''Name'', [CHR 0xD0, CHR 0x9D, CHR 0xD0, CHR 0xB0, CHR 0xD0, CHR 0xB7, CHR 0xD0, CHR 0xB2, CHR 0xD0, CHR 0xB0, CHR 0xD0, CHR 0xBD, CHR 0xD0, CHR 0xB8, CHR 0xD0, CHR 0xB5]),
     (''No response values.'', [CHR 0xD0, CHR 0x9D, CHR 0xD0, CHR 0xB5, CHR 0xD1, CHR 0x82] @ '' '' @ [CHR 0xD0, CHR 0xB7, CHR 0xD0, CHR 0xBD, CHR 0xD0, CHR 0xB0, CHR 0xD1, CHR 0x87, CHR 0xD0, CHR 0xB5, CHR 0xD0, CHR 0xBD, CHR 0xD0, CHR 0xB8, CHR 0xD0, CHR 0xB9] @ '' '' @ [CHR 0xD0, CHR 0xB4, CHR 0xD0, CHR 0xBB, CHR 0xD1, CHR 0x8F] @ '' '' @ [CHR 0xD0, CHR 0xBE, CHR 0xD1, CHR 0x82, CHR 0xD0, CHR 0xB2, CHR 0xD0, CHR 0xB5, CHR 0xD1, CHR 0x82, CHR 0xD0, CHR 0xB0] @ ''.''),
     (''optional'', [CHR 0xD0, CHR 0xBD, CHR 0xD0, CHR 0xB5, CHR 0xD0, CHR 0xBE, CHR 0xD0, CHR 0xB1, CHR 0xD1, CHR 0x8F, CHR 0xD0, CHR 0xB7, CHR 0xD0, CHR 0xB0, CHR 0xD1, CHR 0x82, CHR 0xD0, CHR 0xB5, CHR 0xD0, CHR 0xBB, CHR 0xD1, CHR 0x8C, CHR 0xD0, CHR 0xBD, CHR 0xD1, CHR 0x8B, CHR 0xD0, CHR 0xB9]),
     (''Parameter'', [CHR 0xD0, CHR 0x9F, CHR 0xD0, CHR 0xB0, CHR 0xD1, CHR 0x80, CHR 0xD0, CHR 0xB0, CHR 0xD0, CHR 0xBC, CHR 0xD0, CHR 0xB5, CHR 0xD1, CHR 0x82, CHR 0xD1, CHR 0x80]),
     (''Permission:'', [CHR 0xD0, CHR 0xA0, CHR 0xD0, CHR 0xB0, CHR 0xD0, CHR 0xB7, CHR 0xD1, CHR 0x80, CHR 0xD0, CHR 0xB5, CHR 0xD1, CHR 0x88, CHR 0xD0, CHR 0xB5, CHR 0xD0, CHR 0xBD, CHR 0xD0, CHR 0xBE] @ '':''),
     (''Response'', [CHR 0xD0, CHR 0x9E, CHR 0xD1, CHR 0x82, CHR 0xD0, CHR 0xB2, CHR 0xD0, CHR 0xB5, CHR 0xD1, CHR 0x82]),
     (''Send'', [CHR 0xD0, CHR 0x9E, CHR 0xD1, CHR 0x82, CHR 0xD0, CHR 0xBF, CHR 0xD1, CHR 0x80, CHR 0xD0, CHR 0xB0, CHR 0xD0, CHR 0xB2, CHR 0xD0, CHR 0xB8, CHR 0xD1, CHR 0x82, CHR 0xD1, CHR 0x8C]),
     (''Send a Sample Request'', [CHR 0xD0, CHR 0x9E, CHR 0xD1, CHR 0x82, CHR 0xD0, CHR 0xBF, CHR 0xD1, CHR 0x80, CHR 0xD0, CHR 0xB0, CHR 0xD0, CHR 0xB2, CHR 0xD0, CHR 0xB8, CHR 0xD1, CHR 0x82, CHR 0xD1, CHR 0x8C] @ '' '' @ [CHR 0xD1, CHR 0x82, CHR 0xD0, CHR 0xB5, CHR 0xD1, CHR 0x81, CHR 0xD1, CHR 0x82, CHR 0xD0, CHR 0xBE, CHR 0xD0, CHR 0xB2, CHR 0xD1, CHR 0x8B, CHR 0xD0, CHR 0xB9] @ '' '' @ [CHR 0xD0, CHR 0xB7, CHR 0xD0, CHR 0xB0, CHR 0xD0, CHR 0xBF, CHR 0xD1, CHR 0x80, CHR 0xD0, CHR 0xBE, CHR 0xD1, CHR 0x81]),
     (''show up to version:'', [CHR 0xD0, CHR 0xBF, CHR 0xD0, CHR 0xBE, CHR 0xD0, CHR 0xBA, CHR 0xD0, CHR 0xB0, CHR 0xD0, CHR 0xB7, CHR 0xD0, CHR 0xB0, CHR 0xD1, CHR 0x82, CHR 0xD1, CHR 0x8C] @ '' '' @ [CHR 0xD0, CHR 0xB2, CHR 0xD0, CHR 0xB5, CHR 0xD1, CHR 0x80, CHR 0xD1, CHR 0x81, CHR 0xD0, CHR 0xB8, CHR 0xD1, CHR 0x8E] @ '':''),
     (''Size range:'', [CHR 0xD0, CHR 0x9E, CHR 0xD0, CHR 0xB3, CHR 0xD1, CHR 0x80, CHR 0xD0, CHR 0xB0, CHR 0xD0, CHR 0xBD, CHR 0xD0, CHR 0xB8, CHR 0xD1, CHR 0x87, CHR 0xD0, CHR 0xB5, CHR 0xD0, CHR 0xBD, CHR 0xD0, CHR 0xB8, CHR 0xD1, CHR 0x8F] @ '':''),
     (''Type'', [CHR 0xD0, CHR 0xA2, CHR 0xD0, CHR 0xB8, CHR 0xD0, CHR 0xBF]),
     (''url'', ''URL'')])]"

definition zh_js :: "(string \<times> table) list" where
  "zh_js = [(''zh'',
    [(''Allowed values'' @ [CHR 0xE2, CHR 0x80, CHR 0x8B, CHR 0xE2, CHR 0x80, CHR 0x8B] @ '':'', [CHR 0xE5, CHR 0x85, CHR 0x81, CHR 0xE8, CHR 0xA8, CHR 0xB1, CHR 0xE5, CHR 0x80, CHR 0xBC] @ '':''),
     (''Compare all with predecessor'', [CHR 0xE9, CHR 0xA0, CHR 0x90, CHR 0xE5, CHR 0x85, CHR 0x88, CHR 0xE6, CHR 0xAF, CHR 0x94, CHR 0xE8, CHR 0xBC, CHR 0x83, CHR 0xE6, CHR 0x89, CHR 0x80, CHR 0xE6, CHR 0x9C, CHR 0x89]),
     (''compare changes to:'', [CHR 0xE6, CHR 0xAF, CHR 0x94, CHR 0xE8, CHR 0xBC, CHR 0x83, CHR 0xE8, CHR 0xAE, CHR 0x8A, CHR 0xE6, CHR 0x9B, CHR 0xB4] @ '':''),
     (''compared to'', [CHR 0xE5, CHR 0xB0, CHR 0x8D, CHR 0xE6, CHR 0xAF, CHR 0x94]),
     (''Default value:'', [CHR 0xE9, CHR 0xBB, CHR 0x98, CHR 0xE8, CHR 0xAA, CHR 0x8D, CHR 0xE5, CHR 0x80, CHR 0xBC] @ '':''),
     (''Description'', [CHR 0xE6, CHR 0x8F, CHR 0x8F, CHR 0xE8, CHR 0xBF, CHR 0xB0]),
     (''Field'', [CHR 0xE5, CHR 0xAD, CHR 0x97, CHR 0xE6, CHR 0xAE, CHR 0xB5]),
     (''General'', [CHR 0xE6, CHR 0xA6, CHR 0x82, CHR 0xE6, CHR 0x8B, CHR 0xAC]),
     (''Generated with'', [CHR 0xE7, CHR 0x94, CHR 0x9F, CHR 0xE6, CHR 0x88, CHR 0x90, CHR 0xE5, CHR 0xB7, CHR 0xA5, CHR 0xE5, CHR 0x85, CHR 0xB7]),
     (''Name'', [CHR 0xE5, CHR 0x90, CHR 0x8D, CHR 0xE7, CHR 0xA8, CHR 0xB1]),
     (''No response values'' @ [CHR 0xE2, CHR 0x80, CHR 0x8B, CHR 0xE2, CHR 0x80, CHR 0x8B] @ ''.'', [CHR 0xE7, CHR 0x84, CHR 0xA1, CHR 0xE5, CHR 0xB0, CHR 0x8D, CHR 0xE6, CHR 0x87, CHR 0x89, CHR 0xE8, CHR 0xB3, CHR 0x87, CHR 0xE6, CHR 0x96, CHR 0x99] @ ''.''),
     (''optional'', [CHR 0xE9, CHR 0x81, CHR 0xB8, CHR 0xE9, CHR 0xA0, CHR 0x85]),
     (''Parameter'', [CHR 0xE5, CHR 0x8F, CHR 0x83, CHR 0xE6, CHR 0x95, CHR 0xB8]),
     (''Permission:'', [CHR 0xE5, CHR 0x85, CHR 0x81, CHR 0xE8, CHR 0xA8, CHR 0xB1] @ '':''),
     (''Response'', [CHR 0xE5, CHR 0x9B, CHR 0x9E, CHR 0xE6, CHR 0x87, CHR 0x89]),
     (''Send'', [CHR 0xE7, CHR 0x99, CHR 0xBC, CHR 0xE9, CHR 0x80, CHR 0x81]),
     (''Send a Sample Request'', [CHR 0xE7, CHR 0x99, CHR 0xBC, CHR 0xE9, CHR 0x80, CHR 0x81, CHR 0xE8, CHR 0xA9, CHR 0xA6, CHR 0xE7, CHR 0x94, CHR 0xA8, CHR 0xE9, CHR 0x9C, CHR 0x80, CHR 0xE6, CHR 0xB1, CHR 0x82]),
     (''show up to version:'', [CHR 0xE9, CHR 0xA1, CHR 0xAF, CHR 0xE7, CHR 0xA4, CHR 0xBA, CHR 0xE5, CHR 0x88, CHR 0xB0, CHR 0xE7, CHR 0x89, CHR 0x88, CHR 0xE6, CHR 0x9C, CHR 0xAC] @ '':''),
     (''Size range:'', [CHR 0xE5, CHR 0xB0, CHR 0xBA, CHR 0xE5, CHR 0xAF, CHR 0xB8, CHR 0xE7, CHR 0xAF, CHR 0x84, CHR 0xE5, CHR 0x9C, CHR 0x8D] @ '':''),
     (''Type'', [CHR 0xE9, CHR 0xA1, CHR 0x9E, CHR 0xE5, CHR 0x9E, CHR 0x8B]),
     (''url'', [CHR 0xE7, CHR 0xB6, CHR 0xB2, CHR 0xE5, CHR 0x9D, CHR 0x80])])]"

definition zh_cn_js :: "(string \<times> table) list" where
  "zh_cn_js = [(''zh-cn'',
    [(''Allowed values:'', [CHR 0xE5, CHR 0x85, CHR 0x81, CHR 0xE8, CHR 0xAE, CHR 0xB8, CHR 0xE5, CHR 0x80, CHR 0xBC] @ '':''),
     (''Compare all with predecessor'', [CHR 0xE4, CHR 0xB8, CHR 0x8E, CHR 0xE6, CHR 0x89, CHR 0x80, CHR 0xE6, CHR 0x9C, CHR 0x89, CHR 0xE8, CHR 0xBE, CHR 0x83, CHR 0xE6, CHR 0x97, CHR 0xA9, CHR 0xE7, CHR 0x9A, CHR 0x84, CHR 0xE6, CHR 0xAF, CHR 0x94, CHR 0xE8, CHR 0xBE, CHR 0x83]),
     (''compare changes to:'', [CHR 0xE5, CHR 0xB0, CHR 0x86, CHR 0xE5, CHR 0xBD, CHR 0x93, CHR 0xE5, CHR 0x89, CHR 0x8D, CHR 0xE7, CHR 0x89, CHR 0x88, CHR 0xE6, CHR 0x9C, CHR 0xAC, CHR 0xE4, CHR 0xB8, CHR 0x8E, CHR 0xE6, CHR 0x8C, CHR 0x87, CHR 0xE5, CHR 0xAE, CHR 0x9A, CHR 0xE7, CHR 0x89, CHR 0x88, CHR 0xE6, CHR 0x9C, CHR 0xAC, CHR 0xE6, CHR 0xAF, CHR 0x94, CHR 0xE8, CHR 0xBE, CHR 0x83] @ '':''),
     (''compared to'', [CHR 0xE7, CHR 0x9B, CHR 0xB8, CHR 0xE6, CHR 0xAF, CHR 0x94, CHR 0xE4, CHR 0xBA, CHR 0x8E]),
     (''Default value:'', [CHR 0xE9, CHR 0xBB, CHR 0x98, CHR 0xE8, CHR 0xAE, CHR 0xA4, CHR 0xE5, CHR 0x80, CHR 0xBC] @ '':''),
     (''Description'', [CHR 0xE6, CHR 0x8F, CHR 0x8F, CHR 0xE8, CHR 0xBF, CHR 0xB0]),
     (''Field'', [CHR 0xE5, CHR 0xAD, CHR 0x97, CHR 0xE6, CHR 0xAE, CHR 0xB5]),
     (''General'', [CHR 0xE6, CHR 0xA6, CHR 0x82, CHR 0xE8, CHR 0xA6, CHR 0x81]),
     (''Generated with'', [CHR 0xE5, CHR 0x9F, CHR 0xBA, CHR 0xE4, CHR 0xBA, CHR 0x8E]),
     (''Name'', [CHR 0xE5, CHR 0x90, CHR 0x8D, CHR 0xE7, CHR 0xA7, CHR 0xB0]),
     (''No response values.'', [CHR 0xE6, CHR 0x97, CHR 0xA0, CHR 0xE8, CHR 0xBF, CHR 0x94, CHR 0xE5, CHR 0x9B, CHR 0x9E, CHR 0xE5, CHR 0x80, CHR 0xBC] @ ''.''),
     (''optional'', [CHR 0xE5, CHR 0x8F, CHR 0xAF, CHR 0xE9, CHR 0x80, CHR 0x89]),
     (''Parameter'', [CHR 0xE5, CHR 0x8F, CHR 0x82, CHR 0xE6, CHR 0x95, CHR 0xB0]),
     (''Permission:'', [CHR 0xE6, CHR 0x9D, CHR 0x83, CHR 0xE9, CHR 0x99, CHR 0x90] @ '':''),
     (''Response'', [CHR 0xE8, CHR 0xBF, CHR 0x94, CHR 0xE5, CHR 0x9B, CHR 0x9E]),
     (''Send'', [CHR 0xE5, CHR 0x8F, CHR 0x91, CHR 0xE9, CHR 0x80, CHR 0x81]),
     (''Send a Sample Request'', [CHR 0xE5, CHR 0x8F, CHR 0x91, CHR 0xE9, CHR 0x80, CHR 0x81, CHR 0xE7, CHR 0xA4, CHR 0xBA, CHR 0xE4, CHR 0xBE, CHR 0x8B, CHR 0xE8, CHR 0xAF, CHR 0xB7, CHR 0xE6, CHR 0xB1, CHR 0x82]),
     (''show up to version:'', [CHR 0xE6, CHR 0x98, CHR 0xBE, CHR 0xE7, CHR 0xA4, CHR 0xBA, CHR 0xE5, CHR 0x88, CHR 0xB0, CHR 0xE6, CHR 0x8C, CHR 0x87, CHR 0xE5, CHR 0xAE, CHR 0x9A, CHR 0xE7, CHR 0x89, CHR 0x88, CHR 0xE6, CHR 0x9C, CHR 0xAC] @ '':''),
     (''Size range:'', [CHR 0xE5, CHR 0x8F, CHR 0x96, CHR 0xE5, CHR 0x80, CHR 0xBC, CHR 0xE8, CHR 0x8C, CHR 0x83, CHR 0xE5, CHR 0x9B, CHR 0xB4] @ '':''),
     (''Type'', [CHR 0xE7, CHR 0xB1, CHR 0xBB, CHR 0xE5, CHR 0x9E, CHR 0x8B]),
     (''url'', [CHR 0xE7, CHR 0xBD, CHR 0x91, CHR 0xE5, CHR 0x9D, CHR 0x80])])]"

section \<open>Choice of the language\<close>

text \<open>The state of the module: the tables and the current one; \<open>exported\<close> is the copy of the
  current table that the module returns.\<close>

record i18n =
  locales :: "(string \<times> table) list"
  current :: "table option"
  exported :: "table option"

definition locale_files :: "(string \<times> table) list list" where
  "locale_files = [de_js, es_js, fr_js, nl_js, pl_js, pt_br_js, ru_js, zh_js, zh_cn_js]"

definition merge_locales :: "(string \<times> table) list list \<Rightarrow> (string \<times> table) list" where
  "merge_locales args = fold (\<lambda>arg ls. fold (\<lambda>(property, t) ls. AList.update property t ls) arg ls) args []"

definition with_english :: "(string \<times> table) list \<Rightarrow> (string \<times> table) list" where
  "with_english ls = (if map_of ls ''en'' = None then AList.update ''en'' [] ls else ls)"

text \<open>\<open>navigator.language || navigator.userLanguage\<close>\<close>

definition navigator_language :: "string option \<Rightarrow> string option \<Rightarrow> string option" where
  "navigator_language lang user = (case lang of Some l \<Rightarrow> if l = [] then user else Some l | None \<Rightarrow> user)"

definition lang_id :: "string \<Rightarrow> string" where
  "lang_id tag = js_replace ''-'' ''_'' (js_lower tag)"

text \<open>Loading the module; without a language of the browser it throws.\<close>

definition load_locale ::
  "(string \<times> table) list list \<Rightarrow> string option \<Rightarrow> string option \<Rightarrow> i18n option" where
  "load_locale args lang user =
     (case navigator_language lang user of
        None \<Rightarrow> None
      | Some tag \<Rightarrow>
          (let langId = lang_id tag;
               language = take 2 langId;
               ls = with_english (merge_locales args);
               language' = (if map_of ls langId = None \<and> map_of ls language = None then ''en'' else language);
               l = (if map_of ls langId \<noteq> None then map_of ls langId else map_of ls language')
           in Some \<lparr>locales = ls, current = l, exported = l\<rparr>))"

text \<open>A message: the text that is shown, a member that the table inherits, or the TypeError of a
  page whose language has no table.\<close>

datatype message = Message string | Inherited string | NoTable

definition translate :: "i18n \<Rightarrow> string \<Rightarrow> message" where
  "translate st text = (case current st of
     None \<Rightarrow> NoTable
   | Some l \<Rightarrow> (case map_of l text of
        Some index \<Rightarrow> Message index
      | None \<Rightarrow> if text \<in> set object_members then Inherited text else Message text))"

definition setLanguage :: "string \<Rightarrow> i18n \<Rightarrow> i18n" where
  "setLanguage language st = st\<lparr>current := map_of (locales st) language\<rparr>"

section \<open>Lemmas\<close>

lemma map_of_merge_locales: "map_of (merge_locales args) = map_of (rev (concat args))"
proof -
  have one: "map_of (fold (\<lambda>(p, t) ls. AList.update p t ls) arg ls) = map_of (rev arg @ ls)" for arg and ls :: "(string \<times> table) list"
    by (induction arg arbitrary: ls) (auto simp: map_add_def fun_eq_iff split: option.splits)
  have "map_of (fold (\<lambda>arg ls. fold (\<lambda>(p, t) ls. AList.update p t ls) arg ls) args ls) = map_of (rev (concat args) @ ls)"
    for ls :: "(string \<times> table) list"
    by (induction args arbitrary: ls) (simp_all add: one)
  then show ?thesis by (simp add: merge_locales_def)
qed

lemma locale_names:
  "map fst (concat locale_files) = [''de'', ''es'', ''fr'', ''nl'', ''pl'', ''pt_br'', ''ru'', ''zh'', ''zh-cn'']"
  by (simp add: locale_files_def de_js_def es_js_def fr_js_def nl_js_def pl_js_def pt_br_js_def ru_js_def zh_js_def zh_cn_js_def)

lemma map_of_locales:
  "map_of (with_english (merge_locales locale_files)) = (map_of (concat locale_files))(''en'' \<mapsto> [])"
proof -
  have d: "distinct (map fst (concat locale_files))" unfolding locale_names by simp
  have e: "''en'' \<notin> set (map fst (concat locale_files))"
    unfolding locale_names by simp
  have m: "map_of (merge_locales locale_files) = map_of (concat locale_files)"
    unfolding map_of_merge_locales using d by (simp add: map_of_inject_set rev_map[symmetric])
  with e have "map_of (merge_locales locale_files) ''en'' = None" by (metis map_of_eq_None_iff set_map)
  with m show ?thesis by (simp add: with_english_def)
qed

lemma locales_None: "map_of (concat locale_files) k = None \<longleftrightarrow> k \<notin> set [''de'', ''es'', ''fr'', ''nl'', ''pl'', ''pt_br'', ''ru'', ''zh'', ''zh-cn'']"
  unfolding map_of_eq_None_iff by (simp only: locale_names flip: set_map)

text \<open>The first dash of a tag becomes an underscore.\<close>

lemma lang_id_dash: "a @ ''-'' @ b = lang_id tag \<Longrightarrow> CHR ''_'' \<in> set a"
proof -
  have "CHR ''_'' \<in> set a" if "a @ ''-'' @ b = js_replace ''-'' ''_'' s" for s a
    using that
  proof (induction s arbitrary: a)
    case (Cons c s)
    then show ?case
      by (cases a) (auto simp: js_replace.simps prefix_def split: if_splits)
  qed simp
  then show "a @ ''-'' @ b = lang_id tag \<Longrightarrow> CHR ''_'' \<in> set a"
    by (simp add: lang_id_def)
qed

lemma lang_id_not_zh_cn: "lang_id tag \<noteq> ''zh-cn''"
  using lang_id_dash[of "''zh''" "''cn''" tag] by auto

lemma lang_id_pt_br: "lang_id tag = ''pt_br'' \<longleftrightarrow> js_lower tag \<in> {''pt-br'', ''pt_br''}"
proof
  assume *: "lang_id tag = ''pt_br''"
  have "s \<in> {''pt-br'', ''pt_br''}" if "js_replace ''-'' ''_'' s = ''pt_br''" for s
    using that by (cases s; cases "tl s"; cases "tl (tl s)"; cases "tl (tl (tl s))"; cases "tl (tl (tl (tl s)))"; cases "tl (tl (tl (tl (tl s))))") (auto split: if_splits)
  with * show "js_lower tag \<in> {''pt-br'', ''pt_br''}" by (simp add: lang_id_def)
qed (auto simp: lang_id_def)

lemma take_lang_id:
  assumes "CHR ''-'' \<notin> set k" "CHR ''_'' \<notin> set k" "length k = 2"
  shows "take 2 (lang_id tag) = k \<longleftrightarrow> take 2 (js_lower tag) = k"
proof -
  have "take 2 (js_replace ''-'' ''_'' s) = k \<longleftrightarrow> take 2 s = k" for s
    using assms by (cases s; cases "tl s") (auto split: if_splits)
  then show ?thesis by (simp add: lang_id_def)
qed

definition two_letter :: "string list" where
  "two_letter = [''de'', ''es'', ''fr'', ''nl'', ''pl'', ''ru'', ''zh'']"

lemma take_lang_id_two: "take 2 (lang_id tag) \<in> set two_letter \<longleftrightarrow> take 2 (js_lower tag) \<in> set two_letter"
  "take 2 (js_lower tag) \<in> set two_letter \<Longrightarrow> take 2 (lang_id tag) = take 2 (js_lower tag)"
proof -
  have *: "take 2 (lang_id tag) = k \<longleftrightarrow> take 2 (js_lower tag) = k" if "k \<in> set two_letter" for k
    using that by (intro take_lang_id) (auto simp: two_letter_def)
  show "take 2 (lang_id tag) \<in> set two_letter \<longleftrightarrow> take 2 (js_lower tag) \<in> set two_letter"
    by (metis *)
  show "take 2 (js_lower tag) \<in> set two_letter \<Longrightarrow> take 2 (lang_id tag) = take 2 (js_lower tag)"
    by (metis *)
qed

lemma load_locale_current:
  assumes "tag \<noteq> []"
  shows "\<exists>st. load_locale locale_files (Some tag) user = Some st \<and> current st =
     (if lang_id tag = ''pt_br'' then map_of (concat locale_files) ''pt_br''
      else if take 2 (lang_id tag) \<in> set two_letter then map_of (concat locale_files) (take 2 (lang_id tag)) else Some [])"
proof -
  let ?m = "map_of (concat locale_files)" and ?l = "lang_id tag"
  have l: "?m ?l = None \<longleftrightarrow> ?l \<noteq> ''pt_br'' \<and> ?l \<notin> set two_letter"
    unfolding locales_None using lang_id_not_zh_cn[of tag] by (auto simp: two_letter_def)
  have t: "?m (take 2 ?l) = None \<longleftrightarrow> take 2 ?l \<notin> set two_letter"
  proof -
    have "length (take 2 ?l) \<noteq> 5" by simp
    then have "take 2 ?l \<noteq> k" if "length k = 5" for k using that by metis
    from this[of "''pt_br''"] this[of "''zh-cn''"] have "take 2 ?l \<notin> {''pt_br'', ''zh-cn''}" by simp
    then show ?thesis unfolding locales_None by (auto simp: two_letter_def)
  qed
  have s: "take 2 ?l = ?l" if "?l \<in> set two_letter \<or> ?l = ''en''"
    using that by (auto simp: two_letter_def)
  have en: "''en'' \<notin> set two_letter" by (simp add: two_letter_def)
  have mv: "map_of (with_english (merge_locales locale_files)) k = (if k = ''en'' then Some [] else ?m k)" for k
    by (simp add: map_of_locales)
  let ?ls = "map_of (with_english (merge_locales locale_files))"
  let ?c = "if ?ls ?l \<noteq> None then ?ls ?l else ?ls (if ?ls ?l = None \<and> ?ls (take 2 ?l) = None then ''en'' else take 2 ?l)"
  have "?c = (if ?l = ''pt_br'' then ?m ''pt_br'' else if take 2 ?l \<in> set two_letter then ?m (take 2 ?l) else Some [])"
  proof (cases "?l = ''pt_br''")
    case True
    with l have "?m ''pt_br'' \<noteq> None" by simp
    with True show ?thesis unfolding mv by simp
  next
    case False
    show ?thesis
    proof (cases "?l \<in> set two_letter \<or> ?l = ''en''")
      case True
      from s[OF True] False l en True show ?thesis unfolding mv by auto
    next
      case F2: False
      with False l have "?m ?l = None" by simp
      with F2 t en False show ?thesis unfolding mv by (cases "take 2 ?l = ''en''") auto
    qed
  qed
  with assms show ?thesis by (simp add: load_locale_def navigator_language_def Let_def)
qed

text \<open>The messages of a table.\<close>

definition messages :: "string \<Rightarrow> string list" where
  "messages lang = (case map_of (concat locale_files) lang of Some t \<Rightarrow> map fst t | None \<Rightarrow> [])"

lemmas table_defs = locale_files_def de_js_def es_js_def fr_js_def nl_js_def pl_js_def pt_br_js_def ru_js_def
  zh_js_def zh_cn_js_def

lemma map_of_files:
  "map_of (concat locale_files) ''de'' = map_of de_js ''de''" "map_of (concat locale_files) ''es'' = map_of es_js ''es''"
  "map_of (concat locale_files) ''fr'' = map_of fr_js ''fr''" "map_of (concat locale_files) ''nl'' = map_of nl_js ''nl''"
  "map_of (concat locale_files) ''pl'' = map_of pl_js ''pl''" "map_of (concat locale_files) ''pt_br'' = map_of pt_br_js ''pt_br''"
  "map_of (concat locale_files) ''ru'' = map_of ru_js ''ru''" "map_of (concat locale_files) ''zh'' = map_of zh_js ''zh''"
  by (simp_all add: table_defs)

lemma messages_same:
  "lang \<in> set [''es'', ''fr'', ''nl'', ''pl'', ''pt_br'', ''ru''] \<Longrightarrow> messages lang = messages ''de''"
proof -
  have "messages ''es'' = messages ''de''" by (simp add: messages_def map_of_files de_js_def es_js_def)
  moreover have "messages ''fr'' = messages ''de''" by (simp add: messages_def map_of_files de_js_def fr_js_def)
  moreover have "messages ''nl'' = messages ''de''" by (simp add: messages_def map_of_files de_js_def nl_js_def)
  moreover have "messages ''pl'' = messages ''de''" by (simp add: messages_def map_of_files de_js_def pl_js_def)
  moreover have "messages ''pt_br'' = messages ''de''" by (simp add: messages_def map_of_files de_js_def pt_br_js_def)
  moreover have "messages ''ru'' = messages ''de''" by (simp add: messages_def map_of_files de_js_def ru_js_def)
  ultimately show "lang \<in> set [''es'', ''fr'', ''nl'', ''pl'', ''pt_br'', ''ru''] \<Longrightarrow> messages lang = messages ''de''"
    by auto
qed

lemma messages_zh: "''Allowed values:'' \<in> set (messages ''de'')" "''Allowed values:'' \<notin> set (messages ''zh'')"
  by (simp_all add: messages_def map_of_files de_js_def zh_js_def)

lemma unknown_language_raises:
  "map_of (locales st) language = None \<Longrightarrow> translate (setLanguage language st) text = NoTable"
  by (simp add: translate_def setLanguage_def)

section \<open>Properties\<close>

text \<open>
  The language of the page, for every language tag of the browser: Brazilian Portuguese for
  \<open>pt-br\<close> and \<open>pt_br\<close> in any case, else the table of the first two letters when one of the seven
  two-letter tables has them, else the messages of the page themselves.  No tag selects the table
  of Simplified Chinese, whose file names it \<open>zh-cn\<close> while the tag is looked up with an underscore:
  \<open>zh-cn\<close> gives the table of \<open>zh\<close>, and that one does not translate \<open>Allowed values:\<close>.
\<close>

theorem language_choice:
  assumes "tag \<noteq> []"
  shows "\<exists>st. load_locale locale_files (Some tag) user = Some st \<and> current st =
     (if js_lower tag \<in> {''pt-br'', ''pt_br''} then map_of pt_br_js ''pt_br''
      else if take 2 (js_lower tag) \<in> set two_letter then map_of (concat locale_files) (take 2 (js_lower tag))
      else Some [])
    \<and> (js_lower tag = ''zh-cn'' \<longrightarrow> current st = map_of zh_js ''zh'' \<and> translate st ''Allowed values:'' = Message ''Allowed values:'')"
proof -
  let ?c = "\<lambda>st. current st = (if js_lower tag \<in> {''pt-br'', ''pt_br''} then map_of pt_br_js ''pt_br''
      else if take 2 (js_lower tag) \<in> set two_letter then map_of (concat locale_files) (take 2 (js_lower tag)) else Some [])"
  from load_locale_current[OF assms, of user] obtain st where
    st: "load_locale locale_files (Some tag) user = Some st" and "?c st"
    by (cases "take 2 (js_lower tag) \<in> set two_letter") (auto simp: take_lang_id_two lang_id_pt_br map_of_files)
  have zh: "current st = map_of zh_js ''zh''" if "js_lower tag = ''zh-cn''"
    using \<open>?c st\<close> that by (simp add: two_letter_def map_of_files)
  have "translate st ''Allowed values:'' = Message ''Allowed values:''" if "js_lower tag = ''zh-cn''"
    unfolding translate_def zh[OF that] by (simp add: zh_js_def object_members_def)
  with st \<open>?c st\<close> zh show ?thesis by blast
qed

theorem language_choice_witness:
  "\<exists>st. load_locale locale_files (Some ''pt-BR'') None = Some st \<and> current st = map_of pt_br_js ''pt_br''"
proof -
  have "js_lower ''pt-BR'' = ''pt-br''" by code_simp
  with language_choice[of "''pt-BR''" None] show ?thesis by auto
qed

end
