(* ===== verification/ApiDoc_Transform.thy ===== *)
theory ApiDoc_Transform
  imports JS_Number ApiDoc_Locale "HOL-Library.List_Lexorder" "HOL-Library.Char_ord" "HOL-Library.Multiset"
begin

text \<open>
  How the API documentation page arranges its data, \<^verbatim>\<open>broker/BrokerServer/public/apidoc/main.js\<close> up to the
  navigation: the defaults of the project, the order of the entries, the lists of groups and
  versions, and the navigation list.

  The page runs on the data of \<^verbatim>\<open>api_data.js\<close> and \<^verbatim>\<open>api_project.js\<close>; both are arguments.  Entries and
  the project are objects, and so are their parts.  The names of groups and requests are neither
  integers, which an object would list first, nor names that every object inherits.  The comparison
  of versions of the semver library is an argument.
\<close>

section \<open>Project defaults\<close>

definition is_nullish :: "jsval \<Rightarrow> bool" where
  "is_nullish v = (v = JUndef \<or> v = JNull)"

definition default_attr :: "string \<Rightarrow> jsval \<Rightarrow> jsval \<Rightarrow> jsval" where
  "default_attr k v e = (if is_nullish (attr e k) then set_attr e k v else e)"

definition project_defaults :: "jsval \<Rightarrow> jsval" where
  "project_defaults p =
     (let t = (if truthy (attr p ''template'') then attr p ''template'' else JObj [])
      in set_attr p ''template'' (default_attr ''withGenerator'' (JBool True) (default_attr ''withCompare'' (JBool True) t)))"

definition force_language :: "jsval \<Rightarrow> i18n \<Rightarrow> i18n" where
  "force_language p st = (let l = attr (attr p ''template'') ''forceLanguage''
     in if truthy l then setLanguage (to_string_val l) st else st)"

section \<open>Grouping and order\<close>

text \<open>\<open>_.groupBy\<close>: the groups in the order of their first elements.\<close>

definition groupBy :: "('a \<Rightarrow> string) \<Rightarrow> 'a list \<Rightarrow> (string \<times> 'a list) list" where
  "groupBy f xs = fold (\<lambda>x m. AList.update (f x) ((case map_of m (f x) of None \<Rightarrow> [] | Some ys \<Rightarrow> ys) @ [x]) m) xs []"

definition group_key :: "jsval \<Rightarrow> string" where
  "group_key e = to_string_val (attr e ''group'')"

definition name_key :: "jsval \<Rightarrow> string" where
  "name_key e = to_string_val (attr e ''name'')"

definition apiByGroup :: "jsval list \<Rightarrow> (string \<times> jsval list) list" where
  "apiByGroup api = groupBy group_key api"

definition apiByGroupAndName :: "jsval list \<Rightarrow> (string \<times> (string \<times> jsval list) list) list" where
  "apiByGroupAndName api = map (\<lambda>(index, entries). (index, groupBy name_key entries)) (apiByGroup api)"

definition sort_separator :: string where
  "sort_separator = ''#~#''"

text \<open>The titles of a group: the lower-case title without umlauts that the source computes is not
  used.\<close>

definition group_titles :: "(string \<times> jsval list) list \<Rightarrow> string list" where
  "group_titles groupEntries =
     concat (map (\<lambda>(titleName, entries). let title = attr (hd entries) ''title''
       in if title = JUndef then [] else [to_string_val title @ sort_separator @ titleName]) groupEntries)"

definition append_missing :: "string list \<Rightarrow> string list \<Rightarrow> string list" where
  "append_missing elements results = fold (\<lambda>element results. if js_index_of results element = - 1 then results @ [element] else results) elements results"

definition order_key :: "string option \<Rightarrow> string \<Rightarrow> string option" where
  "order_key splitBy element = (case splitBy of Some sep \<Rightarrow> js_nth (js_split element sep) 1 | None \<Rightarrow> Some element)"

definition sortByOrder :: "string list \<Rightarrow> string list \<Rightarrow> string option \<Rightarrow> string list" where
  "sortByOrder elements order splitBy =
     append_missing elements (concat (map (\<lambda>name. filter (\<lambda>element. order_key splitBy element = Some name) elements) order))"

definition project_order :: "jsval \<Rightarrow> string list option" where
  "project_order p = (if truthy (attr p ''order'') then Some (map to_string_val (arr_items (attr p ''order''))) else None)"

definition custom_order :: "jsval \<Rightarrow> string option \<Rightarrow> string list \<Rightarrow> string list" where
  "custom_order p splitBy xs = (case project_order p of Some order \<Rightarrow> sortByOrder xs order splitBy | None \<Rightarrow> xs)"

definition sorted_titles :: "jsval \<Rightarrow> (string \<times> jsval list) list \<Rightarrow> string list" where
  "sorted_titles p groupEntries = custom_order p (Some sort_separator) (sort (group_titles groupEntries))"

text \<open>The entries of a title; a title that contains the separator gives a wrong key, and the
  missing list a TypeError.\<close>

definition titled_entries :: "(string \<times> jsval list) list \<Rightarrow> string \<Rightarrow> jsval list option" where
  "titled_entries groupEntries name = Option.bind (js_nth (js_split name sort_separator) 1) (map_of groupEntries)"

fun collect :: "('a \<Rightarrow> 'b list option) \<Rightarrow> 'a list \<Rightarrow> 'b list option" where
  "collect f [] = Some []"
| "collect f (x # xs) = (case (f x, collect f xs) of (Some ys, Some zs) \<Rightarrow> Some (ys @ zs) | _ \<Rightarrow> None)"

definition ordered_api :: "jsval \<Rightarrow> jsval list \<Rightarrow> jsval list option" where
  "ordered_api p api =
     collect (\<lambda>(index, groupEntries). collect (titled_entries groupEntries) (sorted_titles p groupEntries)) (apiByGroupAndName api)"

section \<open>Groups and versions\<close>

fun first_occurrences :: "'a list \<Rightarrow> 'a list" where
  "first_occurrences [] = []"
| "first_occurrences (x # xs) = x # filter (\<lambda>y. y \<noteq> x) (first_occurrences xs)"

definition apiGroups :: "jsval \<Rightarrow> jsval list \<Rightarrow> string list" where
  "apiGroups p api = custom_order p None (sort (first_occurrences (map group_key api)))"

definition apiGroupTitles :: "jsval list \<Rightarrow> string \<Rightarrow> jsval" where
  "apiGroupTitles api g = fold (\<lambda>e t. if group_key e = g
     then (if truthy (attr e ''groupTitle'') then attr e ''groupTitle'' else attr e ''group'') else t) api JUndef"

definition version_key :: "jsval \<Rightarrow> string" where
  "version_key e = to_string_val (attr e ''version'')"

text \<open>The sort with a comparison function keeps the order of equal elements.\<close>

fun insert_by :: "('a \<Rightarrow> 'a \<Rightarrow> int) \<Rightarrow> 'a \<Rightarrow> 'a list \<Rightarrow> 'a list" where
  "insert_by compare x [] = [x]"
| "insert_by compare x (y # ys) = (if compare x y \<le> 0 then x # y # ys else y # insert_by compare x ys)"

definition sort_by :: "('a \<Rightarrow> 'a \<Rightarrow> int) \<Rightarrow> 'a list \<Rightarrow> 'a list" where
  "sort_by compare xs = foldr (insert_by compare) xs []"

definition apiVersions :: "(string \<Rightarrow> string \<Rightarrow> int) \<Rightarrow> jsval \<Rightarrow> jsval list \<Rightarrow> string list" where
  "apiVersions compare p api = rev (sort_by compare (first_occurrences (version_key p # map version_key api)))"

section \<open>Navigation list\<close>

record nav_item =
  n_group :: string
  n_isHeader :: bool
  n_hidden :: bool
  n_isFixed :: bool
  n_title :: jsval
  n_name :: jsval
  n_type :: jsval
  n_version :: jsval

definition header_item :: "string \<Rightarrow> jsval \<Rightarrow> bool \<Rightarrow> nav_item" where
  "header_item g title fixed = \<lparr>n_group = g, n_isHeader = True, n_hidden = False, n_isFixed = fixed,
     n_title = title, n_name = JUndef, n_type = JUndef, n_version = JUndef\<rparr>"

definition entry_item :: "string \<Rightarrow> bool \<Rightarrow> jsval \<Rightarrow> nav_item" where
  "entry_item g hidden e = \<lparr>n_group = g, n_isHeader = False, n_hidden = hidden, n_isFixed = False,
     n_title = attr e ''title'', n_name = attr e ''name'', n_type = attr e ''type'', n_version = attr e ''version''\<rparr>"

fun submenu :: "string \<Rightarrow> jsval \<Rightarrow> jsval list \<Rightarrow> nav_item list" where
  "submenu g oldName [] = []"
| "submenu g oldName (e # es) =
     (if attr e ''group'' = JStr g
      then entry_item g (oldName = attr e ''name'') e # submenu g (attr e ''name'') es
      else submenu g oldName es)"

definition main_menu :: "jsval list \<Rightarrow> string list \<Rightarrow> nav_item list" where
  "main_menu api groups = concat (map (\<lambda>g. header_item g (apiGroupTitles api g) False # submenu g (JStr '''') api) groups)"

text \<open>The fixed entries of the header and the footer; \<open>general\<close> is the translated title.\<close>

definition nav_list :: "jsval \<Rightarrow> jsval \<Rightarrow> jsval list \<Rightarrow> string list \<Rightarrow> nav_item list" where
  "nav_list general p api groups =
     (if truthy (attr p ''header'')
      then [header_item ''_'' (if is_nullish (attr (attr p ''header'') ''title'') then general else attr (attr p ''header'') ''title'') True]
      else [])
     @ main_menu api groups
     @ (if truthy (attr p ''footer'') \<and> \<not> is_nullish (attr (attr p ''footer'') ''title'')
        then [header_item ''_footer'' (attr (attr p ''footer'') ''title'') True] else [])"

definition page_title :: "jsval \<Rightarrow> string" where
  "page_title p = (if truthy (attr p ''title'') then to_string_val (attr p ''title'')
     else ''apiDoc: '' @ to_string_val (attr p ''name'') @ '' - '' @ to_string_val (attr p ''version''))"

section \<open>Custom order\<close>

lemma append_missing_filter:
  "distinct es \<Longrightarrow> append_missing es r = r @ filter (\<lambda>e. e \<notin> set r) es"
proof (induction es arbitrary: r)
  case (Cons e es)
  have "append_missing (e # es) r = append_missing es (if e \<notin> set r then r @ [e] else r)"
    by (simp add: append_missing_def)
  moreover have "filter (\<lambda>x. x \<notin> set (r @ [e])) es = filter (\<lambda>x. x \<notin> set r) es"
    using Cons.prems by (auto intro: filter_cong)
  ultimately show ?case using Cons by simp
qed (simp add: append_missing_def)

definition ordered_first :: "string list \<Rightarrow> string option \<Rightarrow> string list \<Rightarrow> string list" where
  "ordered_first order splitBy es =
     concat (map (\<lambda>name. filter (\<lambda>e. order_key splitBy e = Some name) es) order)
     @ filter (\<lambda>e. order_key splitBy e \<notin> Some ` set order) es"

lemma sortByOrder_eq:
  assumes "distinct es"
  shows "sortByOrder es order splitBy = ordered_first order splitBy es"
proof -
  let ?r = "concat (map (\<lambda>name. filter (\<lambda>e. order_key splitBy e = Some name) es) order)"
  have "filter (\<lambda>e. e \<notin> set ?r) es = filter (\<lambda>e. order_key splitBy e \<notin> Some ` set order) es"
    by (rule filter_cong) auto
  then show ?thesis using assms by (simp add: sortByOrder_def append_missing_filter ordered_first_def)
qed

lemma ordered_first_perm:
  assumes "distinct order"
  shows "mset (ordered_first order splitBy es) = mset es"
  using assms
proof (induction order)
  case Nil
  then show ?case by (simp add: ordered_first_def)
next
  case (Cons n order)
  let ?k = "order_key splitBy"
  have m: "mset (filter (\<lambda>e. ?k e \<notin> Some ` set order) es)
      = mset (filter (\<lambda>e. ?k e = Some n) es) + mset (filter (\<lambda>e. ?k e \<notin> Some ` set (n # order)) es)"
  proof -
    have "filter (\<lambda>e. ?k e = Some n) (filter (\<lambda>e. ?k e \<notin> Some ` set order) es) = filter (\<lambda>e. ?k e = Some n) es"
      using Cons.prems by (auto intro!: filter_cong)
    moreover have "filter (\<lambda>e. ?k e \<noteq> Some n) (filter (\<lambda>e. ?k e \<notin> Some ` set order) es) = filter (\<lambda>e. ?k e \<notin> Some ` set (n # order)) es"
      by (auto intro!: filter_cong)
    ultimately show ?thesis
      using multiset_partition[of "mset (filter (\<lambda>e. ?k e \<notin> Some ` set order) es)" "\<lambda>e. ?k e = Some n"]
      by (simp flip: mset_filter)
  qed
  have "mset (ordered_first (n # order) splitBy es) = mset (concat (map (\<lambda>name. filter (\<lambda>e. ?k e = Some name) es) order))
      + (mset (filter (\<lambda>e. ?k e = Some n) es) + mset (filter (\<lambda>e. ?k e \<notin> Some ` set (n # order)) es))"
    by (simp add: ordered_first_def ac_simps)
  also have "\<dots> = mset (ordered_first order splitBy es)" unfolding m[symmetric] by (simp add: ordered_first_def)
  finally show ?case using Cons by simp
qed

section \<open>Grouping\<close>

lemma set_first_occurrences [simp]: "set (first_occurrences xs) = set xs"
  by (induction xs) auto

lemma distinct_first_occurrences [simp]: "distinct (first_occurrences xs)"
  by (induction xs) auto

lemma first_occurrences_snoc:
  "first_occurrences (xs @ [x]) = (if x \<in> set xs then first_occurrences xs else first_occurrences xs @ [x])"
  by (induction xs) auto

lemma update_map: "distinct ks \<Longrightarrow> k \<in> set ks \<Longrightarrow>
   AList.update k v (map (\<lambda>k. (k, f k)) ks) = map (\<lambda>k'. (k', if k' = k then v else f k')) ks"
  by (induction ks) auto

lemma groupBy_eq: "groupBy f xs = map (\<lambda>k. (k, filter (\<lambda>x. f x = k) xs)) (first_occurrences (map f xs))"
proof (induction xs rule: rev_induct)
  case (snoc x xs)
  let ?g = "\<lambda>xs. map (\<lambda>k. (k, filter (\<lambda>x. f x = k) xs)) (first_occurrences (map f xs))"
  have step: "groupBy f (xs @ [x]) = AList.update (f x) ((case map_of (?g xs) (f x) of None \<Rightarrow> [] | Some ys \<Rightarrow> ys) @ [x]) (?g xs)"
    using snoc by (simp add: groupBy_def)
  have lk: "map_of (?g xs) k = (if k \<in> f ` set xs then Some (filter (\<lambda>x. f x = k) xs) else None)" for k
    by (simp add: map_of_map_restrict restrict_map_def)
  show ?case
  proof (cases "f x \<in> f ` set xs")
    case True
    then show ?thesis unfolding step lk
      by (simp add: first_occurrences_snoc update_map)
  next
    case False
    then have "filter (\<lambda>y. f y = f x) xs = []" by (auto simp: filter_empty_conv image_iff)
    moreover have "f x \<notin> fst ` set (?g xs)" using False by auto
    ultimately show ?thesis unfolding step lk using False
      by (auto simp: update_new first_occurrences_snoc)
  qed
qed (simp add: groupBy_def)

lemma mset_groups: "distinct ks \<Longrightarrow> f ` set xs \<subseteq> set ks \<Longrightarrow> mset (concat (map (\<lambda>k. filter (\<lambda>x. f x = k) xs) ks)) = mset xs"
proof (induction ks arbitrary: xs)
  case (Cons k ks)
  have "filter (\<lambda>x. f x = j) xs = filter (\<lambda>x. f x = j) (filter (\<lambda>x. f x \<noteq> k) xs)" if "j \<in> set ks" for j
    using that Cons.prems by (auto intro!: filter_cong)
  then have e: "map (\<lambda>j. filter (\<lambda>x. f x = j) xs) ks = map (\<lambda>j. filter (\<lambda>x. f x = j) (filter (\<lambda>x. f x \<noteq> k) xs)) ks" by simp
  have "mset (concat (map (\<lambda>j. filter (\<lambda>x. f x = j) (filter (\<lambda>x. f x \<noteq> k) xs)) ks)) = mset (filter (\<lambda>x. f x \<noteq> k) xs)"
    using Cons.prems by (intro Cons.IH) auto
  then have "mset (concat (map (\<lambda>j. filter (\<lambda>x. f x = j) xs) (k # ks))) = mset (filter (\<lambda>x. f x = k) xs) + mset (filter (\<lambda>x. f x \<noteq> k) xs)"
    by (simp only: e list.map concat.simps mset_append)
  then show ?case using multiset_partition[of "mset xs" "\<lambda>x. f x = k"] by simp
qed simp

section \<open>The ordered list of entries\<close>

lemma split_from_free: "c \<notin> set s \<Longrightarrow> js_split_from (c # sep) acc s = [rev acc @ s]"
  by (induction s arbitrary: acc) (auto simp: prefix_def)

lemma split_from_sep:
  "c \<notin> set s \<Longrightarrow> js_split_from (c # sep) acc (s @ (c # sep) @ t) = (rev acc @ s) # js_split_from (c # sep) [] t"
  by (induction s arbitrary: acc) (auto simp: prefix_def)

lemma split_title:
  assumes "CHR ''#'' \<notin> set t" "CHR ''#'' \<notin> set n"
  shows "js_split (t @ sort_separator @ n) sort_separator = [t, n]"
  using split_from_sep[OF assms(1), of "''~#''" "[]" n] split_from_free[OF assms(2)]
  by (simp add: js_split_def sort_separator_def)

text \<open>Entries whose group, name and title are strings, the name not empty, and neither name nor
  title with the separator's first character.\<close>

fun is_str :: "jsval \<Rightarrow> bool" where
  "is_str (JStr _) = True"
| "is_str _ = False"

definition entry_ok :: "jsval \<Rightarrow> bool" where
  "entry_ok e = (is_str (attr e ''group'') \<and> is_str (attr e ''name'') \<and> is_str (attr e ''title'')
     \<and> name_key e \<noteq> [] \<and> CHR ''#'' \<notin> set (name_key e) \<and> CHR ''#'' \<notin> set (str_of (attr e ''title'')))"

definition order_ok :: "jsval \<Rightarrow> bool" where
  "order_ok p = (case project_order p of Some order \<Rightarrow> distinct order | None \<Rightarrow> True)"

lemma is_str_eq: "is_str v \<Longrightarrow> v = JStr (str_of v)" "is_str v \<Longrightarrow> to_string_val v = str_of v"
  by (cases v; simp)+

lemma custom_order_perm:
  assumes "distinct xs" "order_ok p"
  shows "mset (custom_order p splitBy xs) = mset xs"
  using assms by (auto simp: custom_order_def order_ok_def sortByOrder_eq ordered_first_perm split: option.splits)

lemma collect_Some: "(\<And>x. x \<in> set xs \<Longrightarrow> f x = Some (g x)) \<Longrightarrow> collect f xs = Some (concat (map g xs))"
  by (induction xs) auto

definition named :: "jsval list \<Rightarrow> string \<Rightarrow> jsval list" where
  "named E k = filter (\<lambda>e. name_key e = k) E"

definition title_of :: "jsval list \<Rightarrow> string \<Rightarrow> string" where
  "title_of E k = str_of (attr (hd (named E k)) ''title'') @ sort_separator @ k"

lemma named_hd: "k \<in> name_key ` set E \<Longrightarrow> hd (named E k) \<in> set E \<and> name_key (hd (named E k)) = k"
proof -
  assume "k \<in> name_key ` set E"
  then have "named E k \<noteq> []" by (auto simp: named_def filter_empty_conv)
  then have "hd (named E k) \<in> set (named E k)" by (rule hd_in_set)
  then show ?thesis by (simp add: named_def)
qed

lemma title_split:
  assumes "list_all entry_ok E" "k \<in> name_key ` set E"
  shows "js_split (title_of E k) sort_separator = [str_of (attr (hd (named E k)) ''title''), k]"
  using assms named_hd[OF assms(2)] by (auto simp: title_of_def list_all_iff entry_ok_def intro!: split_title)

lemma group_titles_eq:
  assumes "list_all entry_ok E"
  shows "group_titles (groupBy name_key E) = map (title_of E) (first_occurrences (map name_key E))"
proof -
  have "(let title = attr (hd (named E k)) ''title'' in if title = JUndef then [] else [to_string_val title @ sort_separator @ k]) = [title_of E k]"
    if "k \<in> name_key ` set E" for k
  proof -
    have "is_str (attr (hd (named E k)) ''title'')"
      using named_hd[OF that] assms by (auto simp: list_all_iff entry_ok_def)
    then show ?thesis by (cases "attr (hd (named E k)) ''title''") (simp_all add: title_of_def)
  qed
  then have m: "map (\<lambda>k. let title = attr (hd (named E k)) ''title'' in if title = JUndef then [] else [to_string_val title @ sort_separator @ k])
      (first_occurrences (map name_key E)) = map (\<lambda>k. [title_of E k]) (first_occurrences (map name_key E))"
    by (intro map_cong) auto
  show ?thesis
    unfolding group_titles_def groupBy_eq by (simp add: comp_def m concat_map_singleton flip: named_def)
qed

lemma group_ordered:
  assumes E: "list_all entry_ok E" and p: "order_ok p"
  obtains ks where "mset ks = mset (first_occurrences (map name_key E))"
    "collect (titled_entries (groupBy name_key E)) (sorted_titles p (groupBy name_key E)) = Some (concat (map (named E) ks))"
proof -
  let ?ts = "sorted_titles p (groupBy name_key E)" and ?ns = "first_occurrences (map name_key E)"
  let ?key = "\<lambda>t. js_split t sort_separator ! 1"
  have key: "?key (title_of E k) = k" if "k \<in> set ?ns" for k using title_split[OF E] that by simp
  then have inj: "inj_on (title_of E) (set ?ns)" by (metis inj_onI)
  have m: "mset ?ts = mset (map (title_of E) ?ns)"
    unfolding sorted_titles_def using inj p by (simp add: custom_order_perm group_titles_eq[OF E] distinct_map)
  have "titled_entries (groupBy name_key E) t = Some (named E (?key t))" if t: "t \<in> set ?ts" for t
  proof -
    from t m obtain k where k: "k \<in> set ?ns" "t = title_of E k" by (metis imageE set_map set_mset_mset)
    with title_split[OF E, of k] show ?thesis
      by (simp add: titled_entries_def groupBy_eq map_of_map_restrict flip: named_def)
  qed
  then have "collect (titled_entries (groupBy name_key E)) ?ts = Some (concat (map (\<lambda>t. named E (?key t)) ?ts))"
    by (rule collect_Some)
  moreover have "mset (map ?key ?ts) = mset ?ns"
  proof -
    have "mset (map ?key ?ts) = mset (map ?key (map (title_of E) ?ns))" using m by (metis mset_map)
    also have "map ?key (map (title_of E) ?ns) = ?ns" unfolding map_map comp_def by (rule map_idI) (rule key)
    finally show ?thesis .
  qed
  ultimately show ?thesis using that[of "map ?key ?ts"] by (simp add: comp_def)
qed


definition group_of :: "jsval list \<Rightarrow> string \<Rightarrow> jsval list" where
  "group_of api g = filter (\<lambda>e. group_key e = g) api"

lemma ordered_api_eq:
  assumes api: "list_all entry_ok api" and p: "order_ok p"
  obtains ks where "\<And>g. mset (ks g) = mset (first_occurrences (map name_key (group_of api g)))"
    "ordered_api p api = Some (concat (map (\<lambda>g. concat (map (named (group_of api g)) (ks g))) (first_occurrences (map group_key api))))"
proof -
  let ?col = "\<lambda>E. collect (titled_entries (groupBy name_key E)) (sorted_titles p (groupBy name_key E))"
  have "\<exists>ks. mset ks = mset (first_occurrences (map name_key (group_of api g))) \<and>
      ?col (group_of api g) = Some (concat (map (named (group_of api g)) ks))" for g
  proof -
    have "list_all entry_ok (group_of api g)" using api by (auto simp: list_all_iff group_of_def)
    from group_ordered[OF this p] show ?thesis by metis
  qed
  then obtain ks where ks: "\<And>g. mset (ks g) = mset (first_occurrences (map name_key (group_of api g)))"
      "\<And>g. ?col (group_of api g) = Some (concat (map (named (group_of api g)) (ks g)))" by metis
  have "apiByGroupAndName api = map (\<lambda>g. (g, groupBy name_key (group_of api g))) (first_occurrences (map group_key api))"
    by (simp add: apiByGroupAndName_def apiByGroup_def groupBy_eq[of group_key] group_of_def)
  moreover have "collect (\<lambda>(index, ge). collect (titled_entries ge) (sorted_titles p ge)) (map (\<lambda>g. (g, groupBy name_key (group_of api g))) gs)
      = Some (concat (map (\<lambda>g. concat (map (named (group_of api g)) (ks g))) gs))" for gs
    by (induction gs) (simp_all add: ks(2))
  ultimately show ?thesis using that[of ks] ks(1) by (simp add: ordered_api_def)
qed

lemma mset_concat_map: "(\<And>x. x \<in> set xs \<Longrightarrow> mset (f x) = mset (g x)) \<Longrightarrow> mset (concat (map f xs)) = mset (concat (map g xs))"
  by (induction xs) simp_all

lemma names_concat:
  assumes "mset ks = mset (first_occurrences (map name_key E))"
  shows "mset (concat (map (named E) ks)) = mset E"
proof -
  have "distinct ks" "set ks = name_key ` set E"
    using assms by (metis distinct_first_occurrences mset_eq_imp_distinct_iff)
      (metis assms mset_eq_setD set_first_occurrences set_map)
  then show ?thesis using mset_groups[of ks name_key E] by (simp add: named_def[abs_def])
qed

lemma ordered_api_perm:
  assumes "list_all entry_ok api" "order_ok p"
  shows "\<exists>api'. ordered_api p api = Some api' \<and> mset api' = mset api"
proof -
  from ordered_api_eq[OF assms] obtain ks where
    ks: "\<And>g. mset (ks g) = mset (first_occurrences (map name_key (group_of api g)))"
    and api': "ordered_api p api = Some (concat (map (\<lambda>g. concat (map (named (group_of api g)) (ks g))) (first_occurrences (map group_key api))))"
    by blast
  have "mset (concat (map (\<lambda>g. concat (map (named (group_of api g)) (ks g))) (first_occurrences (map group_key api))))
      = mset (concat (map (group_of api) (first_occurrences (map group_key api))))"
    by (rule mset_concat_map) (rule names_concat[OF ks])
  also have "\<dots> = mset api"
    using mset_groups[of "first_occurrences (map group_key api)" group_key api] by (simp add: group_of_def[abs_def])
  finally show ?thesis using api' by blast
qed

section \<open>The navigation list\<close>

definition item_id :: "nav_item \<Rightarrow> jsval \<times> jsval \<times> jsval" where
  "item_id i = (JStr (n_group i), n_name i, n_version i)"

definition entry_id :: "jsval \<Rightarrow> jsval \<times> jsval \<times> jsval" where
  "entry_id e = (attr e ''group'', attr e ''name'', attr e ''version'')"

lemma submenu_ids: "map item_id (submenu g old es) = map entry_id (filter (\<lambda>e. attr e ''group'' = JStr g) es)"
  by (induction es arbitrary: old) (auto simp: item_id_def entry_id_def entry_item_def)

lemma submenu_filter: "submenu g old (filter (\<lambda>e. attr e ''group'' = JStr g) es) = submenu g old es"
  by (induction es arbitrary: old) auto

lemma submenu_no_header: "list_all (\<lambda>i. \<not> n_isHeader i) (submenu g old es)"
  by (induction es arbitrary: old) (auto simp: entry_item_def)

lemma nav_entries:
  "filter (\<lambda>i. \<not> n_isHeader i) (nav_list general p api gs) = concat (map (\<lambda>g. submenu g (JStr '''') api) gs)"
proof -
  have "filter (\<lambda>i. \<not> n_isHeader i) (main_menu api gs) = concat (map (\<lambda>g. submenu g (JStr '''') api) gs)"
    using submenu_no_header by (induction gs) (auto simp: main_menu_def header_item_def list_all_iff filter_id_conv)
  then show ?thesis by (simp add: nav_list_def header_item_def)
qed

lemma entry_ok_group: "entry_ok e \<Longrightarrow> attr e ''group'' = JStr g \<longleftrightarrow> group_key e = g"
  using is_str_eq[of "attr e ''group''"] by (auto simp: entry_ok_def group_key_def)

lemma entry_ok_name: "entry_ok e \<Longrightarrow> attr e ''name'' = JStr (name_key e)"
  using is_str_eq[of "attr e ''name''"] by (auto simp: entry_ok_def name_key_def)

text \<open>Within a group, a run of entries of one name has one visible item.\<close>

lemma submenu_run:
  assumes "list_all (\<lambda>e. attr e ''group'' = JStr g \<and> attr e ''name'' = JStr k) es"
  shows "submenu g (JStr k) (es @ rest) = map (entry_item g True) es @ submenu g (JStr k) rest"
  using assms by (induction es) auto

lemma submenu_block:
  assumes "es \<noteq> []" "list_all (\<lambda>e. attr e ''group'' = JStr g \<and> attr e ''name'' = JStr k) es" "old \<noteq> JStr k"
  shows "submenu g old (es @ rest) = entry_item g False (hd es) # map (entry_item g True) (tl es) @ submenu g (JStr k) rest"
proof (cases es)
  case (Cons e es')
  with assms submenu_run[of g k es' rest] show ?thesis by auto
qed (use assms in simp)

lemma submenu_visible:
  assumes "distinct ks" "old \<notin> JStr ` set ks"
    "\<And>k. k \<in> set ks \<Longrightarrow> B k \<noteq> [] \<and> list_all (\<lambda>e. attr e ''group'' = JStr g \<and> attr e ''name'' = JStr k) (B k)"
  shows "map n_name (filter (\<lambda>i. \<not> n_hidden i) (submenu g old (concat (map B ks)))) = map JStr ks"
  using assms
proof (induction ks arbitrary: old)
  case (Cons k ks)
  from Cons.prems(3)[of k] have k: "B k \<noteq> []" "list_all (\<lambda>e. attr e ''group'' = JStr g \<and> attr e ''name'' = JStr k) (B k)" by auto
  have o: "old \<noteq> JStr k" using Cons.prems(2) by auto
  have "map n_name (filter (\<lambda>i. \<not> n_hidden i) (submenu g (JStr k) (concat (map B ks)))) = map JStr ks"
    using Cons.prems by (intro Cons.IH) auto
  moreover have "attr (hd (B k)) ''name'' = JStr k"
    using k hd_in_set[OF k(1)] by (simp add: list_all_iff)
  ultimately show ?case
    using submenu_block[OF k o, of "concat (map B ks)"] by (simp add: entry_item_def filter_False)
qed simp

lemma filter_blocks:
  assumes "distinct gs" "g \<in> set gs" "\<And>h e. h \<in> set gs \<Longrightarrow> e \<in> set (B h) \<Longrightarrow> f e = h"
  shows "filter (\<lambda>e. f e = g) (concat (map B gs)) = B g"
proof -
  have "filter (\<lambda>e. f e = g) (concat (map B hs)) = (if g \<in> set hs then B g else [])" if "distinct hs" "set hs \<subseteq> set gs" for hs
    using that
  proof (induction hs)
    case (Cons h hs)
    then have "filter (\<lambda>e. f e = g) (B h) = (if h = g then B h else [])"
      using assms(3)[of h] by (auto simp: filter_id_conv filter_empty_conv)
    with Cons show ?case by auto
  qed simp
  from this[OF assms(1)] assms(2) show ?thesis by simp
qed

lemma submenu_group: "i \<in> set (submenu g old es) \<Longrightarrow> n_group i = g"
  by (induction es arbitrary: old) (auto simp: entry_item_def split: if_splits)

text \<open>The visible items of a group of the ordered list.\<close>

lemma group_visible:
  assumes api: "list_all entry_ok api" and p: "order_ok p" and api': "ordered_api p api = Some api'" and g: "g \<in> group_key ` set api"
  obtains ns where "distinct ns" "set ns = name_key ` set (group_of api g)"
    "map (\<lambda>i. (n_group i, n_name i)) (filter (\<lambda>i. \<not> n_hidden i) (submenu g (JStr '''') api')) = map (\<lambda>k. (g, JStr k)) ns"
proof -
  let ?gs = "first_occurrences (map group_key api)" and ?E = "group_of api g"
  from ordered_api_eq[OF api p] api' obtain ks where
    ks: "\<And>g. mset (ks g) = mset (first_occurrences (map name_key (group_of api g)))"
    and a: "api' = concat (map (\<lambda>g. concat (map (named (group_of api g)) (ks g))) ?gs)" by (metis option.inject)
  have d: "distinct (ks g)" and s: "set (ks g) = name_key ` set ?E"
    using mset_eq_imp_distinct_iff[OF ks[of g]] mset_eq_setD[OF ks[of g]] by simp_all
  have ok: "list_all entry_ok api'"
    using api ordered_api_perm[OF api p] api' by (metis list_all_iff mset_eq_setD option.inject)
  have "filter (\<lambda>e. attr e ''group'' = JStr g) api' = filter (\<lambda>e. group_key e = g) api'"
    using ok by (auto simp: list_all_iff entry_ok_group intro!: filter_cong)
  also have "\<dots> = concat (map (named ?E) (ks g))"
    unfolding a using g by (intro filter_blocks) (auto simp: named_def group_of_def)
  finally have "submenu g (JStr '''') api' = submenu g (JStr '''') (concat (map (named ?E) (ks g)))"
    by (metis submenu_filter)
  moreover have "map n_name (filter (\<lambda>i. \<not> n_hidden i) (submenu g (JStr '''') (concat (map (named ?E) (ks g))))) = map JStr (ks g)"
  proof (rule submenu_visible[OF d])
    show "JStr '''' \<notin> JStr ` set (ks g)" using s api by (auto simp: group_of_def list_all_iff entry_ok_def)
    fix k assume "k \<in> set (ks g)"
    then show "named ?E k \<noteq> [] \<and> list_all (\<lambda>e. attr e ''group'' = JStr g \<and> attr e ''name'' = JStr k) (named ?E k)"
      using s api by (auto simp: named_def group_of_def filter_empty_conv list_all_iff entry_ok_group entry_ok_name)
  qed
  ultimately have n: "map n_name (filter (\<lambda>i. \<not> n_hidden i) (submenu g (JStr '''') api')) = map JStr (ks g)" by simp
  have "map (\<lambda>i. (n_group i, n_name i)) (filter (\<lambda>i. \<not> n_hidden i) (submenu g (JStr '''') api'))
      = map (Pair g) (map n_name (filter (\<lambda>i. \<not> n_hidden i) (submenu g (JStr '''') api')))"
    using submenu_group by (auto simp: comp_def)
  then show ?thesis using that[OF d s] unfolding n by (simp add: comp_def)
qed

lemma apiGroups_perm: "order_ok p \<Longrightarrow> mset (apiGroups p api) = mset (first_occurrences (map group_key api))"
  by (simp add: apiGroups_def custom_order_perm)

lemma concat_visible:
  assumes "distinct gs" "\<And>g. g \<in> set gs \<Longrightarrow> \<exists>ns. distinct ns \<and> set ns = N g \<and> V g = map (\<lambda>k. (g, JStr k)) ns"
  shows "distinct (concat (map V gs)) \<and> set (concat (map V gs)) = {(g, JStr k) |g k. g \<in> set gs \<and> k \<in> N g}"
proof
  show "distinct (concat (map V gs))"
    using assms
  proof (induction gs)
    case (Cons g gs)
    then obtain ns where "distinct ns" "V g = map (\<lambda>k. (g, JStr k)) ns" by (metis list.set_intros(1))
    then have "distinct (V g)" "fst ` set (V g) \<subseteq> {g}" by (auto simp: distinct_map inj_on_def)
    moreover have "fst ` set (V h) \<subseteq> {h}" if "h \<in> set gs" for h
      using Cons.prems(2)[of h] that by auto
    moreover have "distinct (concat (map V gs))" using Cons by simp
    moreover have "set (V g) \<inter> \<Union> (set ` V ` set gs) = {}" using calculation(2,3) Cons.prems(1) by fastforce
    ultimately show ?case by simp
  qed simp
  show "set (concat (map V gs)) = {(g, JStr k) |g k. g \<in> set gs \<and> k \<in> N g}"
  proof -
    have "set (V g) = (\<lambda>k. (g, JStr k)) ` N g" if "g \<in> set gs" for g using assms(2)[OF that] by auto
    then show ?thesis by auto
  qed
qed

section \<open>Properties of the lists\<close>



text \<open>
  C33. Completeness of the navigation.  For entries with a title and a name, the page arranges all of
  them, loses none and invents none; the navigation list has one item for every entry, and exactly
  one of the items of each name of a group is not hidden.
\<close>

theorem navigation_complete:
  assumes api: "list_all entry_ok api" and p: "order_ok p"
  shows "\<exists>api'. ordered_api p api = Some api' \<and> mset api' = mset api \<and>
    (let items = filter (\<lambda>i. \<not> n_isHeader i) (nav_list general p api' (apiGroups p api'));
         shown = map (\<lambda>i. (n_group i, n_name i)) (filter (\<lambda>i. \<not> n_hidden i) items)
     in mset (map item_id items) = mset (map entry_id api)
      \<and> distinct shown \<and> set shown = (\<lambda>e. (group_key e, attr e ''name'')) ` set api)"
proof -
  from ordered_api_perm[OF assms] obtain api' where api': "ordered_api p api = Some api'" and m: "mset api' = mset api" by blast
  let ?gs = "apiGroups p api'" and ?key = "\<lambda>i. (n_group i, n_name i)"
  have ok: "list_all entry_ok api'" using api mset_eq_setD[OF m] by (simp add: list_all_iff)
  have d: "distinct ?gs" and s: "set ?gs = group_key ` set api"
    using mset_eq_imp_distinct_iff[OF apiGroups_perm[OF p]] mset_eq_setD[OF apiGroups_perm[OF p]] mset_eq_setD[OF m] by simp_all
  have "map item_id (concat (map (\<lambda>g. submenu g (JStr '''') api') ?gs))
      = map entry_id (concat (map (\<lambda>g. filter (\<lambda>e. group_key e = g) api') ?gs))"
  proof -
    have "map item_id (submenu g (JStr '''') api') = map entry_id (filter (\<lambda>e. group_key e = g) api')" for g
      unfolding submenu_ids using ok by (auto simp: list_all_iff entry_ok_group intro!: arg_cong[of _ _ "map entry_id"] filter_cong)
    then show ?thesis by (simp add: map_concat comp_def)
  qed
  moreover have "mset (concat (map (\<lambda>g. filter (\<lambda>e. group_key e = g) api') ?gs)) = mset api'"
    using d s mset_eq_setD[OF m] by (intro mset_groups) auto
  ultimately have ids: "mset (map item_id (concat (map (\<lambda>g. submenu g (JStr '''') api') ?gs))) = mset (map entry_id api)"
    using m by (metis mset_map)
  let ?V = "\<lambda>g. map ?key (filter (\<lambda>i. \<not> n_hidden i) (submenu g (JStr '''') api'))"
  have "distinct (concat (map ?V ?gs)) \<and> set (concat (map ?V ?gs)) = {(g, JStr k) |g k. g \<in> set ?gs \<and> k \<in> name_key ` set (group_of api g)}"
    using d by (rule concat_visible) (metis s group_visible[OF api p api'])
  moreover have "{(g, JStr k) |g k. g \<in> set ?gs \<and> k \<in> name_key ` set (group_of api g)} = (\<lambda>e. (group_key e, attr e ''name'')) ` set api"
    using api s by (auto simp: group_of_def list_all_iff entry_ok_name image_iff) metis
  moreover have "map ?key (filter (\<lambda>i. \<not> n_hidden i) (concat (map (\<lambda>g. submenu g (JStr '''') api') gs))) = concat (map ?V gs)" for gs
    by (induction gs) simp_all
  ultimately show ?thesis unfolding Let_def nav_entries
    using api' m ids by (intro exI[of _ api'] conjI) (simp_all only:)
qed

definition demo_entry :: "string \<Rightarrow> string \<Rightarrow> string \<Rightarrow> jsval" where
  "demo_entry g n v = JObj [(''group'', JStr g), (''name'', JStr n), (''title'', JStr n), (''version'', JStr v)]"

lemma demo_entry_ok: "n \<noteq> [] \<Longrightarrow> CHR ''#'' \<notin> set n \<Longrightarrow> entry_ok (demo_entry g n v)"
  by (simp add: entry_ok_def demo_entry_def attr_def name_key_def)

theorem navigation_complete_witness:
  "\<exists>api'. ordered_api (JObj []) [demo_entry ''b'' ''y'' ''1.0.0'', demo_entry ''a'' ''x'' ''2.0.0'', demo_entry ''b'' ''y'' ''0.9.0''] = Some api'
     \<and> length api' = 3"
proof -
  let ?api = "[demo_entry ''b'' ''y'' ''1.0.0'', demo_entry ''a'' ''x'' ''2.0.0'', demo_entry ''b'' ''y'' ''0.9.0'']"
  have "list_all entry_ok ?api" by (simp add: demo_entry_ok)
  moreover have "order_ok (JObj [])" by (simp add: order_ok_def project_order_def attr_def)
  ultimately obtain api' where "ordered_api (JObj []) ?api = Some api'" "mset api' = mset ?api"
    using navigation_complete by blast
  then show ?thesis using mset_eq_length[of api' ?api] by auto
qed

end
