(* ===== verification/ApiDoc_Articles.thy ===== *)
theory ApiDoc_Articles
  imports ApiDoc_Transform
begin

text \<open>
  The sections and articles of the API documentation page, \<^verbatim>\<open>broker/BrokerServer/public/apidoc/main.js\<close>: the loop
  over groups and entries that collects the versions of every article, completes the values of the
  templates and renders the page.  The compiled Handlebars templates are arguments.  The loop
  writes the prefixed URL into the entries, so it returns them; an entry is listed once, as the
  order of the project has no name twice.
\<close>

section \<open>Articles\<close>

definition hasTypeInFields :: "jsval \<Rightarrow> bool" where
  "hasTypeInFields flds = list_ex (\<lambda>(name, items). list_ex (\<lambda>item. truthy (attr item ''type'')) (arr_items items)) (obj_items flds)"

text \<open>The values a template is given.\<close>

record tpl_fields =
  f_article :: jsval
  f_compare :: jsval
  f_hidden :: bool
  f_versions :: "jsval list option"
  f_id :: string
  f_flags :: "(string \<times> bool) list"
  f_template :: jsval

definition dots_to_underscores :: "string \<Rightarrow> string" where
  "dots_to_underscores s = map (\<lambda>c. if c = CHR ''.'' then CHR ''_'' else c) s"

definition article_id :: "jsval \<Rightarrow> string" where
  "article_id e = dots_to_underscores (to_string_val (attr e ''group'') @ ''-'' @ to_string_val (attr e ''name'')
     @ ''-'' @ to_string_val (attr e ''version''))"

definition has_fields :: "string \<Rightarrow> jsval \<Rightarrow> bool" where
  "has_fields part e = (truthy (attr e part) \<and> truthy (attr (attr e part) ''fields''))"

definition set_flag :: "string \<Rightarrow> string \<Rightarrow> jsval \<Rightarrow> (string \<times> bool) list \<Rightarrow> (string \<times> bool) list" where
  "set_flag part flag e fl = (if has_fields part e then AList.update flag (hasTypeInFields (attr (attr e part) ''fields'')) fl else fl)"

definition addArticleSettings :: "jsval \<Rightarrow> tpl_fields \<Rightarrow> jsval \<Rightarrow> tpl_fields" where
  "addArticleSettings p fs e =
     (let fl0 = f_flags fs;
          fl1 = set_flag ''header'' ''_hasTypeInHeaderFields'' e fl0;
          fl2 = set_flag ''parameter'' ''_hasTypeInParameterFields'' e fl1;
          fl3 = set_flag ''error'' ''_hasTypeInErrorFields'' e fl2;
          fl4 = set_flag ''success'' ''_hasTypeInSuccessFields'' e fl3;
          fl5 = set_flag ''info'' ''_hasTypeInInfoFields'' e fl4
      in fs\<lparr>f_id := article_id (f_article fs), f_flags := fl5, f_template := attr p ''template''\<rparr>)"

text \<open>The endpoint gets the URL of the project as prefix.\<close>

definition prefix_url :: "jsval \<Rightarrow> jsval \<Rightarrow> jsval" where
  "prefix_url p e = (if truthy (attr p ''url'')
     then set_attr e ''url'' (JStr (to_string_val (attr p ''url'') @ to_string_val (attr e ''url''))) else e)"

text \<open>The versions of one name of a group, in the order of the page.\<close>

definition same_article :: "string \<Rightarrow> jsval \<Rightarrow> jsval \<Rightarrow> bool" where
  "same_article g name e = (attr e ''group'' = JStr g \<and> attr e ''name'' = name)"

definition versions_of :: "string \<Rightarrow> jsval \<Rightarrow> jsval list \<Rightarrow> jsval list" where
  "versions_of g name api = map (\<lambda>e. attr e ''version'') (filter (same_article g name) api)"

type_synonym name_versions = "(string \<times> jsval list) list"

definition add_versions :: "string \<Rightarrow> jsval \<Rightarrow> jsval list \<Rightarrow> name_versions \<Rightarrow> name_versions" where
  "add_versions g e api vs = (let k = name_key e; new = versions_of g (attr e ''name'') api
     in if new = [] then vs else AList.update k ((case map_of vs k of None \<Rightarrow> [] | Some ys \<Rightarrow> ys) @ new) vs)"

text \<open>The state of the loop over the entries of a group.\<close>

record sec_state =
  oldName :: jsval
  nameVersions :: name_versions
  s_title :: jsval
  s_description :: jsval
  s_articles :: "(tpl_fields \<times> string) list"
  s_api :: "jsval list"

definition article_step ::
  "(tpl_fields \<Rightarrow> string) \<Rightarrow> jsval \<Rightarrow> jsval list \<Rightarrow> string \<Rightarrow> jsval \<Rightarrow> sec_state \<Rightarrow> sec_state" where
  "article_step templateArticle p api g e s =
     (if attr e ''group'' \<noteq> JStr g then s\<lparr>s_api := s_api s @ [e]\<rparr>
      else
        (let fresh = (oldName s \<noteq> attr e ''name'');
             vs = (if fresh then add_versions g e api (nameVersions s) else nameVersions s);
             e' = prefix_url p e;
             fs = addArticleSettings p \<lparr>f_article = e', f_compare = JUndef, f_hidden = \<not> fresh,
                    f_versions = map_of vs (name_key e), f_id = '''', f_flags = [], f_template = JUndef\<rparr> e'
         in \<lparr>oldName = attr e ''name'', nameVersions = vs,
             s_title = (if truthy (attr e' ''groupTitle'') then attr e' ''groupTitle'' else s_title s),
             s_description = (if truthy (attr e' ''groupDescription'') then attr e' ''groupDescription'' else s_description s),
             s_articles = s_articles s @ [(fs, templateArticle fs)],
             s_api = s_api s @ [e']\<rparr>))"

definition section_start :: "string \<Rightarrow> sec_state" where
  "section_start g = \<lparr>oldName = JStr '''', nameVersions = [], s_title = JStr g, s_description = JStr '''',
     s_articles = [], s_api = []\<rparr>"

definition render_section :: "(tpl_fields \<Rightarrow> string) \<Rightarrow> jsval \<Rightarrow> jsval list \<Rightarrow> string \<Rightarrow> sec_state" where
  "render_section templateArticle p api g = fold (article_step templateArticle p api g) api (section_start g)"

text \<open>A section as its template is given it.\<close>

record sec_fields =
  sf_group :: string
  sf_title :: jsval
  sf_description :: jsval
  sf_articles :: "(string \<times> jsval \<times> jsval) list"

definition section_fields :: "string \<Rightarrow> sec_state \<Rightarrow> sec_fields" where
  "section_fields g s = \<lparr>sf_group = g, sf_title = s_title s, sf_description = s_description s,
     sf_articles = map (\<lambda>(fs, html). (html, attr (f_article fs) ''group'', attr (f_article fs) ''name'')) (s_articles s)\<rparr>"

record site =
  articleVersions :: "(string \<times> name_versions) list"
  site_articles :: "tpl_fields list"
  content :: string
  site_api :: "jsval list"

definition site_step ::
  "(tpl_fields \<Rightarrow> string) \<Rightarrow> (sec_fields \<Rightarrow> string) \<Rightarrow> jsval \<Rightarrow> string \<Rightarrow> site \<Rightarrow> site" where
  "site_step templateArticle templateSections p g st =
     (let s = render_section templateArticle p (site_api st) g
      in \<lparr>articleVersions = AList.update g (nameVersions s) (articleVersions st),
          site_articles = site_articles st @ map fst (s_articles s),
          content = content st @ templateSections (section_fields g s),
          site_api = s_api s\<rparr>)"

definition render_sections ::
  "(tpl_fields \<Rightarrow> string) \<Rightarrow> (sec_fields \<Rightarrow> string) \<Rightarrow> jsval \<Rightarrow> jsval list \<Rightarrow> string list \<Rightarrow> site" where
  "render_sections templateArticle templateSections p api groups =
     fold (site_step templateArticle templateSections p) groups
       \<lparr>articleVersions = [], site_articles = [], content = '''', site_api = api\<rparr>"

section \<open>Articles and navigation agree\<close>

lemma attr_set_attr: "j \<noteq> k \<Longrightarrow> attr (set_attr e k v) j = attr e j"
  by (cases e) (auto simp: attr_def set_attr_def)

lemma attr_prefix_url: "j \<noteq> ''url'' \<Longrightarrow> attr (prefix_url p e) j = attr e j"
  by (simp add: prefix_url_def attr_set_attr)

lemma entry_id_prefix_url [simp]: "entry_id (prefix_url p e) = entry_id e"
  by (simp add: entry_id_def attr_prefix_url)

definition article_key :: "tpl_fields \<Rightarrow> (jsval \<times> jsval \<times> jsval) \<times> bool" where
  "article_key f = (entry_id (f_article f), f_hidden f)"

definition item_key :: "nav_item \<Rightarrow> (jsval \<times> jsval \<times> jsval) \<times> bool" where
  "item_key i = (item_id i, n_hidden i)"

lemma settings_key [simp]: "article_key (addArticleSettings p f e) = article_key f"
  by (simp add: article_key_def addArticleSettings_def Let_def)

text \<open>The navigation items of a group depend on the identities of the entries only.\<close>

lemma submenu_cong:
  "map entry_id es = map entry_id es' \<Longrightarrow> map item_key (submenu g old es) = map item_key (submenu g old es')"
proof (induction es arbitrary: es' old)
  case (Cons e es)
  then obtain e' es2 where "es' = e' # es2" "entry_id e = entry_id e'" "map entry_id es = map entry_id es2" by auto
  then have e: "attr e ''group'' = attr e' ''group''" "attr e ''name'' = attr e' ''name''" "attr e ''version'' = attr e' ''version''"
    by (simp_all add: entry_id_def)
  have "item_key (entry_item g h e) = item_key (entry_item g h e')" for h
    by (simp add: item_key_def item_id_def entry_item_def e)
  then show ?case using \<open>es' = e' # es2\<close> Cons.IH[OF \<open>map entry_id es = map entry_id es2\<close>] by (simp add: e)
qed simp

lemma section_articles:
  "map (article_key \<circ> fst) (s_articles (fold (article_step t p api g) es s))
     = map (article_key \<circ> fst) (s_articles s) @ map item_key (submenu g (oldName s) es)"
proof (induction es arbitrary: s)
  case (Cons e es)
  let ?s = "article_step t p api g e s"
  have "fold (article_step t p api g) (e # es) s = fold (article_step t p api g) es ?s" by simp
  moreover have "map (article_key \<circ> fst) (s_articles ?s) @ map item_key (submenu g (oldName ?s) es)
      = map (article_key \<circ> fst) (s_articles s) @ map item_key (submenu g (oldName s) (e # es))"
    by (auto simp: article_step_def Let_def) (auto simp: article_key_def item_key_def item_id_def entry_item_def entry_id_def attr_prefix_url)
  ultimately show ?case by (simp only: Cons.IH)
qed simp

lemma section_api: "map entry_id (s_api (fold (article_step t p api g) es s)) = map entry_id (s_api s) @ map entry_id es"
  by (induction es arbitrary: s) (simp_all add: article_step_def Let_def)

lemma sections_articles:
  "map article_key (site_articles (fold (site_step t ts p) gs st))
     = map article_key (site_articles st) @ map item_key (concat (map (\<lambda>g. submenu g (JStr '''') (site_api st)) gs))"
proof (induction gs arbitrary: st)
  case (Cons g gs)
  let ?st = "site_step t ts p g st"
  have api: "map entry_id (site_api ?st) = map entry_id (site_api st)"
    using section_api[of t p "site_api st" g "site_api st" "section_start g"]
    by (simp add: site_step_def render_section_def Let_def section_start_def)
  have "map item_key (concat (map (\<lambda>g. submenu g (JStr '''') (site_api ?st)) gs))
      = map item_key (concat (map (\<lambda>g. submenu g (JStr '''') (site_api st)) gs))"
    using submenu_cong[OF api] by (simp add: map_concat comp_def)
  moreover have "map article_key (site_articles ?st)
      = map article_key (site_articles st) @ map item_key (submenu g (JStr '''') (site_api st))"
    using section_articles[of t p "site_api st" g "site_api st" "section_start g"]
    by (simp add: site_step_def render_section_def Let_def section_start_def)
  ultimately show ?case using Cons.IH[of ?st] by simp
qed simp

text \<open>The versions the drop-down of an article offers: those of its group and name.\<close>

definition versions_ok :: "jsval list \<Rightarrow> string \<Rightarrow> name_versions \<Rightarrow> bool" where
  "versions_ok api g vs = (\<forall>(k, v) \<in> set vs. set v = set (versions_of g (JStr k) api))"

lemma add_versions_ok:
  assumes "versions_ok api g vs" "attr e ''name'' = JStr k" "distinct (map fst vs)"
  shows "versions_ok api g (add_versions g e api vs) \<and> distinct (map fst (add_versions g e api vs))"
proof -
  have k: "name_key e = k" using assms(2) by (simp add: name_key_def)
  have old: "set v = set (versions_of g (JStr j) api)" if "map_of vs j = Some v" for j v
    using map_of_SomeD[OF that] assms(1) by (auto simp: versions_ok_def)
  let ?new = "versions_of g (JStr k) api" and ?old = "case map_of vs k of None \<Rightarrow> [] | Some ys \<Rightarrow> ys"
  have "set (?old @ ?new) = set ?new" using old[of k] by (auto split: option.splits)
  moreover have d: "distinct (map fst (AList.update k (?old @ ?new) vs))" using assms(3) by (rule distinct_update)
  moreover have "map_of (AList.update k (?old @ ?new) vs) = (map_of vs)(k \<mapsto> ?old @ ?new)" by simp
  ultimately have "versions_ok api g (AList.update k (?old @ ?new) vs)"
    unfolding versions_ok_def using old by (auto simp flip: map_of_eq_Some_iff split: if_splits)
  with d assms show ?thesis by (simp add: add_versions_def k Let_def)
qed

lemma add_versions_lookup:
  assumes "e \<in> set api" "attr e ''group'' = JStr g"
  shows "map_of (add_versions g e api vs) (name_key e) \<noteq> None"
proof -
  have "e \<in> set (filter (same_article g (attr e ''name'')) api)" using assms by (simp add: same_article_def)
  then have "filter (same_article g (attr e ''name'')) api \<noteq> []" by (metis empty_iff empty_set)
  then have "versions_of g (attr e ''name'') api \<noteq> []" by (simp add: versions_of_def)
  then show ?thesis by (simp add: add_versions_def Let_def)
qed

definition section_ok :: "jsval list \<Rightarrow> string \<Rightarrow> sec_state \<Rightarrow> bool" where
  "section_ok api g s = (versions_ok api g (nameVersions s) \<and> distinct (map fst (nameVersions s))
     \<and> (\<forall>k. oldName s = JStr k \<longrightarrow> k = [] \<or> map_of (nameVersions s) k \<noteq> None)
     \<and> list_all (\<lambda>(f, h). \<exists>v. f_versions f = Some v \<and> set v = set (versions_of g (attr (f_article f) ''name'') api)) (s_articles s))"

lemma settings_keep [simp]: "f_versions (addArticleSettings p f e) = f_versions f" "f_article (addArticleSettings p f e) = f_article f"
  by (simp_all add: addArticleSettings_def Let_def)

definition name_ok :: "jsval \<Rightarrow> bool" where
  "name_ok e = (attr e ''name'' = JStr (name_key e) \<and> name_key e \<noteq> [])"

lemma article_step_ok:
  assumes "section_ok api g s" "name_ok e" "e \<in> set api"
  shows "section_ok api g (article_step t p api g e s)"
proof (cases "attr e ''group'' = JStr g")
  case True
  let ?k = "name_key e"
  let ?vs = "if oldName s \<noteq> attr e ''name'' then add_versions g e api (nameVersions s) else nameVersions s"
  have n: "attr e ''name'' = JStr ?k" "?k \<noteq> []" using assms(2) by (simp_all add: name_ok_def)
  have vs: "versions_ok api g ?vs" "distinct (map fst ?vs)"
    using assms(1) add_versions_ok[OF _ n(1), of api g "nameVersions s"] by (auto simp: section_ok_def)
  have "map_of ?vs ?k \<noteq> None"
    using add_versions_lookup[OF assms(3) True] assms(1) n by (auto simp: section_ok_def)
  then obtain v where v: "map_of ?vs ?k = Some v" by blast
  then have "set v = set (versions_of g (attr e ''name'') api)"
    using vs(1) map_of_SomeD[OF v] n(1) by (auto simp: versions_ok_def)
  with v vs n assms(1) True show ?thesis
    by (auto simp: section_ok_def article_step_def Let_def attr_prefix_url)
qed (use assms in \<open>auto simp: section_ok_def article_step_def dest: map_of_SomeD\<close>)

lemma render_section_ok:
  assumes "list_all name_ok api"
  shows "section_ok api g (render_section t p api g)"
proof -
  have "section_ok api g (fold (article_step t p api g) es s)" if "section_ok api g s" "set es \<subseteq> set api" for es s
    using that by (induction es arbitrary: s) (use assms article_step_ok in \<open>auto simp: list_all_iff\<close>)
  moreover have "section_ok api g (section_start g)"
    by (simp add: section_ok_def section_start_def versions_ok_def)
  ultimately show ?thesis by (simp add: render_section_def)
qed

lemma name_ok_ids: "map entry_id es = map entry_id es' \<Longrightarrow> list_all name_ok es \<longleftrightarrow> list_all name_ok es'"
proof (induction es arbitrary: es')
  case (Cons e es)
  then obtain e' es2 where *: "es' = e' # es2" "entry_id e = entry_id e'" "map entry_id es = map entry_id es2" by auto
  from *(1,2) Cons.IH[OF *(3)] show ?case by (auto simp: entry_id_def name_ok_def name_key_def)
qed simp

lemma versions_of_ids: "map entry_id es = map entry_id es' \<Longrightarrow> versions_of g n es = versions_of g n es'"
proof (induction es arbitrary: es')
  case (Cons e es)
  then obtain e' es2 where *: "es' = e' # es2" "entry_id e = entry_id e'" "map entry_id es = map entry_id es2" by auto
  from *(1,2) Cons.IH[OF *(3)] show ?case by (auto simp: entry_id_def versions_of_def same_article_def)
qed simp

definition offers_versions :: "jsval list \<Rightarrow> tpl_fields \<Rightarrow> bool" where
  "offers_versions api f = (case (f_versions f, attr (f_article f) ''group'') of
     (Some v, JStr g) \<Rightarrow> set v = set (versions_of g (attr (f_article f) ''name'') api) | _ \<Rightarrow> False)"

lemma section_groups: "list_all (\<lambda>(f, h). attr (f_article f) ''group'' = JStr g) (s_articles s) \<Longrightarrow>
   list_all (\<lambda>(f, h). attr (f_article f) ''group'' = JStr g) (s_articles (fold (article_step t p api g) es s))"
  by (induction es arbitrary: s) (simp_all add: article_step_def Let_def attr_prefix_url)

lemma sections_versions:
  assumes "list_all name_ok api" "map entry_id (site_api st) = map entry_id api" "list_all (offers_versions api) (site_articles st)"
  shows "list_all (offers_versions api) (site_articles (fold (site_step t ts p) gs st))"
  using assms(2,3)
proof (induction gs arbitrary: st)
  case (Cons g gs)
  let ?s = "render_section t p (site_api st) g"
  have "section_ok (site_api st) g ?s"
    using assms(1) name_ok_ids[OF Cons.prems(1)] by (simp add: render_section_ok)
  moreover have "list_all (\<lambda>(f, h). attr (f_article f) ''group'' = JStr g) (s_articles ?s)"
    unfolding render_section_def by (rule section_groups) (simp add: section_start_def)
  ultimately have "list_all (offers_versions api) (map fst (s_articles ?s))"
    by (fastforce simp: list_all_iff section_ok_def offers_versions_def versions_of_ids[OF Cons.prems(1)])
  moreover have "map entry_id (s_api ?s) = map entry_id api"
    using Cons.prems(1) by (simp add: render_section_def section_api section_start_def)
  ultimately show ?case using Cons by (simp add: site_step_def Let_def)
qed simp

text \<open>
  C32. The articles and the navigation agree: they are built by two loops over the same data, and for
  every project, list of entries and list of groups the articles are, one for one and in the same
  order, the entries of the navigation list, and hidden exactly when their item is.  The drop-down
  of every article offers exactly the versions of its group and name.
\<close>

theorem articles_match_navigation:
  assumes "list_all name_ok api"
  shows "map article_key (site_articles (render_sections t ts p api gs))
      = map item_key (filter (\<lambda>i. \<not> n_isHeader i) (nav_list general p api gs))
    \<and> list_all (offers_versions api) (site_articles (render_sections t ts p api gs))"
  using sections_articles[of t ts p gs] sections_versions[OF assms, of _ t ts p gs]
  by (simp add: render_sections_def nav_entries)

theorem articles_match_navigation_witness:
  "map article_key (site_articles (render_sections (\<lambda>f. f_id f) (\<lambda>s. sf_group s) (JObj [])
      [demo_entry ''a'' ''x'' ''2.0.0'', demo_entry ''a'' ''x'' ''1.0.0''] [''a'']))
    = [((JStr ''a'', JStr ''x'', JStr ''2.0.0''), False), ((JStr ''a'', JStr ''x'', JStr ''1.0.0''), True)]"
proof -
  let ?api = "[demo_entry ''a'' ''x'' ''2.0.0'', demo_entry ''a'' ''x'' ''1.0.0'']"
  have "list_all name_ok ?api" by (simp add: name_ok_def name_key_def demo_entry_def attr_def)
  from articles_match_navigation[OF this] show ?thesis
    by (simp add: nav_entries entry_item_def item_key_def item_id_def demo_entry_def attr_def)
qed

end
