(* ===== verification/ApiDoc_Versions.thy ===== *)
theory ApiDoc_Versions
  imports ApiDoc_Articles JS_Regex
begin

text \<open>
  The versions of the API documentation page, \<^verbatim>\<open>broker/BrokerServer/public/apidoc/main.js\<close> from the page
  on: choosing the main version, comparing an article with another version, resetting it, and
  the marks of the navigation.

  The document is what these functions read and write of it: the articles in the order of the page
  with the attributes that the templates of \<^verbatim>\<open>index.html\<close> give them, the items of the side navigation,
  the sections that carry the class \<open>hide\<close>, and the chosen main version.  An article is visible
  for jQuery when neither it nor its section is hidden.  The attributes of groups, names and
  versions are strings that jQuery does not convert to numbers.  Scrolling, tabs, pop-ups and the
  font loader are not modelled.
\<close>

section \<open>The document\<close>

record art_node =
  a_group :: string
  a_name :: string
  a_version :: string
  a_compare :: "string option"
  a_hide :: bool
  a_strong :: string

record nav_node =
  v_group :: string
  v_name :: "string option"
  v_version :: "string option"
  v_header :: bool
  v_fixed :: bool
  v_hide :: bool
  v_new :: bool
  v_modified :: bool

record page =
  main_version :: string
  arts :: "art_node list"
  navs :: "nav_node list"
  hidden_sections :: "string list"

text \<open>What the templates print: a missing value is the empty string.\<close>

definition html_str :: "jsval \<Rightarrow> string" where
  "html_str v = (if is_nullish v then '''' else to_string_val v)"

definition article_node :: "tpl_fields \<Rightarrow> art_node" where
  "article_node f = (let e = f_article f in \<lparr>a_group = html_str (attr e ''group''), a_name = html_str (attr e ''name''),
     a_version = html_str (attr e ''version''), a_compare = None, a_hide = f_hidden f, a_strong = html_str (attr e ''version'')\<rparr>)"

definition compare_node :: "tpl_fields \<Rightarrow> art_node" where
  "compare_node f = (let e = f_article f; c = html_str (attr (f_compare f) ''version'') in
     \<lparr>a_group = html_str (attr e ''group''), a_name = html_str (attr e ''name''),
     a_version = html_str (attr e ''version''), a_compare = Some c, a_hide = f_hidden f, a_strong = c\<rparr>)"

text \<open>The side navigation leaves out the items without a title.\<close>

definition sidenav :: "nav_item list \<Rightarrow> nav_node list" where
  "sidenav items = map (\<lambda>i. \<lparr>v_group = n_group i, v_name = (if n_isHeader i then None else Some (html_str (n_name i))),
       v_version = (if n_isHeader i then None else Some (html_str (n_version i))), v_header = n_isHeader i,
       v_fixed = n_isHeader i \<and> n_isFixed i, v_hide = \<not> n_isHeader i \<and> n_hidden i, v_new = False, v_modified = False\<rparr>)
     (filter (\<lambda>i. truthy (n_title i)) items)"

definition initial_page :: "jsval \<Rightarrow> site \<Rightarrow> nav_item list \<Rightarrow> page" where
  "initial_page p st items = \<lparr>main_version = html_str (attr p ''version''), arts = map article_node (site_articles st),
     navs = sidenav items, hidden_sections = []\<rparr>"

definition visible :: "page \<Rightarrow> art_node \<Rightarrow> bool" where
  "visible pg a = (\<not> a_hide a \<and> a_group a \<notin> set (hidden_sections pg))"

section \<open>Marks of the navigation\<close>

definition same_item :: "nav_node \<Rightarrow> nav_node \<Rightarrow> bool" where
  "same_item x y = (v_group x = v_group y \<and> v_name x = v_name y)"

fun mark_items :: "bool \<Rightarrow> string \<Rightarrow> nav_node list \<Rightarrow> nav_node list" where
  "mark_items withCompare version [] = []"
| "mark_items withCompare version (x # xs) =
     x\<lparr>v_new := withCompare \<and> v_version x = Some version \<and> \<not> list_ex (same_item x) xs\<rparr> # mark_items withCompare version xs"

text \<open>The part of \<open>initDynamic\<close> that changes the navigation.\<close>

definition initDynamic :: "jsval \<Rightarrow> page \<Rightarrow> page" where
  "initDynamic p pg = pg\<lparr>navs := mark_items (truthy (attr (attr p ''template'') ''withCompare'')) (main_version pg) (navs pg)\<rparr>"

section \<open>Choosing the main version\<close>

definition is_article :: "string \<Rightarrow> string \<Rightarrow> art_node \<Rightarrow> bool" where
  "is_article g n a = (a_group a = g \<and> a_name a = n)"

definition is_item :: "string \<Rightarrow> string \<Rightarrow> string \<Rightarrow> nav_node \<Rightarrow> bool" where
  "is_item g n v x = (v_group x = g \<and> v_name x = Some n \<and> v_version x = Some v)"

definition hide_all :: "page \<Rightarrow> page" where
  "hide_all pg = pg\<lparr>arts := map (\<lambda>a. a\<lparr>a_hide := True\<rparr>) (arts pg),
     navs := map (\<lambda>x. if v_fixed x then x else x\<lparr>v_hide := True\<rparr>) (navs pg)\<rparr>"

definition enable_article :: "string \<Rightarrow> string \<Rightarrow> string \<Rightarrow> page \<Rightarrow> page" where
  "enable_article g n v pg = pg\<lparr>
     arts := map (\<lambda>a. if is_article g n a \<and> a_version a = v then a\<lparr>a_hide := False\<rparr> else a) (arts pg),
     navs := map (\<lambda>x. if is_item g n v x \<or> v_header x \<and> v_group x = g then x\<lparr>v_hide := False\<rparr> else x) (navs pg)\<rparr>"

definition show_step :: "string \<Rightarrow> art_node \<Rightarrow> page \<Rightarrow> page" where
  "show_step selectedVersion a pg =
     (if a_version a \<le> selectedVersion \<and> \<not> list_ex (\<lambda>b. is_article (a_group a) (a_name a) b \<and> visible pg b) (arts pg)
      then enable_article (a_group a) (a_name a) (a_version a) pg else pg)"

definition section_step :: "art_node \<Rightarrow> page \<Rightarrow> page" where
  "section_step a pg =
     (let pg' = pg\<lparr>hidden_sections := removeAll (a_group a) (hidden_sections pg)\<rparr>
      in if list_ex (\<lambda>b. a_group b = a_group a \<and> visible pg' b) (arts pg') then pg'
         else pg'\<lparr>hidden_sections := a_group a # hidden_sections pg'\<rparr>)"

definition change_version :: "jsval \<Rightarrow> string \<Rightarrow> page \<Rightarrow> page" where
  "change_version p selectedVersion pg =
     (let pg1 = hide_all (pg\<lparr>main_version := selectedVersion\<rparr>);
          pg2 = fold (show_step selectedVersion) (arts pg1) pg1;
          pg3 = fold section_step (arts pg2) pg2
      in initDynamic p pg3)"

section \<open>Comparing versions of an article\<close>

text \<open>What the page keeps of its data: the entries by group and name and the versions of every article.\<close>

record docs =
  d_project :: jsval
  d_entries :: "(string \<times> (string \<times> jsval list) list) list"
  d_versions :: "(string \<times> name_versions) list"

definition lookup2 :: "('k \<times> ('j \<times> 'v) list) list \<Rightarrow> 'k \<Rightarrow> 'j \<Rightarrow> 'v option" where
  "lookup2 m g n = Option.bind (map_of m g) (\<lambda>m'. map_of m' n)"

text \<open>The last entry of a version, or an empty object.\<close>

definition find_entry :: "docs \<Rightarrow> string \<Rightarrow> string \<Rightarrow> string \<Rightarrow> jsval" where
  "find_entry d g n version = fold (\<lambda>e found. if attr e ''version'' = JStr version then e else found)
     (case lookup2 (d_entries d) g n of None \<Rightarrow> [] | Some es \<Rightarrow> es) (JObj [])"

definition renderArticle :: "docs \<Rightarrow> string \<Rightarrow> string \<Rightarrow> string \<Rightarrow> tpl_fields" where
  "renderArticle d g n version =
     (let e = find_entry d g n version
      in addArticleSettings (d_project d) \<lparr>f_article = e, f_compare = JUndef, f_hidden = False,
           f_versions = lookup2 (d_versions d) g n, f_id = '''', f_flags = [], f_template = JUndef\<rparr> e)"

definition resetArticle :: "docs \<Rightarrow> string \<Rightarrow> string \<Rightarrow> string \<Rightarrow> page \<Rightarrow> page" where
  "resetArticle d g n version pg = pg\<lparr>
     arts := map (\<lambda>a. if is_article g n a \<and> visible pg a then article_node (renderArticle d g n version) else a) (arts pg),
     navs := map (\<lambda>x. if is_item g n version x then x\<lparr>v_modified := False\<rparr> else x) (navs pg)\<rparr>"

text \<open>A flag that the compared entry sets only when the article has not set it to true.\<close>

definition set_compare_flag :: "string \<Rightarrow> string \<Rightarrow> jsval \<Rightarrow> (string \<times> bool) list \<Rightarrow> (string \<times> bool) list" where
  "set_compare_flag part flag e fl = (if map_of fl flag \<noteq> Some True then set_flag part flag e fl else fl)"

definition compare_flags :: "jsval \<Rightarrow> jsval \<Rightarrow> (string \<times> bool) list" where
  "compare_flags source compare =
     (let s1 = set_flag ''parameter'' ''_hasTypeInParameterFields'' source [];
          s2 = set_flag ''error'' ''_hasTypeInErrorFields'' source s1;
          s3 = set_flag ''success'' ''_hasTypeInSuccessFields'' source s2;
          s4 = set_flag ''info'' ''_hasTypeInInfoFields'' source s3;
          c1 = set_compare_flag ''parameter'' ''_hasTypeInParameterFields'' compare s4;
          c2 = set_compare_flag ''error'' ''_hasTypeInErrorFields'' compare c1;
          c3 = set_compare_flag ''success'' ''_hasTypeInSuccessFields'' compare c2
      in set_compare_flag ''info'' ''_hasTypeInInfoFields'' compare c3)"

definition compare_fields :: "docs \<Rightarrow> string \<Rightarrow> string \<Rightarrow> string \<Rightarrow> string \<Rightarrow> tpl_fields" where
  "compare_fields d g n version selectedVersion =
     (let source = find_entry d g n version; compare = find_entry d g n selectedVersion
      in \<lparr>f_article = set_attr source ''id'' (JStr (article_id source)), f_compare = set_attr compare ''id'' (JStr (article_id compare)),
          f_hidden = False, f_versions = lookup2 (d_versions d) g n, f_id = '''', f_flags = compare_flags source compare,
          f_template = JUndef\<rparr>)"

text \<open>The highest version of an article, as the list of its versions has it first.\<close>

definition first_version :: "docs \<Rightarrow> string \<Rightarrow> string \<Rightarrow> jsval" where
  "first_version d g n = (case lookup2 (d_versions d) g n of Some (v # vs) \<Rightarrow> v | _ \<Rightarrow> JUndef)"

text \<open>A click on a version in the drop-down of the article at a position.\<close>

definition changeVersionCompareTo :: "docs \<Rightarrow> nat \<Rightarrow> string \<Rightarrow> page \<Rightarrow> page" where
  "changeVersionCompareTo d k selectedVersion pg =
     (let root = arts pg ! k; currentVersion = a_strong root;
          pg1 = pg\<lparr>arts := (arts pg)[k := root\<lparr>a_strong := selectedVersion\<rparr>]\<rparr>;
          g = a_group root; n = a_name root; version = a_version root; compareVersion = a_compare root;
          compared = (compareVersion \<noteq> None \<and> compareVersion \<noteq> Some '''')
      in if compareVersion = Some selectedVersion then pg1
         else if \<not> compared \<and> version = selectedVersion then pg1
         else if compared \<and> first_version d g n = JStr selectedVersion \<or> version = selectedVersion
         then initDynamic (d_project d) (resetArticle d g n version pg1)
         else initDynamic (d_project d) (pg1\<lparr>
            arts := (arts pg1)[k := compare_node (compare_fields d g n version selectedVersion)],
            navs := map (\<lambda>x. if is_item g n currentVersion x then x\<lparr>v_modified := True\<rparr> else x) (navs pg1)\<rparr>))"

text \<open>Every visible article that has a drop-down is compared with the first of its versions that is
  below its own.\<close>

definition predecessor :: "docs \<Rightarrow> art_node \<Rightarrow> string option" where
  "predecessor d a = find (\<lambda>v. v < a_version a)
     (map html_str (case lookup2 (d_versions d) (a_group a) (a_name a) of None \<Rightarrow> [] | Some vs \<Rightarrow> vs))"

definition has_versions :: "docs \<Rightarrow> art_node \<Rightarrow> bool" where
  "has_versions d a = (a_compare a \<noteq> None \<or> truthy (attr (attr (d_project d) ''template'') ''withCompare''))"

definition changeAllVersionCompareTo :: "docs \<Rightarrow> page \<Rightarrow> page" where
  "changeAllVersionCompareTo d pg = initDynamic (d_project d)
     (fold (\<lambda>k pg'. case predecessor d (arts pg' ! k) of Some v \<Rightarrow> changeVersionCompareTo d k v pg' | None \<Rightarrow> pg')
       (filter (\<lambda>k. visible pg (arts pg ! k) \<and> has_versions d (arts pg ! k)) [0..<length (arts pg)]) pg)"

section \<open>The parameter of the page\<close>

text \<open>\<open>$.urlParam\<close>; the character classes hold the letters of \<open>&amp;\<close>.\<close>

definition url_param_re :: "string \<Rightarrow> re" where
  "url_param_re name = Cat (chr_class ''?&amp;'') (Cat (lit name) (Cat (lit ''='') (Grp 1 (Star True (chr_not ''&amp;#'')))))"

definition urlParam :: "string \<Rightarrow> string \<Rightarrow> string option" where
  "urlParam href name = (case Option.bind (re_exec (url_param_re name) href) (\<lambda>cs. cs 1) of
     Some v \<Rightarrow> if v = [] then None else Some v | None \<Rightarrow> None)"

text \<open>The link that the parameter clicks is on the page only with comparison.\<close>

definition page_load :: "docs \<Rightarrow> string \<Rightarrow> page \<Rightarrow> page" where
  "page_load d href pg = (let pg1 = initDynamic (d_project d) pg
     in if urlParam href ''compare'' \<noteq> None \<and> truthy (attr (attr (d_project d) ''template'') ''withCompare'')
        then changeAllVersionCompareTo d pg1 else pg1)"

section \<open>Which articles a main version shows\<close>

definition art_key :: "art_node \<Rightarrow> string \<times> string \<times> string" where
  "art_key a = (a_group a, a_name a, a_version a)"

definition hide_except :: "(string \<times> string \<times> string) set \<Rightarrow> art_node \<Rightarrow> art_node" where
  "hide_except S a = a\<lparr>a_hide := art_key a \<notin> S\<rparr>"

lemma hide_except_simps [simp]: "a_group (hide_except S a) = a_group a" "a_name (hide_except S a) = a_name a"
  "a_version (hide_except S a) = a_version a" "a_hide (hide_except S a) = (art_key a \<notin> S)" "art_key (hide_except S a) = art_key a"
  by (simp_all add: hide_except_def art_key_def)

text \<open>The keys that the loop has enabled after a list of articles.\<close>

definition enabled_step :: "string \<Rightarrow> string list \<Rightarrow> art_node \<Rightarrow> (string \<times> string \<times> string) set \<Rightarrow> (string \<times> string \<times> string) set" where
  "enabled_step sel H a S = (if a_version a \<le> sel \<and> (a_group a \<in> set H \<or> \<not> (\<exists>v. (a_group a, a_name a, v) \<in> S))
     then insert (art_key a) S else S)"

lemma show_step_keys:
  assumes "arts pg = map (hide_except S) as" "S \<subseteq> art_key ` set as"
  shows "arts (show_step sel a pg) = map (hide_except (enabled_step sel (hidden_sections pg) a S)) as"
    "hidden_sections (show_step sel a pg) = hidden_sections pg"
proof -
  have "list_ex (\<lambda>b. is_article (a_group a) (a_name a) b \<and> visible pg b) (arts pg)
      \<longleftrightarrow> a_group a \<notin> set (hidden_sections pg) \<and> (\<exists>v. (a_group a, a_name a, v) \<in> S)"
    (is "?l \<longleftrightarrow> ?r")
  proof
    assume ?l
    then obtain b where "b \<in> set as" "is_article (a_group a) (a_name a) (hide_except S b)" "visible pg (hide_except S b)"
      by (auto simp: assms(1) list_ex_iff)
    then show ?r by (auto simp: is_article_def visible_def art_key_def)
  next
    assume ?r
    then obtain v where v: "(a_group a, a_name a, v) \<in> S" "a_group a \<notin> set (hidden_sections pg)" by blast
    with assms(2) obtain b where "b \<in> set as" "art_key b = (a_group a, a_name a, v)" by (metis imageE subsetD)
    with v show ?l by (auto simp: assms(1) list_ex_iff is_article_def visible_def art_key_def intro!: bexI[of _ b])
  qed
  then show "arts (show_step sel a pg) = map (hide_except (enabled_step sel (hidden_sections pg) a S)) as"
    unfolding show_step_def
    by (auto simp: enable_article_def enabled_step_def assms(1) is_article_def hide_except_def art_key_def)
  show "hidden_sections (show_step sel a pg) = hidden_sections pg"
    by (simp add: show_step_def enable_article_def)
qed

definition enabled_keys :: "string \<Rightarrow> string list \<Rightarrow> art_node list \<Rightarrow> (string \<times> string \<times> string) set" where
  "enabled_keys sel H xs = fold (enabled_step sel H) xs {}"

lemma enabled_subset: "enabled_keys sel H xs \<subseteq> art_key ` set xs"
  by (induction xs rule: rev_induct) (auto simp: enabled_keys_def enabled_step_def)

lemma show_loop:
  assumes "arts pg = map (hide_except {}) as" "set xs \<subseteq> set as"
  shows "arts (fold (show_step sel) xs pg) = map (hide_except (enabled_keys sel (hidden_sections pg) xs)) as
    \<and> hidden_sections (fold (show_step sel) xs pg) = hidden_sections pg"
  using assms(2)
proof (induction xs rule: rev_induct)
  case Nil
  then show ?case using assms(1) by (simp add: enabled_keys_def)
next
  case (snoc a xs)
  let ?p = "fold (show_step sel) xs pg" and ?S = "enabled_keys sel (hidden_sections pg) xs"
  from snoc have p: "arts ?p = map (hide_except ?S) as" "hidden_sections ?p = hidden_sections pg" by auto
  have "?S \<subseteq> art_key ` set as" using enabled_subset[of sel "hidden_sections pg" xs] snoc.prems by auto
  from show_step_keys[OF p(1) this] show ?case by (simp add: p(2) enabled_keys_def)
qed

text \<open>The first article of a name whose version is not above the chosen one.\<close>

definition first_fit :: "string \<Rightarrow> art_node list \<Rightarrow> string \<Rightarrow> string \<Rightarrow> string option" where
  "first_fit sel xs g n = map_option a_version (find (\<lambda>a. is_article g n a \<and> a_version a \<le> sel) xs)"

lemma first_fit_snoc: "first_fit sel (xs @ [a]) g n = (case first_fit sel xs g n of Some v \<Rightarrow> Some v
   | None \<Rightarrow> if is_article g n a \<and> a_version a \<le> sel then Some (a_version a) else None)"
  by (induction xs) (auto simp: first_fit_def)

lemma enabled_iff:
  "(g, n, v) \<in> enabled_keys sel H xs \<longleftrightarrow>
     (if g \<in> set H then v \<le> sel \<and> (g, n, v) \<in> art_key ` set xs else first_fit sel xs g n = Some v)"
proof (induction xs arbitrary: v rule: rev_induct)
  case Nil
  then show ?case by (simp add: enabled_keys_def first_fit_def)
next
  case (snoc a xs)
  have "enabled_keys sel H (xs @ [a]) = enabled_step sel H a (enabled_keys sel H xs)" by (simp add: enabled_keys_def)
  moreover have "(\<exists>v. (g, n, v) \<in> enabled_keys sel H xs) \<longleftrightarrow> first_fit sel xs g n \<noteq> None" if "g \<notin> set H"
    using snoc that by auto
  ultimately show ?case
    using snoc by (cases "is_article g n a"; cases "g \<in> set H")
      (auto simp: enabled_step_def first_fit_snoc is_article_def art_key_def split: option.splits)
qed

lemma section_loop:
  "arts (fold section_step xs pg) = arts pg \<and> (g \<in> set (hidden_sections (fold section_step xs pg)) \<longleftrightarrow>
     (if g \<in> a_group ` set xs then \<forall>b \<in> set (arts pg). a_group b = g \<longrightarrow> a_hide b else g \<in> set (hidden_sections pg)))"
proof (induction xs arbitrary: g rule: rev_induct)
  case (snoc a xs)
  let ?p = "fold section_step xs pg"
  have arts: "arts ?p = arts pg" using snoc by simp
  have "list_ex (\<lambda>b. a_group b = a_group a \<and> visible (?p\<lparr>hidden_sections := removeAll (a_group a) (hidden_sections ?p)\<rparr>) b) (arts ?p)
      \<longleftrightarrow> \<not> (\<forall>b \<in> set (arts pg). a_group b = a_group a \<longrightarrow> a_hide b)"
    by (auto simp: list_ex_iff visible_def arts)
  then have "hidden_sections (section_step a ?p) = (if \<forall>b \<in> set (arts pg). a_group b = a_group a \<longrightarrow> a_hide b
       then [a_group a] else []) @ removeAll (a_group a) (hidden_sections ?p)" "arts (section_step a ?p) = arts pg"
    by (simp_all add: section_step_def Let_def arts)
  then show ?case using snoc by (auto split: if_splits)
qed simp

lemma arts_initDynamic [simp]: "arts (initDynamic p pg) = arts pg" "hidden_sections (initDynamic p pg) = hidden_sections pg"
  by (simp_all add: initDynamic_def)

lemma first_fit_keys: "map art_key xs = map art_key ys \<Longrightarrow> first_fit sel xs g n = first_fit sel ys g n"
proof (induction xs arbitrary: ys)
  case (Cons x xs)
  then obtain y ys2 where *: "ys = y # ys2" "art_key x = art_key y" "map art_key xs = map art_key ys2" by auto
  from *(1,2) Cons.IH[OF *(3)] show ?case by (auto simp: first_fit_def art_key_def is_article_def)
qed (simp add: first_fit_def)

lemma change_version_arts:
  "arts (change_version p sel pg) = map (hide_except (enabled_keys sel (hidden_sections pg) (map (hide_except {}) (arts pg)))) (arts pg)
   \<and> (g \<in> set (hidden_sections (change_version p sel pg)) \<longleftrightarrow>
      (if g \<in> a_group ` set (arts pg) then \<forall>b \<in> set (arts (change_version p sel pg)). a_group b = g \<longrightarrow> a_hide b
       else g \<in> set (hidden_sections pg)))"
proof -
  let ?p1 = "hide_all (pg\<lparr>main_version := sel\<rparr>)" and ?as = "map (hide_except {}) (arts pg)"
  let ?p2 = "fold (show_step sel) (arts ?p1) ?p1"
  let ?S = "enabled_keys sel (hidden_sections pg) ?as"
  have a1: "arts ?p1 = ?as" "hidden_sections ?p1 = hidden_sections pg" by (simp_all add: hide_all_def hide_except_def)
  have "arts ?p1 = map (hide_except {}) ?as" unfolding a1 by (simp add: hide_except_def)
  from show_loop[OF this, of "arts ?p1" sel] have a2: "arts ?p2 = map (hide_except ?S) ?as" "hidden_sections ?p2 = hidden_sections pg"
    by (simp_all add: a1)
  have "map (hide_except ?S) ?as = map (hide_except ?S) (arts pg)" by (simp add: hide_except_def art_key_def)
  with a2(1) have a3: "arts ?p2 = map (hide_except ?S) (arts pg)" by simp
  have cv: "change_version p sel pg = initDynamic p (fold section_step (arts ?p2) ?p2)" by (simp only: change_version_def Let_def)
  have g2: "a_group ` set (arts ?p2) = a_group ` set (arts pg)" by (simp add: a3 image_image)
  show ?thesis unfolding cv arts_initDynamic using section_loop[of "arts ?p2" ?p2 g] unfolding g2 a2(2) by (simp add: a3)
qed

text \<open>
  C34. What a click on a main version shows.  In a section that was not hidden, the article of a name
  that is shown is the first on the page whose version is not above the chosen one in the order of
  strings, and the only version of that name that is shown; in a section that was hidden, every
  version not above the chosen one is shown, several of a name at once.  Afterwards a section is
  hidden exactly when none of its articles is shown.
\<close>

theorem main_version_shows:
  assumes "a \<in> set (arts (change_version p sel pg))"
  shows "map art_key (arts (change_version p sel pg)) = map art_key (arts pg)
    \<and> (\<not> a_hide a) = (if a_group a \<in> set (hidden_sections pg) then a_version a \<le> sel
         else first_fit sel (arts pg) (a_group a) (a_name a) = Some (a_version a))
    \<and> (a_group a \<in> set (hidden_sections (change_version p sel pg))
        \<longleftrightarrow> (\<forall>b \<in> set (arts (change_version p sel pg)). a_group b = a_group a \<longrightarrow> a_hide b))"
proof -
  let ?as = "map (hide_except {}) (arts pg)"
  note cv = change_version_arts[of p sel pg]
  from assms obtain b where b: "b \<in> set (arts pg)" "a = hide_except (enabled_keys sel (hidden_sections pg) ?as) b"
    using cv by auto
  have "(\<not> a_hide a) = ((a_group a, a_name a, a_version a) \<in> enabled_keys sel (hidden_sections pg) ?as)"
    using b(2) by (simp add: art_key_def)
  moreover have "(a_group a, a_name a, a_version a) \<in> art_key ` set ?as"
    using b by (auto simp: image_image art_key_def intro!: image_eqI[of _ _ b])
  moreover have "first_fit sel ?as (a_group a) (a_name a) = first_fit sel (arts pg) (a_group a) (a_name a)"
    by (rule first_fit_keys) simp
  moreover have "a_group a \<in> a_group ` set (arts pg)" using b by auto
  ultimately show ?thesis using cv[of "a_group a"] by (simp add: enabled_iff comp_def)
qed

definition demo_page_node :: "string \<Rightarrow> bool \<Rightarrow> art_node" where
  "demo_page_node v h = \<lparr>a_group = ''g'', a_name = ''n'', a_version = v, a_compare = None, a_hide = h, a_strong = v\<rparr>"

definition demo_doc :: "string list \<Rightarrow> page" where
  "demo_doc H = \<lparr>main_version = ''9.0.0'', arts = [demo_page_node ''10.0.0'' True, demo_page_node ''9.0.0'' False], navs = [], hidden_sections = H\<rparr>"

theorem main_version_shows_witness:
  "demo_page_node ''10.0.0'' False \<in> set (arts (change_version (JObj []) ''9.0.0'' (demo_doc [])))
   \<and> first_fit ''9.0.0'' (arts (demo_doc [])) ''g'' ''n'' = Some ''10.0.0''"
proof -
  have m: "demo_page_node ''10.0.0'' False \<in> set (arts (change_version (JObj []) ''9.0.0'' (demo_doc [])))" by code_simp
  from main_version_shows[OF m] m show ?thesis by (simp add: demo_page_node_def demo_doc_def)
qed

section \<open>Comparing and going back\<close>

lemma mark_items_modified: "map v_modified (mark_items w v xs) = map v_modified xs"
  by (induction xs) simp_all

lemma initDynamic_modified: "map v_modified (navs (initDynamic p pg)) = map v_modified (navs pg)"
  by (simp add: initDynamic_def mark_items_modified)

definition set_mark :: "string \<Rightarrow> string \<Rightarrow> string \<Rightarrow> bool \<Rightarrow> nav_node \<Rightarrow> nav_node" where
  "set_mark g n v b x = (if is_item g n v x then x\<lparr>v_modified := b\<rparr> else x)"

lemma marks_undone:
  assumes "\<And>x. x \<in> set xs \<Longrightarrow> is_item g n v x \<Longrightarrow> \<not> v_modified x"
  shows "map v_modified (map (set_mark g n v False) (mark_items w v' (map (set_mark g n v True) xs))) = map v_modified xs"
  using assms by (induction xs) (auto simp: set_mark_def is_item_def)

text \<open>A shown version of an article: the data has entries of its own and of the other version.\<close>

definition has_entry :: "docs \<Rightarrow> string \<Rightarrow> string \<Rightarrow> string \<Rightarrow> bool" where
  "has_entry d g n v = (let e = find_entry d g n v in
     attr e ''group'' = JStr g \<and> attr e ''name'' = JStr n \<and> attr e ''version'' = JStr v)"

lemma article_node_entry:
  "has_entry d g n v \<Longrightarrow> article_node (renderArticle d g n v) =
     \<lparr>a_group = g, a_name = n, a_version = v, a_compare = None, a_hide = False, a_strong = v\<rparr>"
  by (simp add: article_node_def renderArticle_def addArticleSettings_def has_entry_def html_str_def is_nullish_def Let_def)

lemma compare_node_entry:
  "has_entry d g n v \<Longrightarrow> has_entry d g n sel \<Longrightarrow> compare_node (compare_fields d g n v sel) =
     \<lparr>a_group = g, a_name = n, a_version = v, a_compare = Some sel, a_hide = False, a_strong = sel\<rparr>"
  by (simp add: compare_node_def compare_fields_def has_entry_def html_str_def is_nullish_def attr_set_attr Let_def)

lemma compare_click:
  assumes "arts pg ! k = article_node (renderArticle d g n v)" "has_entry d g n v" "has_entry d g n sel" "v \<noteq> sel"
  shows "changeVersionCompareTo d k sel pg = initDynamic (d_project d) (pg\<lparr>
     arts := (arts pg)[k := compare_node (compare_fields d g n v sel)],
     navs := map (set_mark g n v True) (navs pg)\<rparr>)"
  using assms by (simp add: changeVersionCompareTo_def Let_def article_node_entry set_mark_def[abs_def])

lemma reset_click:
  assumes "arts pg ! k = compare_node (compare_fields d g n v sel)" "k < length (arts pg)" "has_entry d g n v" "has_entry d g n sel"
    "v \<noteq> sel" "sel \<noteq> []"
  shows "changeVersionCompareTo d k v pg = initDynamic (d_project d) (resetArticle d g n v
     (pg\<lparr>arts := (arts pg)[k := (arts pg ! k)\<lparr>a_strong := v\<rparr>]\<rparr>))"
  using assms by (simp add: changeVersionCompareTo_def Let_def compare_node_entry)


definition demo_docs :: docs where
  "demo_docs = \<lparr>d_project = JObj [], d_entries = [(''g'', [(''n'', [demo_entry ''g'' ''n'' ''2.0.0'', demo_entry ''g'' ''n'' ''1.0.0''])])],
     d_versions = [(''g'', [(''n'', [JStr ''2.0.0'', JStr ''1.0.0''])])]\<rparr>"

definition demo_compare :: page where
  "demo_compare = \<lparr>main_version = ''2.0.0'', arts = [demo_page_node ''2.0.0'' False, demo_page_node ''1.0.0'' True], navs = [], hidden_sections = []\<rparr>"


end
