(* ===== verification/ApiDoc_Data.thy ===== *)
theory ApiDoc_Data
  imports Broker_Routes
begin

text \<open>
  The data of the API documentation page, \<^verbatim>\<open>broker/BrokerServer/public/apidoc/api_data.js\<close> and
  \<^verbatim>\<open>api_project.js\<close>, and how the requests it documents fare with the routes of the broker.
\<close>

section \<open>Documented requests\<close>

definition entry_deleteCSP :: jsval where
  "entry_deleteCSP = JObj [(''type'', JStr ''delete''),
    (''url'', JStr ''/deleteCSP''),
    (''title'', JStr ''''),
    (''name'', JStr ''deleteCSP''),
    (''group'', JStr ''Broker_Dashboard_REST_requests''),
    (''parameter'', JObj [(''fields'', JObj [(''Parameter'', JArr [JObj [(''group'', JStr ''Parameter''),
            (''type'', JStr ''String''),
            (''optional'', JBool False),
            (''field'', JStr ''cspKey''),
            (''description'', JStr ''<p>csp key in the database.</p>'')]])])]),
    (''success'', JObj [(''fields'', JObj [(''Success 200'', JArr [JObj [(''group'', JStr ''Success 200''),
            (''type'', JStr ''int''),
            (''optional'', JBool False),
            (''field'', JStr ''return''),
            (''description'', JStr ''<p>1</p>'')]])])]),
    (''version'', JStr ''0.0.0''),
    (''filename'', JStr ''app/routes.js''),
    (''groupTitle'', JStr ''Broker_Dashboard_REST_requests'')]"

definition entry_getCspConso :: jsval where
  "entry_getCspConso = JObj [(''type'', JStr ''get''),
    (''url'', JStr ''/getCspConso''),
    (''title'', JStr ''''),
    (''name'', JStr ''getCspConso''),
    (''group'', JStr ''Broker_Dashboard_REST_requests''),
    (''parameter'', JObj [(''fields'', JObj [(''Parameter'', JArr [JObj [(''group'', JStr ''Parameter''),
            (''type'', JStr ''String''),
            (''optional'', JBool False),
            (''field'', JStr ''cspkey''),
            (''description'', JStr ''<p>csp key in the database.</p>'')]])])]),
    (''success'', JObj [(''fields'', JObj [(''Success 200'', JArr [JObj [(''group'', JStr ''Success 200''),
            (''type'', JStr ''Array[]''),
            (''optional'', JBool False),
            (''field'', JStr ''CspInfosArray''),
            (''description'', JStr ''<p>Array containing all csp registered in the base</p>'')],
          JObj [(''group'', JStr ''Success 200''),
            (''type'', JStr ''Object[]''),
            (''optional'', JBool False),
            (''field'', JStr ''CspInfosArray.0''),
            (''description'', JStr ''<p>array containing csp infos</p>'')],
          JObj [(''group'', JStr ''Success 200''),
            (''type'', JStr ''String''),
            (''optional'', JBool False),
            (''field'', JStr ''CspInfosArray.0.audioQuota''),
            (''description'', JStr ''<p>audio data quota.</p>'')],
          JObj [(''group'', JStr ''Success 200''),
            (''type'', JStr ''String''),
            (''optional'', JBool False),
            (''field'', JStr ''CspInfosArray.0.videoQuota''),
            (''description'', JStr ''<p>video data quota.</p>'')],
          JObj [(''group'', JStr ''Success 200''),
            (''type'', JStr ''String''),
            (''optional'', JBool False),
            (''field'', JStr ''CspInfosArray.0.dataQuota''),
            (''description'', JStr ''<p>datachannel quota.</p>'')],
          JObj [(''group'', JStr ''Success 200''),
            (''type'', JStr ''String''),
            (''optional'', JBool False),
            (''field'', JStr ''CspInfosArray.0.csp''),
            (''description'', JStr ''<p>csp name.</p>'')]])]),
      (''examples'', JArr [JObj [(''title'', JStr ''Success-Response:''),
          (''content'', JStr ('' HTTP/1.1 200 OK'' @ [CHR 0x0A] @ ''['' @ [CHR 0x0A] @ ''  {'' @ [CHR 0x0A] @ ''  '' @ [CHR 0x22] @ ''videoQuota'' @ [CHR 0x22] @ '':'' @ [CHR 0x22] @ ''12456231'' @ [CHR 0x22] @ '','' @ [CHR 0x0A] @ ''  '' @ [CHR 0x22] @ ''audioQuota'' @ [CHR 0x22] @ '':'' @ [CHR 0x22] @ ''59122313'' @ [CHR 0x22] @ '','' @ [CHR 0x0A] @ ''  '' @ [CHR 0x22] @ ''dataQuota'' @ [CHR 0x22] @ '':'' @ [CHR 0x22] @ ''05464314'' @ [CHR 0x22] @ '','' @ [CHR 0x0A] @ ''  '' @ [CHR 0x22] @ ''csp'' @ [CHR 0x22] @ '':'' @ [CHR 0x22] @ ''prov:csp1'' @ [CHR 0x22, CHR 0x0A] @ ''  },'' @ [CHR 0x0A] @ ''  {'' @ [CHR 0x0A] @ ''  '' @ [CHR 0x22] @ ''videoQuota'' @ [CHR 0x22] @ '':'' @ [CHR 0x22] @ ''8010000'' @ [CHR 0x22] @ '','' @ [CHR 0x0A] @ ''  '' @ [CHR 0x22] @ ''audioQuota'' @ [CHR 0x22] @ '':'' @ [CHR 0x22] @ ''0'' @ [CHR 0x22] @ '','' @ [CHR 0x0A] @ ''  '' @ [CHR 0x22] @ ''dataQuota'' @ [CHR 0x22] @ '':'' @ [CHR 0x22] @ ''54652231546'' @ [CHR 0x22] @ '','' @ [CHR 0x0A] @ ''  '' @ [CHR 0x22] @ ''csp'' @ [CHR 0x22] @ '':'' @ [CHR 0x22] @ ''prov:csp2'' @ [CHR 0x22, CHR 0x0A] @ ''  }'' @ [CHR 0x0A] @ '']'')),
          (''type'', JStr ''json'')]])]),
    (''version'', JStr ''0.0.0''),
    (''filename'', JStr ''app/routes.js''),
    (''groupTitle'', JStr ''Broker_Dashboard_REST_requests'')]"

definition entry_getCspConso_2 :: jsval where
  "entry_getCspConso_2 = JObj [(''type'', JStr ''get''),
    (''url'', JStr ''/getCspConso''),
    (''title'', JStr ''''),
    (''name'', JStr ''getCspConso''),
    (''group'', JStr ''Broker_Dashboard_REST_requests''),
    (''parameter'', JObj [(''fields'', JObj [(''Parameter'', JArr [JObj [(''group'', JStr ''Parameter''),
            (''type'', JStr ''String''),
            (''optional'', JBool False),
            (''field'', JStr ''cspkey''),
            (''description'', JStr ''<p>csp key in the database.</p>'')]])])]),
    (''success'', JObj [(''fields'', JObj [(''Success 200'', JArr [JObj [(''group'', JStr ''Success 200''),
            (''type'', JStr ''Object[]''),
            (''optional'', JBool False),
            (''field'', JStr ''consumptions''),
            (''description'', JStr ''<p>Object containing data consumptions for the csp</p>'')],
          JObj [(''group'', JStr ''Success 200''),
            (''type'', JStr ''String''),
            (''optional'', JBool False),
            (''field'', JStr ''consumptions.video''),
            (''description'', JStr ''<p>video data consumption</p>'')],
          JObj [(''group'', JStr ''Success 200''),
            (''type'', JStr ''String''),
            (''optional'', JBool False),
            (''field'', JStr ''credentials.audio''),
            (''description'', JStr ''<p>audio data consumption.</p>'')],
          JObj [(''group'', JStr ''Success 200''),
            (''type'', JStr ''String''),
            (''optional'', JBool False),
            (''field'', JStr ''credentials.data''),
            (''description'', JStr ''<p>datachannel consumption.</p>'')]])]),
      (''examples'', JArr [JObj [(''title'', JStr ''Success-Response:''),
          (''content'', JStr ('' HTTP/1.1 200 OK'' @ [CHR 0x0A] @ ''{'' @ [CHR 0x0A] @ ''  '' @ [CHR 0x22] @ ''video'' @ [CHR 0x22] @ '':'' @ [CHR 0x22] @ ''12'' @ [CHR 0x22] @ '','' @ [CHR 0x0A] @ ''  '' @ [CHR 0x22] @ ''audio'' @ [CHR 0x22] @ '':'' @ [CHR 0x22] @ ''59122313'' @ [CHR 0x22] @ '','' @ [CHR 0x0A] @ ''  '' @ [CHR 0x22] @ ''data'' @ [CHR 0x22] @ '':'' @ [CHR 0x22] @ ''0'' @ [CHR 0x22, CHR 0x0A] @ ''}'')),
          (''type'', JStr ''json'')]])]),
    (''version'', JStr ''0.0.0''),
    (''filename'', JStr ''app/routes.js''),
    (''groupTitle'', JStr ''Broker_Dashboard_REST_requests'')]"

definition entry_provRequest :: jsval where
  "entry_provRequest = JObj [(''type'', JStr ''post''),
    (''url'', JStr ''/provRequest''),
    (''title'', JStr ''''),
    (''name'', JStr ''provRequest''),
    (''group'', JStr ''Broker_Dashboard_REST_requests''),
    (''parameter'', JObj [(''fields'', JObj [(''Parameter'', JArr [JObj [(''group'', JStr ''Parameter''),
            (''type'', JStr ''String''),
            (''optional'', JBool False),
            (''field'', JStr ''servicename''),
            (''description'', JStr ''<p>name of the csp.</p>'')],
          JObj [(''group'', JStr ''Parameter''),
            (''type'', JStr ''String''),
            (''optional'', JBool False),
            (''field'', JStr ''audio''),
            (''description'', JStr ''<p>audio quota.</p>'')],
          JObj [(''group'', JStr ''Parameter''),
            (''type'', JStr ''String''),
            (''optional'', JBool False),
            (''field'', JStr ''video''),
            (''description'', JStr ''<p>video quota.</p>'')],
          JObj [(''group'', JStr ''Parameter''),
            (''type'', JStr ''String''),
            (''optional'', JBool False),
            (''field'', JStr ''qdata''),
            (''description'', JStr ''<p>data quota.</p>'')]])])]),
    (''version'', JStr ''0.0.0''),
    (''filename'', JStr ''app/routes.js''),
    (''groupTitle'', JStr ''Broker_Dashboard_REST_requests'')]"

definition entry_getAppropriateTurn :: jsval where
  "entry_getAppropriateTurn = JObj [(''type'', JStr ''get''),
    (''url'', JStr ''/getAppropriateTurn''),
    (''title'', JStr ''''),
    (''name'', JStr ''getAppropriateTurn''),
    (''group'', JStr ''Broker_REST_requests''),
    (''parameter'', JObj [(''fields'', JObj [(''Parameter'', JArr [JObj [(''group'', JStr ''Parameter''),
            (''type'', JStr ''String''),
            (''optional'', JBool False),
            (''field'', JStr ''cspId''),
            (''description'', JStr ''<p>id of the csp.</p>'')],
          JObj [(''group'', JStr ''Parameter''),
            (''type'', JStr ''String''),
            (''optional'', JBool False),
            (''field'', JStr ''clientName''),
            (''description'', JStr ''<p>clientName.</p>'')]])])]),
    (''success'', JObj [(''fields'', JObj [(''Success 200'', JArr [JObj [(''group'', JStr ''Success 200''),
            (''type'', JStr ''Object[]''),
            (''optional'', JBool False),
            (''field'', JStr ''response''),
            (''description'', JStr ''<p>Array with turnurl and generated clientId.</p>'')],
          JObj [(''group'', JStr ''Success 200''),
            (''type'', JStr ''String''),
            (''optional'', JBool False),
            (''field'', JStr ''response[0]''),
            (''description'', JStr ''<p>turnurl</p>'')],
          JObj [(''group'', JStr ''Success 200''),
            (''type'', JStr ''String''),
            (''optional'', JBool False),
            (''field'', JStr ''response[1]''),
            (''description'', JStr ''<p>generated clientId.</p>'')]])]),
      (''examples'', JArr [JObj [(''title'', JStr ''Success-Response:''),
          (''content'', JStr ('' HTTP/1.1 200 OK'' @ [CHR 0x0A] @ ''['' @ [CHR 0x22] @ ''172.16.52.90:4078'' @ [CHR 0x22] @ '','' @ [CHR 0x22] @ ''49e4f103f82f151fd5bc8272c5fb3cac'' @ [CHR 0x22] @ '']'')),
          (''type'', JStr ''json'')]])]),
    (''version'', JStr ''0.0.0''),
    (''filename'', JStr ''app/routes.js''),
    (''groupTitle'', JStr ''Broker_REST_requests'')]"

definition entry_getCredentials :: jsval where
  "entry_getCredentials = JObj [(''type'', JStr ''get''),
    (''url'', JStr ''/getCredentials''),
    (''title'', JStr ''''),
    (''name'', JStr ''getCredentials''),
    (''group'', JStr ''Broker_REST_requests''),
    (''parameter'', JObj [(''fields'', JObj [(''Parameter'', JArr [JObj [(''group'', JStr ''Parameter''),
            (''type'', JStr ''String''),
            (''optional'', JBool False),
            (''field'', JStr ''clientId''),
            (''description'', JStr ''<p>clientId.</p>'')]])])]),
    (''success'', JObj [(''fields'', JObj [(''Success 200'', JArr [JObj [(''group'', JStr ''Success 200''),
            (''type'', JStr ''Object[]''),
            (''optional'', JBool False),
            (''field'', JStr ''credentials''),
            (''description'', JStr ''<p>Object containing user and password for the turn</p>'')],
          JObj [(''group'', JStr ''Success 200''),
            (''type'', JStr ''String''),
            (''optional'', JBool False),
            (''field'', JStr ''credentials.clientId''),
            (''description'', JStr (''<p>user for the turn. Note that it'' @ [CHR 0x27] @ ''s the same clientId as params</p>''))],
          JObj [(''group'', JStr ''Success 200''),
            (''type'', JStr ''password''),
            (''optional'', JBool False),
            (''field'', JStr ''credentials.password''),
            (''description'', JStr ''<p>password for the turn.</p>'')]])]),
      (''examples'', JArr [JObj [(''title'', JStr ''Success-Response:''),
          (''content'', JStr ('' HTTP/1.1 200 OK'' @ [CHR 0x0A] @ ''{'' @ [CHR 0x0A] @ ''  '' @ [CHR 0x22] @ ''clientId'' @ [CHR 0x22] @ '':'' @ [CHR 0x22] @ ''8922cee50a54f7c8c9d15d5171622358'' @ [CHR 0x22] @ '','' @ [CHR 0x0A] @ ''  '' @ [CHR 0x22] @ ''password'' @ [CHR 0x22] @ '':'' @ [CHR 0x22] @ ''jSXdh'' @ [CHR 0x22, CHR 0x0A] @ ''}'')),
          (''type'', JStr ''json'')]])]),
    (''version'', JStr ''0.0.0''),
    (''filename'', JStr ''app/routes.js''),
    (''groupTitle'', JStr ''Broker_REST_requests'')]"

definition api_data :: "jsval list" where
  "api_data = [entry_deleteCSP, entry_getCspConso, entry_getCspConso_2, entry_provRequest, entry_getAppropriateTurn, entry_getCredentials]"

definition api_project :: jsval where
  "api_project = JObj [(''name'', JStr ''broker''),
    (''version'', JStr ''1.0.0''),
    (''description'', JStr ''''),
    (''sampleUrl'', JBool False),
    (''apidoc'', JStr ''0.2.0''),
    (''generator'', JObj [(''name'', JStr ''apidoc''),
      (''time'', JStr ''2016-01-28T13:05:38.982Z''),
      (''url'', JStr ''http://apidocjs.com''),
      (''version'', JStr ''0.14.0'')])]"

section \<open>Requests as documented\<close>

text \<open>The request that a reader of an entry sends: the documented method,
  path and parameters, in the form of a POST and in the query of the others.\<close>

definition doc_method :: "jsval \<Rightarrow> http_method" where
  "doc_method e = (if attr e ''type'' = JStr ''post'' then POST else if attr e ''type'' = JStr ''delete'' then DELETE
     else if attr e ''type'' = JStr ''put'' then PUT else GET)"

definition doc_params :: "jsval \<Rightarrow> string list" where
  "doc_params e = map (\<lambda>p. str_of (attr p ''field'')) (arr_items (attr (attr (attr e ''parameter'') ''fields'') ''Parameter''))"

definition doc_request :: "jsval \<Rightarrow> (string \<Rightarrow> string) \<Rightarrow> request" where
  "doc_request e vals =
     (let ps = map_of (map (\<lambda>p. (p, vals p)) (doc_params e))
      in \<lparr>rmethod = doc_method e, rpath = str_of (attr e ''url''),
          query = (if doc_method e = POST then Map.empty else ps), form = (if doc_method e = POST then ps else Map.empty),
          authorization = None\<rparr>)"

lemmas entry_simps = doc_request_def doc_method_def doc_params_def attr_def Let_def

lemma doc_requests:
  "doc_request entry_deleteCSP vals = \<lparr>rmethod = DELETE, rpath = ''/deleteCSP'', query = [''cspKey'' \<mapsto> vals ''cspKey''],
     form = Map.empty, authorization = None\<rparr>"
  "doc_request entry_getCspConso vals = \<lparr>rmethod = GET, rpath = ''/getCspConso'', query = [''cspkey'' \<mapsto> vals ''cspkey''],
     form = Map.empty, authorization = None\<rparr>"
  "doc_request entry_getCspConso_2 vals = \<lparr>rmethod = GET, rpath = ''/getCspConso'', query = [''cspkey'' \<mapsto> vals ''cspkey''],
     form = Map.empty, authorization = None\<rparr>"
  "doc_request entry_provRequest vals = \<lparr>rmethod = POST, rpath = ''/provRequest'', query = Map.empty,
     form = [''servicename'' \<mapsto> vals ''servicename'', ''audio'' \<mapsto> vals ''audio'', ''video'' \<mapsto> vals ''video'', ''qdata'' \<mapsto> vals ''qdata''],
     authorization = None\<rparr>"
  "doc_request entry_getAppropriateTurn vals = \<lparr>rmethod = GET, rpath = ''/getAppropriateTurn'',
     query = [''cspId'' \<mapsto> vals ''cspId'', ''clientName'' \<mapsto> vals ''clientName''], form = Map.empty, authorization = None\<rparr>"
  "doc_request entry_getCredentials vals = \<lparr>rmethod = GET, rpath = ''/getCredentials'', query = [''clientId'' \<mapsto> vals ''clientId''],
     form = Map.empty, authorization = None\<rparr>"
       apply (simp add: entry_simps entry_deleteCSP_def)
      apply (simp add: entry_simps entry_getCspConso_def)
     apply (simp add: entry_simps entry_getCspConso_2_def)
    apply (simp add: entry_simps entry_provRequest_def fun_upd_twist)
   apply (simp add: entry_simps entry_getAppropriateTurn_def fun_upd_twist)
  apply (simp add: entry_simps entry_getCredentials_def)
  done

lemma doc_paths:
  "at_path \<lparr>rmethod = m, rpath = ''/getAppropriateTurn'', query = q, form = f, authorization = a\<rparr> ''/getAppropriateTurn''"
  "at_path \<lparr>rmethod = m, rpath = ''/getCredentials'', query = q, form = f, authorization = a\<rparr> ''/getCredentials''"
  "at_path \<lparr>rmethod = m, rpath = ''/getCspConso'', query = q, form = f, authorization = a\<rparr> ''/getCspConso''"
  "at_path \<lparr>rmethod = m, rpath = ''/provRequest'', query = q, form = f, authorization = a\<rparr> ''/provRequest''"
  "at_path \<lparr>rmethod = m, rpath = ''/deleteCSP'', query = q, form = f, authorization = a\<rparr> ''/deleteCSP''"
  by (simp_all add: at_path_self)

lemma doc_routes:
  "routes E \<lparr>rmethod = GET, rpath = ''/getAppropriateTurn'', query = q, form = f, authorization = a\<rparr>
      = get_getAppropriateTurn (MD5 E) (now E) (rand E) \<lparr>rmethod = GET, rpath = ''/getAppropriateTurn'', query = q, form = f, authorization = a\<rparr>"
  "routes E \<lparr>rmethod = GET, rpath = ''/getCredentials'', query = q, form = f, authorization = a\<rparr>
      = get_getCredentials (MD5 E) (rand E) \<lparr>rmethod = GET, rpath = ''/getCredentials'', query = q, form = f, authorization = a\<rparr>"
  "routes E \<lparr>rmethod = GET, rpath = ''/getCspConso'', query = q, form = f, authorization = a\<rparr>
      = get_getCspConso \<lparr>rmethod = GET, rpath = ''/getCspConso'', query = q, form = f, authorization = a\<rparr>"
  by (simp_all add: routes_def path_simps doc_paths[THEN at_path_unique])

lemma doc_urls: "map (\<lambda>e. attr e ''url'') api_data = [JStr ''/deleteCSP'', JStr ''/getCspConso'', JStr ''/getCspConso'',
  JStr ''/provRequest'', JStr ''/getAppropriateTurn'', JStr ''/getCredentials'']"
  unfolding api_data_def
  by (simp add: attr_def entry_deleteCSP_def entry_getCspConso_def entry_getCspConso_2_def entry_provRequest_def
      entry_getAppropriateTurn_def entry_getCredentials_def)

text \<open>
  What the broker does with the requests its documentation describes.  The documented requests
  for servers, credentials, consumption and registration start the operation they describe, with the
  documented parameters; the documented deletion names its parameter \<open>cspKey\<close> where the
  route reads \<open>cspkey\<close>, so it starts nothing and is never answered; the list of
  providers and the change of quotas are not documented at all.
\<close>

theorem documented_requests:
  "routes E (doc_request entry_getAppropriateTurn vals) =
     Await (getAppropriateTurn (MD5 E) (now E) (rand E) (vals ''cspId'') (vals ''clientName'')) turn_response
   \<and> routes E (doc_request entry_getCredentials vals) =
     Await (getCredentials (MD5 E) (rand E) (Some (vals ''clientId''))) json_response
   \<and> routes E (doc_request entry_getCspConso vals) = Await (getCSPConso (vals ''cspkey'')) json_response
   \<and> routes E (doc_request entry_getCspConso_2 vals) = Await (getCSPConso (vals ''cspkey'')) json_response
   \<and> routes E (doc_request entry_provRequest vals) =
     Background \<lparr>status = 302, headers = [(''Location'', ''/dashboard.html'')], rbody = NoBody\<rparr>
       (snd (registerCSP \<lparr>servicename = Some (vals ''servicename''), audio = Some (vals ''audio''),
          video = Some (vals ''video''), qdata = Some (vals ''qdata'')\<rparr> (JNum (Fin 3200))))
   \<and> routes E (doc_request entry_deleteCSP vals) = Silent
   \<and> JStr ''/getAllCspInfo'' \<notin> (\<lambda>e. attr e ''url'') ` set api_data
   \<and> JStr ''/changeQuotas'' \<notin> (\<lambda>e. attr e ''url'') ` set api_data"
proof (intro conjI)
  show "routes E (doc_request entry_getAppropriateTurn vals) =
     Await (getAppropriateTurn (MD5 E) (now E) (rand E) (vals ''cspId'') (vals ''clientName'')) turn_response"
    by (simp add: doc_requests doc_routes get_getAppropriateTurn_def opt_str_def)
  show "routes E (doc_request entry_getCredentials vals) =
     Await (getCredentials (MD5 E) (rand E) (Some (vals ''clientId''))) json_response"
    by (simp add: doc_requests doc_routes get_getCredentials_def)
  show "routes E (doc_request entry_getCspConso vals) = Await (getCSPConso (vals ''cspkey'')) json_response"
    "routes E (doc_request entry_getCspConso_2 vals) = Await (getCSPConso (vals ''cspkey'')) json_response"
    by (simp_all add: doc_requests doc_routes get_getCspConso_def opt_str_def)
  show "routes E (doc_request entry_provRequest vals) =
     Background \<lparr>status = 302, headers = [(''Location'', ''/dashboard.html'')], rbody = NoBody\<rparr>
       (snd (registerCSP \<lparr>servicename = Some (vals ''servicename''), audio = Some (vals ''audio''),
          video = Some (vals ''video''), qdata = Some (vals ''qdata'')\<rparr> (JNum (Fin 3200))))"
    by (simp add: doc_requests routes_def doc_paths post_provRequest_def form_csp_def)
  show "routes E (doc_request entry_deleteCSP vals) = Silent"
    by (simp add: doc_requests routes_def doc_paths delete_deleteCSP_def)
  show "JStr ''/getAllCspInfo'' \<notin> (\<lambda>e. attr e ''url'') ` set api_data" "JStr ''/changeQuotas'' \<notin> (\<lambda>e. attr e ''url'') ` set api_data"
    unfolding set_map[symmetric] doc_urls by simp_all
qed

end
