(* ===== verification/ApiDoc_Helpers.thy ===== *)
theory ApiDoc_Helpers
  imports JS_Number JS_Regex ApiDoc_Locale "HOL-Library.List_Lexorder" "HOL-Library.Char_ord"
begin

text \<open>
  The Handlebars helpers of the API documentation page,
  \<^verbatim>\<open>broker/BrokerServer/public/apidoc/utils/handlebars_helper.js\<close>.

  A helper gets the values of its arguments; the blocks \<open>options.fn\<close> and \<open>options.inverse\<close>, the
  compiler of Handlebars, the HTML of the page's templates, the clock and the difference of two texts by
  diff-match-patch are arguments.  Keys that are compared are strings or missing.
\<close>

section \<open>Values\<close>

text \<open>\<open>===\<close>: objects of different places are different.\<close>

fun strict_eq :: "jsval \<Rightarrow> jsval \<Rightarrow> bool" where
  "strict_eq (JNum a) (JNum b) = js_eq a b"
| "strict_eq (JArr _) _ = False"
| "strict_eq (JObj _) _ = False"
| "strict_eq a b = (a = b)"

fun is_object :: "jsval \<Rightarrow> bool" where
  "is_object (JArr _) = True"
| "is_object (JObj _) = True"
| "is_object _ = False"

fun key_count :: "jsval \<Rightarrow> nat" where
  "key_count (JArr xs) = length xs"
| "key_count (JObj al) = length al"
| "key_count _ = 0"

section \<open>Simple helpers\<close>

text \<open>The timer, the console and the registry of assigned helpers.\<close>

record helper_state =
  timer :: "rat option"
  console :: "jsval list"
  assigned :: "(string \<times> jsval) list"

definition startTimer :: "rat \<Rightarrow> helper_state \<Rightarrow> helper_state \<times> string" where
  "startTimer now st = (st\<lparr>timer := Some now\<rparr>, '''')"

definition stopTimer :: "rat \<Rightarrow> helper_state \<Rightarrow> helper_state \<times> string" where
  "stopTimer now st = (st\<lparr>console := console st @ [JNum (case timer st of None \<Rightarrow> NaN | Some t \<Rightarrow> Fin (now - t))]\<rparr>, '''')"

definition cl_helper :: "jsval \<Rightarrow> helper_state \<Rightarrow> helper_state \<times> string" where
  "cl_helper obj st = (st\<lparr>console := console st @ [obj]\<rparr>, '''')"

definition localized :: "i18n \<Rightarrow> string \<Rightarrow> message" where
  "localized st text = translate st text"

definition underscoreToSpace :: "string \<Rightarrow> string" where
  "underscoreToSpace text = re_gsub (Grp 1 (Cat (chr_class ''_'') (Star True (chr_class ''_'')))) (\<lambda>w cs. '' '') text"

fun assignable :: "jsval \<Rightarrow> bool" where
  "assignable (JStr _) = True"
| "assignable (JNum _) = True"
| "assignable (JBool _) = True"
| "assignable _ = False"

text \<open>Without a value, the argument is the options object and \<open>null\<close> is registered.\<close>

definition assign :: "string \<Rightarrow> jsval \<Rightarrow> helper_state \<Rightarrow> helper_state \<times> string" where
  "assign name v st = (st\<lparr>assigned := AList.update name (if assignable v then v else JNull) (assigned st)\<rparr>, '''')"

definition group_str :: "captures \<Rightarrow> nat \<Rightarrow> string" where
  "group_str cs n = (case cs n of Some w \<Rightarrow> w | None \<Rightarrow> '''')"

definition CR :: char where "CR = CHR 0x0D"
definition LF :: char where "LF = CHR 0x0A"

definition newline_re :: re where
  "newline_re = Alt (lit [CR, LF]) (Alt (lit [LF, CR]) (Alt (lit [CR]) (lit [LF])))"

definition nl2br_re :: re where
  "nl2br_re = Cat (Grp 1 (Opt (chr_not [CHR ''>'', CR, LF]))) (Grp 2 newline_re)"

definition handlebarsNewlineToBreak :: "jsval \<Rightarrow> string" where
  "handlebarsNewlineToBreak text =
     re_gsub nl2br_re (\<lambda>w cs. group_str cs 1 @ ''<br>'' @ group_str cs 2) (to_string_val text)"

definition nl2br :: "jsval \<Rightarrow> string" where
  "nl2br text = handlebarsNewlineToBreak text"

text \<open>An object is compared by the number of its keys, unless it is compared with an object.\<close>

definition compared_value :: "jsval \<Rightarrow> jsval \<Rightarrow> jsval" where
  "compared_value context compare = (if is_object context \<and> \<not> is_object compare
     then JNum (Fin (of_nat (key_count context))) else context)"

definition if_eq :: "string \<Rightarrow> string \<Rightarrow> jsval \<Rightarrow> jsval \<Rightarrow> string" where
  "if_eq fn else_html context compare = (if strict_eq (compared_value context compare) compare then fn else else_html)"

text \<open>\<open>>\<close>: two strings are compared as strings, other values as numbers.\<close>

definition val_gt :: "jsval \<Rightarrow> jsval \<Rightarrow> bool" where
  "val_gt a b = (case (a, b) of (JStr s, JStr t) \<Rightarrow> t < s | _ \<Rightarrow> js_gt (to_number a) (to_number b))"

definition if_gt :: "string \<Rightarrow> string \<Rightarrow> jsval \<Rightarrow> jsval \<Rightarrow> string" where
  "if_gt fn else_html context compare =
     (if val_gt (compared_value context compare) compare then fn else else_html)"

text \<open>A template is compiled once; \<open>html\<close> is the source of the template with the given name.\<close>

type_synonym template_cache = "(string \<times> (jsval \<Rightarrow> string)) list"

definition extend_with :: "jsval \<Rightarrow> jsval \<Rightarrow> jsval" where
  "extend_with this hash = JObj (fold (\<lambda>(k, v) al. if v = JUndef then al else AList.update k v al) (obj_items hash) (obj_items this))"

definition subTemplate ::
  "(string \<Rightarrow> jsval \<Rightarrow> string) \<Rightarrow> (string \<Rightarrow> string) \<Rightarrow> string \<Rightarrow> jsval \<Rightarrow> jsval \<Rightarrow> template_cache \<Rightarrow> template_cache \<times> string" where
  "subTemplate compile html name this hash cache =
     (let cache' = (case map_of cache name of Some t \<Rightarrow> cache | None \<Rightarrow> AList.update name (compile (html (''#template-'' @ name))) cache);
          template = the (map_of cache' name)
      in (cache', template (extend_with this hash)))"

definition toLowerCase :: "jsval \<Rightarrow> string" where
  "toLowerCase value = (case value of JStr s \<Rightarrow> js_lower s | _ \<Rightarrow> '''')"

definition splitFill :: "string \<Rightarrow> string \<Rightarrow> string \<Rightarrow> string" where
  "splitFill value splitChar fillChar =
     (let splits = js_split value splitChar
      in js_join fillChar (replicate (length splits) '''') @ last splits)"

section \<open>Comparing two lists\<close>

record row =
  typeSame :: bool
  typeIns :: bool
  typeDel :: bool
  r_source :: jsval
  r_compare :: jsval
  r_index :: nat
  r_last :: bool

definition same_row :: "jsval \<Rightarrow> jsval \<Rightarrow> nat \<Rightarrow> row" where
  "same_row s c i = \<lparr>typeSame = True, typeIns = False, typeDel = False, r_source = s, r_compare = c, r_index = i, r_last = False\<rparr>"

definition ins_row :: "jsval \<Rightarrow> nat \<Rightarrow> row" where
  "ins_row s i = \<lparr>typeSame = False, typeIns = True, typeDel = False, r_source = s, r_compare = JUndef, r_index = i, r_last = False\<rparr>"

definition del_row :: "jsval \<Rightarrow> nat \<Rightarrow> row" where
  "del_row c i = \<lparr>typeSame = False, typeIns = False, typeDel = True, r_source = JUndef, r_compare = c, r_index = i, r_last = False\<rparr>"

definition list_of :: "jsval \<Rightarrow> jsval list" where
  "list_of v = (if truthy v then arr_items v else [])"

text \<open>The loops with their counter: the state is the list so far and the index.\<close>

definition match_step :: "string \<Rightarrow> jsval \<Rightarrow> jsval \<Rightarrow> (row list \<times> nat) \<times> bool \<Rightarrow> (row list \<times> nat) \<times> bool" where
  "match_step fieldname s c = (\<lambda>((rows, i), found).
     if strict_eq (attr s fieldname) (attr c fieldname) then ((rows @ [same_row s c i], i + 1), True) else ((rows, i), found))"

definition source_step :: "string \<Rightarrow> jsval list \<Rightarrow> jsval \<Rightarrow> row list \<times> nat \<Rightarrow> row list \<times> nat" where
  "source_step fieldname compare s st =
     (case fold (match_step fieldname s) compare (st, False) of
        ((rows, i), found) \<Rightarrow> if found then (rows, i) else (rows @ [ins_row s i], i + 1))"

definition compare_step :: "string \<Rightarrow> jsval list \<Rightarrow> jsval \<Rightarrow> row list \<times> nat \<Rightarrow> row list \<times> nat" where
  "compare_step fieldname source c = (\<lambda>(rows, i).
     if list_ex (\<lambda>s. strict_eq (attr s fieldname) (attr c fieldname)) source then (rows, i) else (rows @ [del_row c i], i + 1))"

definition compared_rows :: "string \<Rightarrow> jsval \<Rightarrow> jsval \<Rightarrow> row list" where
  "compared_rows fieldname source compare =
     (let s = list_of source; c = list_of compare;
          st = fold (source_step fieldname c) s ([], 0)
      in fst (fold (compare_step fieldname s) c st))"

fun mark_last :: "row list \<Rightarrow> row list" where
  "mark_last [] = []"
| "mark_last [r] = [r\<lparr>r_last := True\<rparr>]"
| "mark_last (r # r' # rs) = r # mark_last (r' # rs)"

definition handlebarsEachCompared :: "(row \<Rightarrow> string) \<Rightarrow> string \<Rightarrow> jsval \<Rightarrow> jsval \<Rightarrow> string" where
  "handlebarsEachCompared fn fieldname source compare = concat (map fn (mark_last (compared_rows fieldname source compare)))"

text \<open>The key is written into the entries themselves; the result has the changed lists too.\<close>

definition with_key :: "string \<Rightarrow> jsval \<Rightarrow> jsval" where
  "with_key field e = set_attr e ''key'' (attr e field)"

definition each_compare_list_field :: "(row \<Rightarrow> string) \<Rightarrow> string \<Rightarrow> jsval \<Rightarrow> jsval \<Rightarrow> string \<times> jsval list \<times> jsval list" where
  "each_compare_list_field fn field source compare =
     (let newSource = map (with_key field) (list_of source); newCompare = map (with_key field) (list_of compare)
      in (handlebarsEachCompared fn ''key'' (JArr newSource) (JArr newCompare), newSource, newCompare))"

definition key_values :: "jsval \<Rightarrow> jsval list" where
  "key_values v = (if truthy v then map (\<lambda>(name, x). JObj [(''value'', x), (''key'', JStr name)]) (obj_items v) else [])"

definition each_compare_keys :: "(row \<Rightarrow> string) \<Rightarrow> jsval \<Rightarrow> jsval \<Rightarrow> string" where
  "each_compare_keys fn source compare = handlebarsEachCompared fn ''key'' (JArr (key_values source)) (JArr (key_values compare))"

definition each_compare_field :: "(row \<Rightarrow> string) \<Rightarrow> jsval \<Rightarrow> jsval \<Rightarrow> string" where
  "each_compare_field fn source compare = handlebarsEachCompared fn ''field'' source compare"

definition each_compare_title :: "(row \<Rightarrow> string) \<Rightarrow> jsval \<Rightarrow> jsval \<Rightarrow> string" where
  "each_compare_title fn source compare = handlebarsEachCompared fn ''title'' source compare"

section \<open>Differences of texts\<close>

datatype diff_op = DIFF_INSERT | DIFF_DELETE | DIFF_EQUAL

text \<open>\<open>replace(/c/g, w)\<close>\<close>

definition replace_char :: "char \<Rightarrow> string \<Rightarrow> string \<Rightarrow> string" where
  "replace_char c w s = concat (map (\<lambda>d. if d = c then w else [d]) s)"

definition escape_diff :: "string \<Rightarrow> string" where
  "escape_diff data = replace_char LF ''&para;<br>'' (replace_char (CHR ''>'') ''&gt;''
     (replace_char (CHR ''<'') ''&lt;'' (replace_char (CHR ''&'') ''&amp;'' data)))"

definition diff_html :: "diff_op \<times> string \<Rightarrow> string" where
  "diff_html d = (case fst d of
     DIFF_INSERT \<Rightarrow> ''<ins>'' @ escape_diff (snd d) @ ''</ins>''
   | DIFF_DELETE \<Rightarrow> ''<del>'' @ escape_diff (snd d) @ ''</del>''
   | DIFF_EQUAL \<Rightarrow> ''<span>'' @ escape_diff (snd d) @ ''</span>'')"

definition diff_prettyHtml :: "(diff_op \<times> string) list \<Rightarrow> string" where
  "diff_prettyHtml ds = js_join '''' (map diff_html ds)"

definition showDiff :: "(string \<Rightarrow> string \<Rightarrow> (diff_op \<times> string) list) \<Rightarrow> jsval \<Rightarrow> jsval \<Rightarrow> bool \<Rightarrow> jsval" where
  "showDiff diff source compare is_nl2br =
     (if strict_eq source compare then (if is_nl2br then JStr (handlebarsNewlineToBreak source) else source)
      else if \<not> truthy source then compare
      else if \<not> truthy compare then source
      else let ds = re_gsub (lit ''&para;'') (\<lambda>w cs. '''') (diff_prettyHtml (diff (to_string_val compare) (to_string_val source)))
           in JStr (if is_nl2br then handlebarsNewlineToBreak (JStr ds) else ds))"

section \<open>Line breaks\<close>

text \<open>The reference: every line break, taken as a pair where two different characters meet, gets a
  break tag before it.\<close>

fun break_lines :: "string \<Rightarrow> string" where
  "break_lines [] = []"
| "break_lines [c] = (if c = CR \<or> c = LF then ''<br>'' @ [c] else [c])"
| "break_lines (c # d # s) =
     (if c = CR \<and> d = LF \<or> c = LF \<and> d = CR then ''<br>'' @ [c, d] @ break_lines s
      else if c = CR \<or> c = LF then ''<br>'' @ [c] @ break_lines (d # s)
      else c # break_lines (d # s))"

definition is_nl :: "char \<Rightarrow> bool" where
  "is_nl c = (c = CR \<or> c = LF)"

lemma CR_LF [simp]: "CR \<noteq> LF" "LF \<noteq> CR" "CHR ''>'' \<noteq> CR" "CHR ''>'' \<noteq> LF"
  by (simp_all add: CR_def LF_def)

definition nl_first :: "string \<Rightarrow> string" where
  "nl_first s = (case s of c # d # _ \<Rightarrow> if is_nl c \<and> is_nl d \<and> c \<noteq> d then [c, d] else [c] | _ \<Rightarrow> s)"

lemma newline_head:
  assumes "is_nl (hd s)" "s \<noteq> []"
  shows "\<exists>ys. re_match newline_re (s, cs) = (drop (length (nl_first s)) s, cs) # ys"
  using assms by (cases s; cases "tl s") (auto simp: newline_re_def nl_first_def is_nl_def)

lemma newline_none: "s = [] \<or> \<not> is_nl (hd s) \<Longrightarrow> re_match newline_re (s, cs) = []"
  by (cases s) (auto simp: newline_re_def is_nl_def)

lemma nl_first_prefix: "s \<noteq> [] \<Longrightarrow> take (length s - length (drop (length (nl_first s)) s)) s = nl_first s"
  by (cases s; cases "tl s") (auto simp: nl_first_def)

lemma break_lines_nl: "s \<noteq> [] \<Longrightarrow> is_nl (hd s) \<Longrightarrow> break_lines s = ''<br>'' @ nl_first s @ break_lines (drop (length (nl_first s)) s)"
  by (cases s; cases "tl s") (auto simp: nl_first_def is_nl_def)

lemma break_lines_other: "\<not> is_nl c \<Longrightarrow> break_lines (c # s) = c # break_lines s"
  by (cases s) (auto simp: is_nl_def)

lemma re_gsub_skip: "re_match r (c # s, Map.empty) = [] \<Longrightarrow> re_gsub r f (c # s) = c # re_gsub r f s"
  by (simp add: re_gsub_def)

lemma re_gsub_match:
  "re_match r (c # s, Map.empty) = y # ys \<Longrightarrow> length (fst y) < length (c # s) \<Longrightarrow>
   re_gsub r f (c # s) = f (take (length (c # s) - length (fst y)) (c # s)) (snd y) @ re_gsub r f (fst y)"
  by (simp add: re_gsub_def)

lemma nl2br_match_nl:
  assumes "is_nl c"
  shows "\<exists>ys. re_match nl2br_re (c # s, Map.empty)
     = (drop (length (nl_first (c # s))) (c # s), [1 \<mapsto> '''', 2 \<mapsto> nl_first (c # s)]) # ys"
proof -
  from newline_head[of "c # s"] assms obtain ys where
    "re_match newline_re (c # s, [1 \<mapsto> '''']) = (drop (length (nl_first (c # s))) (c # s), [1 \<mapsto> '''']) # ys" by auto
  moreover have "c \<in> {CHR ''>'', CR, LF}" using assms by (auto simp: is_nl_def)
  ultimately show ?thesis
    using nl_first_prefix[of "c # s"] by (auto simp: nl2br_re_def chr_not_def)
qed

lemma nl2br_match_before:
  assumes "\<not> is_nl c" "c \<noteq> CHR ''>''" "s \<noteq> []" "is_nl (hd s)"
  shows "\<exists>ys. re_match nl2br_re (c # s, Map.empty)
     = (drop (length (nl_first s)) s, [1 \<mapsto> [c], 2 \<mapsto> nl_first s]) # ys"
proof -
  from newline_head[OF assms(4,3)] obtain ys where
    "re_match newline_re (s, [1 \<mapsto> [c]]) = (drop (length (nl_first s)) s, [1 \<mapsto> [c]]) # ys" by blast
  moreover have "c \<notin> {CHR ''>'', CR, LF}" using assms by (auto simp: is_nl_def)
  ultimately show ?thesis
    using nl_first_prefix[OF assms(3)] by (simp add: nl2br_re_def chr_not_def Suc_diff_le)
qed

lemma nl2br_match_none:
  assumes "\<not> is_nl c" "c = CHR ''>'' \<or> s = [] \<or> \<not> is_nl (hd s)"
  shows "re_match nl2br_re (c # s, Map.empty) = []"
  using assms newline_none[of s] newline_none[of "c # s"] by (auto simp: nl2br_re_def chr_not_def)

lemma length_nl_first: "s \<noteq> [] \<Longrightarrow> 0 < length (nl_first s) \<and> length (nl_first s) \<le> length s"
  by (cases s; cases "tl s") (auto simp: nl_first_def)

lemma nl2br_break_lines:
  "re_gsub nl2br_re (\<lambda>w cs. group_str cs 1 @ ''<br>'' @ group_str cs 2) s = break_lines s"
proof (induction s rule: length_induct)
  case (1 s)
  let ?f = "\<lambda>w cs. group_str cs 1 @ ''<br>'' @ group_str cs 2"
  show ?case
  proof (cases s)
    case Nil
    then show ?thesis by (simp add: re_gsub_def nl2br_re_def chr_not_def newline_none)
  next
    case (Cons c t)
    note IH = 1[rule_format, unfolded Cons]
    show ?thesis
    proof (cases "is_nl c")
      case True
      obtain ys where m: "re_match nl2br_re (c # t, Map.empty)
          = (drop (length (nl_first (c # t))) (c # t), [1 \<mapsto> '''', 2 \<mapsto> nl_first (c # t)]) # ys"
        using nl2br_match_nl[OF True] by blast
      let ?r = "drop (length (nl_first (c # t))) (c # t)"
      have l: "length ?r < length (c # t)" using length_nl_first[of "c # t"] by simp
      with re_gsub_match[OF m] have "re_gsub nl2br_re ?f (c # t) = ''<br>'' @ nl_first (c # t) @ re_gsub nl2br_re ?f ?r"
        by (simp add: group_str_def)
      also have "\<dots> = break_lines (c # t)" using IH[OF l] break_lines_nl[of "c # t"] True by simp
      finally show ?thesis using Cons by simp
    next
      case F: False
      show ?thesis
      proof (cases "c = CHR ''>'' \<or> t = [] \<or> \<not> is_nl (hd t)")
        case True
        then show ?thesis using re_gsub_skip[OF nl2br_match_none[OF F True], of ?f] IH[of t] F Cons by (simp add: break_lines_other)
      next
        case False
        then obtain ys where m: "re_match nl2br_re (c # t, Map.empty) = (drop (length (nl_first t)) t, [1 \<mapsto> [c], 2 \<mapsto> nl_first t]) # ys"
          using nl2br_match_before[OF F] by blast
        have "length (drop (length (nl_first t)) t) < length (c # t)" by simp
        with re_gsub_match[OF m] have "re_gsub nl2br_re ?f (c # t) = c # ''<br>'' @ nl_first t @ re_gsub nl2br_re ?f (drop (length (nl_first t)) t)"
          by (simp add: group_str_def)
        with IH[of "drop (length (nl_first t)) t"] False F break_lines_nl[of t] Cons show ?thesis
          by (simp add: break_lines_other)
      qed
    qed
  qed
qed

section \<open>Comparing lists\<close>

text \<open>The reference: a row for every pair of entries with the same key, an insertion for every entry
  of the source without one, then a deletion for every entry of the other list without one.\<close>

definition partners :: "string \<Rightarrow> jsval \<Rightarrow> jsval list \<Rightarrow> jsval list" where
  "partners f s cs = filter (\<lambda>c. strict_eq (attr s f) (attr c f)) cs"

definition source_rows :: "string \<Rightarrow> jsval list \<Rightarrow> jsval \<Rightarrow> (nat \<Rightarrow> row) list" where
  "source_rows f cs s = (if partners f s cs = [] then [ins_row s] else map (same_row s) (partners f s cs))"

definition compare_rows :: "string \<Rightarrow> jsval list \<Rightarrow> jsval \<Rightarrow> (nat \<Rightarrow> row) list" where
  "compare_rows f ss c = (if list_ex (\<lambda>s. strict_eq (attr s f) (attr c f)) ss then [] else [del_row c])"

definition numbered :: "nat \<Rightarrow> (nat \<Rightarrow> row) list \<Rightarrow> row list" where
  "numbered n rs = map2 (\<lambda>r i. r i) rs [n..<n + length rs]"

lemma numbered_Nil [simp]: "numbered n [] = []"
  by (simp add: numbered_def)

lemma numbered_append: "numbered n (xs @ ys) = numbered n xs @ numbered (n + length xs) ys"
  by (simp add: numbered_def upt_add_eq_append[of n "n + length xs" "length ys"] add.assoc[symmetric])

lemma numbered_one [simp]: "numbered n [r] = [r n]"
  by (simp add: numbered_def)

lemma numbered_Cons: "numbered n (r # rs) = r n # numbered (Suc n) rs"
  using numbered_append[of n "[r]" rs] by simp

lemma length_numbered [simp]: "length (numbered n rs) = length rs"
  by (simp add: numbered_def)

definition rows_from :: "row list \<times> nat \<Rightarrow> (nat \<Rightarrow> row) list \<Rightarrow> row list \<times> nat" where
  "rows_from st rs = (fst st @ numbered (snd st) rs, snd st + length rs)"

lemma rows_from_append: "rows_from st (xs @ ys) = rows_from (rows_from st xs) ys"
  by (simp add: rows_from_def numbered_append add.assoc)

lemma rows_from_Nil [simp]: "rows_from st [] = st"
  by (simp add: rows_from_def)

lemma match_loop:
  "fold (match_step f s) cs (st, found) = (rows_from st (map (same_row s) (partners f s cs)), found \<or> partners f s cs \<noteq> [])"
proof (induction cs arbitrary: st found)
  case (Cons c cs)
  show ?case
  proof (cases "strict_eq (attr s f) (attr c f)")
    case True
    then have "match_step f s c (st, found) = (rows_from st [same_row s c], True)"
      by (cases st) (simp add: match_step_def rows_from_def)
    with Cons True show ?thesis
      by (simp add: partners_def flip: rows_from_append)
  next
    case False
    then have "match_step f s c (st, found) = (st, found)" by (cases st) (simp add: match_step_def)
    with Cons False show ?thesis by (simp add: partners_def)
  qed
qed (simp add: partners_def)

lemma source_step_rows: "source_step f cs s st = rows_from st (source_rows f cs s)"
  by (simp add: source_step_def match_loop source_rows_def rows_from_def case_prod_unfold)

lemma compare_step_rows: "compare_step f ss c st = rows_from st (compare_rows f ss c)"
  by (simp add: compare_step_def compare_rows_def rows_from_def case_prod_unfold)

lemma fold_rows: "(\<And>x st. g x st = rows_from st (h x)) \<Longrightarrow> fold g xs st = rows_from st (concat (map h xs))"
  by (induction xs arbitrary: st) (simp_all add: rows_from_append)

lemma compared_rows_eq:
  "compared_rows f source compare = numbered 0 (concat (map (source_rows f (list_of compare)) (list_of source))
     @ concat (map (compare_rows f (list_of source)) (list_of compare)))"
proof -
  have "compared_rows f source compare = fst (rows_from (rows_from ([], 0) (concat (map (source_rows f (list_of compare)) (list_of source))))
      (concat (map (compare_rows f (list_of source)) (list_of compare))))"
    by (simp add: compared_rows_def Let_def fold_rows[OF source_step_rows] fold_rows[OF compare_step_rows])
  then show ?thesis by (simp add: rows_from_append[symmetric]) (simp add: rows_from_def)
qed

definition row_key :: "string \<Rightarrow> row \<Rightarrow> jsval" where
  "row_key f r = attr (if typeDel r then r_compare r else r_source r) f"

definition row_kind :: "string \<Rightarrow> row \<Rightarrow> jsval \<times> bool \<times> bool \<times> bool" where
  "row_kind f r = (row_key f r, typeSame r, typeIns r, typeDel r)"

fun is_string :: "jsval \<Rightarrow> bool" where
  "is_string (JStr _) = True"
| "is_string _ = False"

definition keyed :: "string \<Rightarrow> jsval list \<Rightarrow> bool" where
  "keyed f xs = (list_all (\<lambda>x. is_string (attr x f)) xs \<and> distinct (map (\<lambda>x. attr x f) xs))"

lemma strict_eq_string: "is_string a \<Longrightarrow> strict_eq a b \<longleftrightarrow> a = b"
  by (cases a; cases b) simp_all

lemma partners_keyed:
  assumes "keyed f cs" "is_string (attr s f)"
  shows "partners f s cs = (case find (\<lambda>c. attr c f = attr s f) cs of None \<Rightarrow> [] | Some c \<Rightarrow> [c])"
proof -
  have "filter (\<lambda>c. attr s f = attr c f) cs = (case find (\<lambda>c. attr c f = attr s f) cs of None \<Rightarrow> [] | Some c \<Rightarrow> [c])"
    if "distinct (map (\<lambda>x. attr x f) cs)"
    using that
  proof (induction cs)
    case (Cons c cs)
    then show ?case by (auto simp: filter_empty_conv image_iff)
  qed simp
  with assms show ?thesis by (simp add: partners_def strict_eq_string keyed_def)
qed

lemma numbered_map:
  assumes "\<And>r i. r \<in> set rs \<Longrightarrow> g (r i) = h r"
  shows "map g (numbered n rs) = map h rs"
  using assms by (induction rs arbitrary: n) (simp_all add: numbered_Cons)

lemma numbered_index:
  assumes "\<And>r i. r \<in> set rs \<Longrightarrow> r_index (r i) = i"
  shows "map r_index (numbered n rs) = [n..<n + length rs]"
  using assms by (induction rs arbitrary: n) (simp_all add: numbered_Cons upt_conv_Cons del: upt_Suc)

definition kind0 :: "string \<Rightarrow> (nat \<Rightarrow> row) \<Rightarrow> jsval \<times> bool \<times> bool \<times> bool" where
  "kind0 f r = row_kind f (r 0)"

lemmas row_defs = same_row_def ins_row_def del_row_def row_kind_def row_key_def kind0_def

lemma made_rows:
  assumes "r \<in> set (concat (map (source_rows f cs) ss) @ concat (map (compare_rows f ss') cs'))"
  shows "r_index (r i) = i" "row_kind f (r i) = kind0 f r"
  using assms by (auto simp: source_rows_def compare_rows_def row_defs split: if_splits)

lemma source_kinds:
  assumes "keyed f cs" "list_all (\<lambda>x. is_string (attr x f)) ss"
  shows "map (kind0 f) (concat (map (source_rows f cs) ss))
    = map (\<lambda>s. (attr s f, attr s f \<in> (\<lambda>c. attr c f) ` set cs, attr s f \<notin> (\<lambda>c. attr c f) ` set cs, False)) ss"
  using assms(2)
proof (induction ss)
  case (Cons s ss)
  have "map (kind0 f) (source_rows f cs s) = [(attr s f, attr s f \<in> (\<lambda>c. attr c f) ` set cs, attr s f \<notin> (\<lambda>c. attr c f) ` set cs, False)]"
  proof (cases "find (\<lambda>c. attr c f = attr s f) cs")
    case None
    then have "attr s f \<notin> (\<lambda>c. attr c f) ` set cs" by (auto simp: find_None_iff)
    with None Cons.prems show ?thesis
      by (simp add: source_rows_def partners_keyed[OF assms(1)] row_defs)
  next
    case (Some c)
    then have "c \<in> set cs" "attr c f = attr s f" by (auto simp: find_Some_iff)
    then have "attr s f \<in> (\<lambda>c. attr c f) ` set cs" by (metis imageI)
    with Some Cons.prems show ?thesis by (simp add: source_rows_def partners_keyed[OF assms(1)] row_defs)
  qed
  with Cons show ?case by simp
qed simp

lemma compare_kinds:
  assumes "list_all (\<lambda>x. is_string (attr x f)) ss"
  shows "map (kind0 f) (concat (map (compare_rows f ss) cs))
    = map (\<lambda>c. (attr c f, False, False, True)) (filter (\<lambda>c. attr c f \<notin> (\<lambda>s. attr s f) ` set ss) cs)"
proof (induction cs)
  case (Cons c cs)
  have "list_ex (\<lambda>s. strict_eq (attr s f) (attr c f)) ss \<longleftrightarrow> attr c f \<in> (\<lambda>s. attr s f) ` set ss"
    using assms by (auto simp: list_ex_iff list_all_iff strict_eq_string image_iff) metis+
  with Cons show ?case by (simp add: compare_rows_def row_defs)
qed simp

lemma mark_last_kinds: "map (row_kind f) (mark_last rs) = map (row_kind f) rs" "map r_index (mark_last rs) = map r_index rs"
  by (induction rs rule: mark_last.induct) (simp_all add: row_kind_def row_key_def)

lemma mark_last_flag:
  assumes "list_all (\<lambda>r. \<not> r_last r) rs"
  shows "map r_last (mark_last rs) = (if rs = [] then [] else replicate (length rs - 1) False @ [True])"
  using assms by (induction rs rule: mark_last.induct) simp_all

lemma rows_not_last:
  assumes "r \<in> set (concat (map (source_rows f cs) ss) @ concat (map (compare_rows f ss') cs'))"
  shows "\<not> r_last (r i)"
  using assms by (auto simp: source_rows_def compare_rows_def row_defs split: if_splits)

section \<open>Escaping\<close>

definition escape_char :: "char \<Rightarrow> string" where
  "escape_char c = (if c = CHR ''&'' then ''&amp;'' else if c = CHR ''<'' then ''&lt;'' else if c = CHR ''>'' then ''&gt;''
     else if c = LF then ''&para;<br>'' else [c])"

lemma replace_char_append: "replace_char c w (s @ t) = replace_char c w s @ replace_char c w t"
  by (simp add: replace_char_def)

lemma escape_diff_eq: "escape_diff s = concat (map escape_char s)"
proof (induction s)
  case (Cons c s)
  have "escape_diff (c # s) = escape_diff [c] @ escape_diff s"
    unfolding escape_diff_def replace_char_append[symmetric] by simp
  moreover have "escape_diff [c] = escape_char c"
    by (auto simp: escape_diff_def escape_char_def replace_char_def LF_def)
  ultimately show ?case using Cons by simp
qed (simp add: escape_diff_def replace_char_def)

lemma escape_no_markup: "LF \<notin> set s \<Longrightarrow> CHR ''<'' \<notin> set (escape_diff s) \<and> CHR ''>'' \<notin> set (escape_diff s)"
  unfolding escape_diff_eq by (induction s) (auto simp: escape_char_def)

section \<open>Compiled templates\<close>

definition cache_ok :: "(string \<Rightarrow> jsval \<Rightarrow> string) \<Rightarrow> (string \<Rightarrow> string) \<Rightarrow> template_cache \<Rightarrow> bool" where
  "cache_ok compile html cache = (\<forall>name t. map_of cache name = Some t \<longrightarrow> t = compile (html (''#template-'' @ name)))"

lemma subTemplate_ok:
  assumes "cache_ok compile html cache"
  shows "cache_ok compile html (fst (subTemplate compile html name this hash cache))
    \<and> snd (subTemplate compile html name this hash cache) = compile (html (''#template-'' @ name)) (extend_with this hash)"
  using assms by (cases "map_of cache name") (auto simp: subTemplate_def cache_ok_def Let_def)

section \<open>Properties\<close>

text \<open>
  The helper \<open>nl2br\<close>, a regular expression with two groups, equals the reference that puts a break
  tag before every line break, a pair of different line-break characters counting once; it drops
  nothing of the text, and the preceding character does not matter.
\<close>

theorem nl2br_equals_reference:
  "nl2br (JStr s) = break_lines s"
  unfolding nl2br_def handlebarsNewlineToBreak_def to_string_val.simps by (rule nl2br_break_lines)

text \<open>
  The comparison of two lists whose entries have distinct keys.  Every entry of the source has one
  row, in order, marked as the same when the other list has its key and as an insertion otherwise;
  every entry of the other list without a partner follows as a deletion; the rows are numbered
  from zero and only the last is marked as last.
\<close>

theorem compared_lists:
  assumes "keyed f (list_of source)" "keyed f (list_of compare)"
  defines "S \<equiv> (\<lambda>s. attr s f) ` set (list_of source)" and "C \<equiv> (\<lambda>c. attr c f) ` set (list_of compare)"
    and "rows \<equiv> mark_last (compared_rows f source compare)"
  shows "map (row_kind f) rows
      = map (\<lambda>s. (attr s f, attr s f \<in> C, attr s f \<notin> C, False)) (list_of source)
        @ map (\<lambda>c. (attr c f, False, False, True)) (filter (\<lambda>c. attr c f \<notin> S) (list_of compare))
    \<and> map r_index rows = [0..<length rows]
    \<and> map r_last rows = (if rows = [] then [] else replicate (length rows - 1) False @ [True])"
proof -
  let ?rs = "concat (map (source_rows f (list_of compare)) (list_of source)) @ concat (map (compare_rows f (list_of source)) (list_of compare))"
  have e: "compared_rows f source compare = numbered 0 ?rs" by (rule compared_rows_eq)
  have ix: "map r_index rows = [0..<length ?rs]"
    unfolding rows_def mark_last_kinds e using numbered_index[of ?rs 0] made_rows(1) by simp
  have "map (row_kind f) rows = map (kind0 f) ?rs"
    unfolding rows_def mark_last_kinds e by (rule numbered_map) (rule made_rows(2))
  moreover have "length rows = length ?rs" using ix by (metis length_map length_upt minus_nat.diff_0)
  moreover have "list_all (\<lambda>r. \<not> r_last r) (numbered 0 ?rs)"
    using rows_not_last by (fastforce simp: list_all_iff numbered_def dest: set_zip_leftD)
  then have "map r_last rows = (if rows = [] then [] else replicate (length rows - 1) False @ [True])"
    using mark_last_flag[of "numbered 0 ?rs"] calculation(2) unfolding rows_def e by (metis length_0_conv length_map map_is_Nil_conv length_numbered)
  ultimately show ?thesis
    using assms(1,2) ix source_kinds[of f "list_of compare" "list_of source"] compare_kinds[of f "list_of source" "list_of compare"]
    by (simp add: keyed_def S_def C_def)
qed

definition demo_params :: "string list \<Rightarrow> jsval" where
  "demo_params ks = JArr (map (\<lambda>k. JObj [(''field'', JStr k)]) ks)"

theorem compared_lists_witness:
  "map (row_kind ''field'') (mark_last (compared_rows ''field'' (demo_params [''a'', ''b'']) (demo_params [''b'', ''c''])))
     = [(JStr ''a'', False, True, False), (JStr ''b'', True, False, False), (JStr ''c'', False, False, True)]"
proof -
  have "keyed ''field'' (list_of (demo_params [''a'', ''b'']))" "keyed ''field'' (list_of (demo_params [''b'', ''c'']))"
    by (simp_all add: keyed_def list_of_def demo_params_def attr_def)
  from compared_lists[OF this] show ?thesis by (simp add: list_of_def demo_params_def attr_def)
qed

end
