(* ===== verification/ApiDoc_Sample.thy ===== *)
theory ApiDoc_Sample
  imports JS_Number
begin

text \<open>
  The sample requests of the API documentation page,
  \<^verbatim>\<open>broker/BrokerServer/public/apidoc/utils/send_sample_request.js\<close>: collecting the form of an article, the
  request it sends, and what the page shows of the answer.

  A form is what the code reads of the article: the radio buttons that choose a group of inputs,
  the inputs, the URL and the panel of the response.  An input element has no property \<open>optional\<close>.
  The regular expression that path-to-regexp makes of a URL, run on that URL, is an argument: the
  groups it captures.  So are \<open>JSON.stringify\<close> with indentation and \<open>JSON.parse\<close> followed by it.
  Parameter names are none of the names that every object inherits.
\<close>

section \<open>Forms\<close>

record input =
  in_group :: string
  in_name :: string
  in_value :: string
  in_default :: string

record sample_form =
  header_radios :: "(string \<times> bool) list"
  header_inputs :: "input list"
  param_radios :: "(string \<times> bool) list"
  param_inputs :: "input list"
  url_value :: string
  url_default :: string
  response_shown :: bool
  response_html :: string

text \<open>The HTML of a text node.\<close>

definition escapeHtml :: "string \<Rightarrow> string" where
  "escapeHtml str = concat (map (\<lambda>c. if c = CHR ''&'' then ''&amp;'' else if c = CHR ''<'' then ''&lt;''
     else if c = CHR ''>'' then ''&gt;'' else if c = CHR 0xA0 then ''&nbsp;'' else [c]) str)"

definition field_value :: "input \<Rightarrow> string" where
  "field_value i = (if in_default i \<noteq> '''' then in_default i else in_value i)"

definition collect_fields :: "(string \<times> bool) list \<Rightarrow> input list \<Rightarrow> (string \<times> string) list" where
  "collect_fields radios inputs =
     fold (\<lambda>(g, checked) d. if checked
       then fold (\<lambda>i d. if in_group i = g then AList.update (in_name i) (escapeHtml (field_value i)) d else d) inputs d
       else d) radios []"

section \<open>The request\<close>

text \<open>\<open>encodeURIComponent\<close>: UTF-8 bytes, percent-encoded unless unreserved.\<close>

definition unreserved :: "char \<Rightarrow> bool" where
  "unreserved c = (c \<in> set ''ABCDEFGHIJKLMNOPQRSTUVWXYZabcdefghijklmnopqrstuvwxyz0123456789-_.!~*()'' \<or> c = CHR 0x27)"

definition hex_upper :: "nat \<Rightarrow> char" where
  "hex_upper n = js_upper_char (digit_char n)"

definition percent_byte :: "nat \<Rightarrow> string" where
  "percent_byte b = [CHR ''%'', hex_upper (b div 16), hex_upper (b mod 16)]"

definition encode_char :: "char \<Rightarrow> string" where
  "encode_char c = (let n = of_char c :: nat in
     if unreserved c then [c] else if n < 128 then percent_byte n
     else percent_byte (192 + n div 64) @ percent_byte (128 + n mod 64))"

definition encodeURIComponent :: "string \<Rightarrow> string" where
  "encodeURIComponent s = concat (map encode_char s)"

text \<open>The loop over the groups of the URL: a parameter that a group names is put into the URL and leaves
  the list; \<^const>\<open>None\<close> is the TypeError of a group that did not take part in the match.\<close>

fun insert_params :: "string option list \<Rightarrow> string \<Rightarrow> (string \<times> string) list \<Rightarrow> (string \<times> (string \<times> string) list) option" where
  "insert_params [] url param = Some (url, param)"
| "insert_params (None # ms) url param = None"
| "insert_params (Some m # ms) url param =
     (case map_of param (drop 1 m) of
        Some v \<Rightarrow> insert_params ms (js_replace m (encodeURIComponent v) url) (AList.delete (drop 1 m) param)
      | None \<Rightarrow> insert_params ms url param)"

text \<open>\<open>for (k in param)\<close> with the counter \<open>p\<close>.\<close>

fun query_from :: "nat \<Rightarrow> (string \<times> string) list \<Rightarrow> string" where
  "query_from p [] = ''''"
| "query_from p ((k, v) # param) = (if p = 0 then ''?'' else ''&'') @ k @ ''='' @ v @ query_from (p + 1) param"

definition paramToQueryParms :: "(string \<times> string) list \<Rightarrow> string" where
  "paramToQueryParms param = query_from 0 param"

definition json_object :: "(string \<times> string) list \<Rightarrow> string" where
  "json_object param = ''{'' @ js_join '','' (map (\<lambda>(k, v). json_quote k @ '':'' @ json_quote v) param) @ ''}''"

record ajax_request =
  a_url :: string
  a_dataType :: string
  a_contentType :: string
  a_headers :: "(string \<times> string) list"
  a_type :: string
  a_data :: "string option"

definition sendSampleRequest :: "(string \<Rightarrow> string option list option) \<Rightarrow> string \<Rightarrow> sample_form \<Rightarrow> ajax_request option" where
  "sendSampleRequest exec_path type form =
     (let header = collect_fields (header_radios form) (header_inputs form);
          param0 = collect_fields (param_radios form) (param_inputs form)
      in case exec_path (url_value form) of
           None \<Rightarrow> None
         | Some matches \<Rightarrow> (case insert_params matches (url_value form) param0 of
             None \<Rightarrow> None
           | Some (url, param) \<Rightarrow>
               let ajaxRequest = \<lparr>a_url = url, a_dataType = ''json'', a_contentType = ''application/json'', a_headers = header,
                     a_type = js_upper type, a_data = None\<rparr>
               in Some (if type = ''get''
                    then ajaxRequest\<lparr>a_url := url @ paramToQueryParms param, a_dataType := ''text'', a_contentType := ''text/plain''\<rparr>
                    else if param \<noteq> [] then ajaxRequest\<lparr>a_data := Some (json_object param)\<rparr> else ajaxRequest)))"

section \<open>The response\<close>

definition display :: "string \<Rightarrow> sample_form \<Rightarrow> sample_form" where
  "display html form = form\<lparr>response_shown := True, response_html := html\<rparr>"

text \<open>A value that \<open>JSON.stringify\<close> rejects is shown itself.\<close>

definition displaySuccess :: "(jsval \<Rightarrow> string option) \<Rightarrow> jsval \<Rightarrow> sample_form \<Rightarrow> sample_form" where
  "displaySuccess stringify data = display (case stringify data of Some s \<Rightarrow> s | None \<Rightarrow> to_string_val data)"

definition displayError :: "(string \<Rightarrow> string option) \<Rightarrow> nat \<Rightarrow> string \<Rightarrow> string \<Rightarrow> sample_form \<Rightarrow> sample_form" where
  "displayError reformat status error responseText =
     (let message = ''Error '' @ js_to_string (Fin (of_nat status)) @ '': '' @ error;
          jsonResponse = (case reformat responseText of Some s \<Rightarrow> s | None \<Rightarrow> responseText)
      in display (if jsonResponse \<noteq> '''' then message @ ''<br>'' @ jsonResponse else message))"

definition clearSampleRequest :: "sample_form \<Rightarrow> sample_form" where
  "clearSampleRequest form = form\<lparr>response_html := '''', response_shown := False,
     param_inputs := map (\<lambda>i. i\<lparr>in_value := ''''\<rparr>) (param_inputs form), url_value := url_default form\<rparr>"

section \<open>Lemmas\<close>

lemma delete_filter: "AList.delete k al = filter (\<lambda>p. fst p \<noteq> k) al"
  by (induction al) auto

lemma insert_params_rest:
  "\<exists>url'. insert_params (map Some ms) url param = Some (url', filter (\<lambda>p. fst p \<notin> drop 1 ` set ms) param)"
proof (induction ms arbitrary: url param)
  case (Cons m ms)
  show ?case
  proof (cases "map_of param (drop 1 m)")
    case None
    then have "drop 1 m \<notin> fst ` set param" by (simp add: map_of_eq_None_iff)
    then have "filter (\<lambda>p. fst p \<notin> drop 1 ` set (m # ms)) param = filter (\<lambda>p. fst p \<notin> drop 1 ` set ms) param"
      by (force intro!: filter_cong)
    with None Cons.IH[of url param] show ?thesis by simp
  next
    case (Some v)
    have "filter (\<lambda>p. fst p \<notin> drop 1 ` set ms) (AList.delete (drop 1 m) param) = filter (\<lambda>p. fst p \<notin> drop 1 ` set (m # ms)) param"
      by (auto simp: delete_filter intro!: filter_cong)
    with Some Cons.IH[of "js_replace m (encodeURIComponent v) url" "AList.delete (drop 1 m) param"] show ?thesis by simp
  qed
qed simp

lemma query_split:
  assumes "\<And>k v. (k, v) \<in> set ps \<Longrightarrow> CHR ''&'' \<notin> set k \<and> CHR ''&'' \<notin> set v" "CHR ''&'' \<notin> set k" "CHR ''&'' \<notin> set v"
  shows "js_split (k @ ''='' @ v @ query_from (Suc n) ps) ''&'' = map (\<lambda>(k, v). k @ ''='' @ v) ((k, v) # ps)"
  using assms
proof (induction ps arbitrary: k v n)
  case Nil
  then show ?case by (simp add: js_split_free)
next
  case (Cons p ps)
  obtain k' v' where p: "p = (k', v')" by (cases p)
  have "js_split ((k @ ''='' @ v) @ CHR ''&'' # (k' @ ''='' @ v' @ query_from (Suc (Suc n)) ps)) ''&''
      = (k @ ''='' @ v) # js_split (k' @ ''='' @ v' @ query_from (Suc (Suc n)) ps) ''&''"
    using Cons.prems by (intro js_split_cons) simp
  moreover have "js_split (k' @ ''='' @ v' @ query_from (Suc (Suc n)) ps) ''&'' = map (\<lambda>(k, v). k @ ''='' @ v) ((k', v') # ps)"
    using Cons.prems p by (intro Cons.IH) auto
  ultimately show ?case by (simp add: p)
qed

lemma collect_one_group:
  assumes "distinct (map in_name inputs)" "list_all (\<lambda>i. in_group i = g) inputs"
  shows "collect_fields [(g, True)] inputs = map (\<lambda>i. (in_name i, escapeHtml (field_value i))) inputs"
proof -
  have "fold (\<lambda>i d. if in_group i = g then AList.update (in_name i) (escapeHtml (field_value i)) d else d) xs d
      = d @ map (\<lambda>i. (in_name i, escapeHtml (field_value i))) xs"
    if "distinct (map in_name xs)" "list_all (\<lambda>i. in_group i = g) xs" "\<forall>x \<in> set xs. in_name x \<notin> fst ` set d" for xs d
    using that
  proof (induction xs arbitrary: d)
    case (Cons x xs)
    have "AList.update (in_name x) (escapeHtml (field_value x)) d = d @ [(in_name x, escapeHtml (field_value x))]"
      using Cons.prems by (simp add: update_new)
    moreover have "\<forall>y \<in> set xs. in_name y \<notin> fst ` set (d @ [(in_name x, escapeHtml (field_value x))])"
    proof
      fix y assume y: "y \<in> set xs"
      then have "in_name y \<noteq> in_name x" using Cons.prems(1) by (metis distinct.simps(2) image_eqI list.simps(9) set_map)
      with y Cons.prems(3) show "in_name y \<notin> fst ` set (d @ [(in_name x, escapeHtml (field_value x))])" by simp
    qed
    ultimately show ?case using Cons by simp
  qed simp
  then show ?thesis using assms by (simp add: collect_fields_def)
qed

definition plain_text :: "string \<Rightarrow> bool" where
  "plain_text s = list_all (\<lambda>c. c \<notin> {CHR ''&'', CHR ''<'', CHR ''>'', CHR 0xA0}) s"

lemma escapeHtml_plain: "plain_text s \<Longrightarrow> escapeHtml s = s"
  by (induction s) (auto simp: plain_text_def escapeHtml_def)

lemma plain_no_amp: "plain_text s \<Longrightarrow> CHR ''&'' \<notin> set s"
  by (auto simp: plain_text_def list_all_iff)

section \<open>Properties\<close>

text \<open>
  The parameters of a sample GET request.  A parameter that the URL names is put into the URL and
  not repeated in the query; every other input of the chosen group is in the query, in the order of
  the form, and splitting the query at its ampersands gives back the inputs, provided that names and
  values have no character that HTML escapes.
\<close>

theorem sample_get_request:
  assumes "exec_path (url_value form) = Some (map Some ms)"
    and "param_radios form = [(g, True)]" "list_all (\<lambda>i. in_group i = g) (param_inputs form)"
    and "distinct (map in_name (param_inputs form))"
    and "list_all (\<lambda>i. plain_text (in_name i) \<and> plain_text (field_value i)) (param_inputs form)"
    and rest: "filter (\<lambda>i. in_name i \<notin> drop 1 ` set ms) (param_inputs form) = i # is"
  shows "\<exists>r url q. sendSampleRequest exec_path ''get'' form = Some r \<and> a_type r = ''GET'' \<and> a_url r = url @ ''?'' @ q
     \<and> js_split q ''&'' = map (\<lambda>j. in_name j @ ''='' @ field_value j) (i # is)"
proof -
  let ?pr = "\<lambda>i. (in_name i, field_value i)"
  have "map (\<lambda>i. (in_name i, escapeHtml (field_value i))) (param_inputs form) = map ?pr (param_inputs form)"
    using assms(5) by (auto simp: list_all_iff escapeHtml_plain)
  then have c: "collect_fields (param_radios form) (param_inputs form) = map ?pr (param_inputs form)"
    using assms(2-4) by (simp add: collect_one_group)
  have "filter (\<lambda>p. fst p \<notin> drop 1 ` set ms) (map ?pr (param_inputs form)) = map ?pr (i # is)"
    using rest by (simp add: filter_map comp_def)
  with insert_params_rest[of ms "url_value form" "map ?pr (param_inputs form)"] obtain url where
    "insert_params (map Some ms) (url_value form) (map ?pr (param_inputs form)) = Some (url, map ?pr (i # is))" by auto
  with assms(1) c have r: "sendSampleRequest exec_path ''get'' form = Some \<lparr>a_url = url @ paramToQueryParms (map ?pr (i # is)),
      a_dataType = ''text'', a_contentType = ''text/plain'', a_headers = collect_fields (header_radios form) (header_inputs form),
      a_type = js_upper ''get'', a_data = None\<rparr>"
    by (simp add: sendSampleRequest_def)
  let ?q = "in_name i @ ''='' @ field_value i @ query_from (Suc 0) (map ?pr is)"
  have "set (i # is) \<subseteq> set (param_inputs form)" unfolding rest[symmetric] by auto
  then have "js_split ?q ''&'' = map (\<lambda>(k, v). k @ ''='' @ v) ((in_name i, field_value i) # map ?pr is)"
    using assms(5) by (intro query_split) (auto simp: list_all_iff plain_no_amp)
  moreover have "paramToQueryParms (map ?pr (i # is)) = ''?'' @ ?q" by (simp add: paramToQueryParms_def)
  moreover have "js_upper ''get'' = ''GET''" by code_simp
  ultimately show ?thesis using r by (intro exI[of _ url] exI[of _ ?q] exI) (auto simp: comp_def)
qed

definition demo_sample :: sample_form where
  "demo_sample = \<lparr>header_radios = [], header_inputs = [], param_radios = [(''p'', True)],
     param_inputs = [\<lparr>in_group = ''p'', in_name = ''id'', in_value = ''7'', in_default = ''''\<rparr>,
       \<lparr>in_group = ''p'', in_name = ''cspkey'', in_value = ''prov:a'', in_default = ''''\<rparr>],
     url_value = ''/u/:id'', url_default = ''/u/:id'', response_shown = False, response_html = ''''\<rparr>"

theorem sample_get_request_witness:
  "\<exists>r url q. sendSampleRequest (\<lambda>u. Some [Some '':id'']) ''get'' demo_sample = Some r \<and> a_type r = ''GET'' \<and> a_url r = url @ ''?'' @ q
     \<and> js_split q ''&'' = [''cspkey=prov:a'']"
  using sample_get_request[of "\<lambda>u. Some [Some '':id'']" demo_sample "['':id'']" "''p''" "demo_rest" "[]"
    for demo_rest]
  by (simp add: demo_sample_def plain_text_def field_value_def)

lemma ampersand_splits:
  assumes "CHR ''&'' \<notin> set k" "plain_text a" "plain_text b"
  shows "js_split (drop 1 (paramToQueryParms [(k, escapeHtml (a @ ''&'' @ b))])) ''&'' = [k @ ''='' @ a, ''amp;'' @ b]"
proof -
  have "escapeHtml (a @ ''&'' @ b) = escapeHtml a @ ''&amp;'' @ escapeHtml b" by (simp add: escapeHtml_def)
  then have "drop 1 (paramToQueryParms [(k, escapeHtml (a @ ''&'' @ b))]) = (k @ ''='' @ a) @ CHR ''&'' # (''amp;'' @ b)"
    using assms by (simp add: paramToQueryParms_def escapeHtml_plain)
  moreover have "js_split ((k @ ''='' @ a) @ CHR ''&'' # (''amp;'' @ b)) ''&'' = (k @ ''='' @ a) # js_split (''amp;'' @ b) ''&''"
    using assms by (intro js_split_cons) (auto dest: plain_no_amp)
  moreover have "js_split (''amp;'' @ b) ''&'' = [''amp;'' @ b]" using assms by (intro js_split_free) (auto dest: plain_no_amp)
  ultimately show ?thesis by simp
qed

lemma clear_keeps_headers: "header_inputs (clearSampleRequest form) = header_inputs form"
  by (simp add: clearSampleRequest_def)

end
