(* ===== verification/ApiDoc_Dynamic.thy ===== *)
theory ApiDoc_Dynamic
  imports ApiDoc_Sample
begin

text \<open>
  The click handlers of the documentation page: \<open>initDynamic\<close> of \<^verbatim>\<open>main.js\<close> and of
  \<^verbatim>\<open>utils/send_sample_request.js\<close>, which run at the start and again whenever an article is rendered anew, the
  switch between groups of fields, and the parts of the page that are rendered once.

  jQuery is outside: an element is its kind and its click handlers in the order of their
  registration; \<open>on\<close> adds a handler, \<open>off\<close> removes all.
\<close>

section \<open>Elements and handlers\<close>

datatype element_kind = PopoverLink | ExampleTab | FieldSwitch | SendButton | ClearButton | VersionLink | NoControl

datatype click_handler = PreventDefault | ShowTab | SwitchFields | SendRequest | ClearForm | ChangeVersionCompareTo

record element =
  el_article :: string
  el_kind :: element_kind
  el_handlers :: "click_handler list"

definition el_on :: "click_handler \<Rightarrow> element \<Rightarrow> element" where
  "el_on h e = e\<lparr>el_handlers := el_handlers e @ [h]\<rparr>"

definition el_off :: "element \<Rightarrow> element" where
  "el_off e = e\<lparr>el_handlers := []\<rparr>"

definition each_kind :: "element_kind \<Rightarrow> (element \<Rightarrow> element) \<Rightarrow> element list \<Rightarrow> element list" where
  "each_kind k f es = map (\<lambda>e. if el_kind e = k then f e else e) es"

text \<open>The module of the sample requests takes its handlers off first.\<close>

definition sample_initDynamic :: "element list \<Rightarrow> element list" where
  "sample_initDynamic es =
     (let es1 = each_kind SendButton (el_on SendRequest) (each_kind SendButton el_off es)
      in each_kind ClearButton (el_on ClearForm) (each_kind ClearButton el_off es1))"

definition main_initDynamic :: "element list \<Rightarrow> element list" where
  "main_initDynamic es =
     (let es1 = each_kind PopoverLink (el_on PreventDefault) es;
          es2 = each_kind ExampleTab (el_on ShowTab) es1;
          es3 = each_kind FieldSwitch (el_on SwitchFields) es2
      in sample_initDynamic es3)"

text \<open>The start of the page, and the replacement of an article by a rendered one.\<close>

definition load_elements :: "element list \<Rightarrow> element list" where
  "load_elements es = each_kind VersionLink (el_on ChangeVersionCompareTo) (main_initDynamic es)"

definition replace_article :: "string \<Rightarrow> element list \<Rightarrow> element list \<Rightarrow> element list" where
  "replace_article a new es = main_initDynamic
     (filter (\<lambda>e. el_article e \<noteq> a) es @ each_kind VersionLink (el_on ChangeVersionCompareTo) new)"

datatype page_event = ReplaceArticle string "element list" | MainVersionChanged

fun page_event_step :: "element list \<Rightarrow> page_event \<Rightarrow> element list" where
  "page_event_step es (ReplaceArticle a new) = replace_article a new es"
| "page_event_step es MainVersionChanged = main_initDynamic es"

text \<open>Rendered elements have no handlers yet.\<close>

definition fresh_elements :: "element list \<Rightarrow> bool" where
  "fresh_elements es = list_all (\<lambda>e. el_handlers e = []) es"

fun fresh_event :: "page_event \<Rightarrow> bool" where
  "fresh_event (ReplaceArticle a new) = fresh_elements new"
| "fresh_event MainVersionChanged = True"

section \<open>Clicks\<close>

text \<open>The requests a click sends: one per handler that sends.\<close>

definition click_requests :: "(string \<Rightarrow> string option list option) \<Rightarrow> string \<Rightarrow> sample_form \<Rightarrow> element \<Rightarrow> ajax_request option list" where
  "click_requests exec_path type form e =
     map (\<lambda>_. sendSampleRequest exec_path type form) (filter (\<lambda>h. h = SendRequest) (el_handlers e))"

definition click_clear :: "element \<Rightarrow> sample_form \<Rightarrow> sample_form" where
  "click_clear e form = fold (\<lambda>h f. if h = ClearForm then clearSampleRequest f else f) (el_handlers e) form"

text \<open>The groups of fields of the page in document order; a switch belongs to the group that follows its
  heading.\<close>

record field_group =
  fg_class :: string
  fg_hidden :: bool

definition switch_fields :: "string \<Rightarrow> nat \<Rightarrow> field_group list \<Rightarrow> field_group list" where
  "switch_fields name j gs =
     (let cls = name @ ''-fields''; gs1 = map (\<lambda>g. if fg_class g = cls then g\<lparr>fg_hidden := True\<rparr> else g) gs
      in if j < length gs1 \<and> fg_class (gs1 ! j) = cls then gs1[j := (gs1 ! j)\<lparr>fg_hidden := False\<rparr>] else gs1)"

definition click_switch :: "element \<Rightarrow> string \<Rightarrow> nat \<Rightarrow> field_group list \<Rightarrow> field_group list" where
  "click_switch e name j gs = fold (\<lambda>h gs. if h = SwitchFields then switch_fields name j gs else gs) (el_handlers e) gs"

section \<open>Parts that are rendered once\<close>

text \<open>Target, then the value the template gets; the versions are added to the project after the generator is rendered.\<close>

definition render_parts :: "jsval \<Rightarrow> jsval \<Rightarrow> jsval \<Rightarrow> (string \<times> jsval) list" where
  "render_parts apiProject nav apiVersions =
     (let project = set_attr apiProject ''versions'' apiVersions; header = attr project ''header''; footer = attr project ''footer'' in
      [(''#sidenav'', JObj [(''nav'', nav)]), (''#generator'', apiProject), (''#project'', project)]
      @ (if truthy header then [(''#header'', header)] else [])
      @ (if truthy footer then [(''#footer'', footer)] else []))"

text \<open>A click in the navigation: where the page scrolls, and the new hash.\<close>

definition nav_click :: "string list \<Rightarrow> string \<Rightarrow> string option \<times> string" where
  "nav_click ids href = (if href \<in> set ids then Some href else None, href)"

definition quick_jump :: "string list \<Rightarrow> string \<Rightarrow> string option" where
  "quick_jump ids hash = (if hash \<noteq> [] \<and> hash \<in> set ids then Some hash else None)"

section \<open>Which handlers an element has\<close>

fun handlers_ok :: "element \<Rightarrow> bool" where
  "handlers_ok e = (case el_kind e of
     SendButton \<Rightarrow> el_handlers e = [SendRequest]
   | ClearButton \<Rightarrow> el_handlers e = [ClearForm]
   | VersionLink \<Rightarrow> el_handlers e = [ChangeVersionCompareTo]
   | PopoverLink \<Rightarrow> \<exists>n. el_handlers e = replicate (Suc n) PreventDefault
   | ExampleTab \<Rightarrow> \<exists>n. el_handlers e = replicate (Suc n) ShowTab
   | FieldSwitch \<Rightarrow> \<exists>n. el_handlers e = replicate (Suc n) SwitchFields
   | NoControl \<Rightarrow> el_handlers e = [])"

definition bind_element :: "element \<Rightarrow> element" where
  "bind_element e = (case el_kind e of
     PopoverLink \<Rightarrow> el_on PreventDefault e | ExampleTab \<Rightarrow> el_on ShowTab e | FieldSwitch \<Rightarrow> el_on SwitchFields e
   | SendButton \<Rightarrow> el_on SendRequest (el_off e) | ClearButton \<Rightarrow> el_on ClearForm (el_off e) | _ \<Rightarrow> e)"

lemma el_kind_on [simp]: "el_kind (el_on h e) = el_kind e" "el_kind (el_off e) = el_kind e"
  by (simp_all add: el_on_def el_off_def)

lemma handlers_on [simp]: "el_handlers (el_on h e) = el_handlers e @ [h]" "el_handlers (el_off e) = []"
  by (simp_all add: el_on_def el_off_def)

lemma main_initDynamic_map: "main_initDynamic es = map bind_element es"
proof -
  have "(let e1 = (if el_kind e = PopoverLink then el_on PreventDefault e else e);
        e2 = (if el_kind e1 = ExampleTab then el_on ShowTab e1 else e1);
        e3 = (if el_kind e2 = FieldSwitch then el_on SwitchFields e2 else e2);
        e4 = (if el_kind e3 = SendButton then el_off e3 else e3);
        e5 = (if el_kind e4 = SendButton then el_on SendRequest e4 else e4);
        e6 = (if el_kind e5 = ClearButton then el_off e5 else e5)
      in if el_kind e6 = ClearButton then el_on ClearForm e6 else e6) = bind_element e" for e
    by (cases "el_kind e") (simp_all add: bind_element_def)
  then show ?thesis by (simp add: main_initDynamic_def sample_initDynamic_def each_kind_def Let_def comp_def)
qed

text \<open>An element before the binding: bound before, or just rendered with its version links bound.\<close>

definition bindable :: "element \<Rightarrow> bool" where
  "bindable e = (handlers_ok e \<or> el_kind e \<noteq> VersionLink \<and> el_handlers e = [])"

lemma replicate_one: "\<exists>n. [h] = replicate (Suc n) h"
  by (intro exI[of _ 0]) simp

lemma handlers_ok_bind: "bindable e \<Longrightarrow> handlers_ok (bind_element e)"
  by (cases "el_kind e") (auto simp: bindable_def bind_element_def replicate_append_same replicate_one simp flip: replicate_Suc)

lemma bind_all: "list_all bindable es \<Longrightarrow> list_all handlers_ok (main_initDynamic es)"
  by (auto simp: main_initDynamic_map list_all_iff handlers_ok_bind simp del: handlers_ok.simps)

lemma bindable_new: "fresh_elements es \<Longrightarrow> list_all bindable (each_kind VersionLink (el_on ChangeVersionCompareTo) es)"
  by (auto simp: fresh_elements_def list_all_iff each_kind_def bindable_def)

lemma load_ok: "fresh_elements es \<Longrightarrow> list_all handlers_ok (load_elements es)"
proof -
  have "el_kind (bind_element e) = VersionLink \<Longrightarrow> handlers_ok (el_on ChangeVersionCompareTo (bind_element e))"
    "el_kind (bind_element e) \<noteq> VersionLink \<Longrightarrow> handlers_ok (bind_element e)" if "el_handlers e = []" for e
    using that by (cases "el_kind e"; auto simp: bind_element_def intro!: exI[of _ 0])+
  then show "fresh_elements es \<Longrightarrow> ?thesis"
    by (auto simp: load_elements_def main_initDynamic_map each_kind_def fresh_elements_def list_all_iff simp del: handlers_ok.simps)
qed

lemma step_ok:
  assumes "list_all handlers_ok es" and "fresh_event ev"
  shows "list_all handlers_ok (page_event_step es ev)"
proof (cases ev)
  case (ReplaceArticle a new)
  have "list_all bindable (filter (\<lambda>e. el_article e \<noteq> a) es)" using assms(1) by (auto simp: list_all_iff bindable_def)
  then show ?thesis using ReplaceArticle assms(2) bindable_new by (simp add: replace_article_def bind_all)
next
  case MainVersionChanged
  have "list_all bindable es" using assms(1) by (auto simp: list_all_iff bindable_def)
  then show ?thesis using MainVersionChanged by (simp add: bind_all)
qed

lemma page_ok: "fresh_elements es \<Longrightarrow> list_all fresh_event evs \<Longrightarrow> list_all handlers_ok (foldl page_event_step (load_elements es) evs)"
  by (induction evs rule: rev_induct) (simp_all add: load_ok step_ok del: handlers_ok.simps)

section \<open>The switch\<close>

lemma length_switch [simp]: "length (switch_fields name j gs) = length gs"
  by (simp add: switch_fields_def Let_def)

lemma nth_switch:
  assumes "i < length gs"
  shows "switch_fields name j gs ! i = (if fg_class (gs ! i) = name @ ''-fields'' then (gs ! i)\<lparr>fg_hidden := (i \<noteq> j)\<rparr> else gs ! i)"
proof -
  obtain cls where c: "cls = name @ ''-fields''" by simp
  show ?thesis unfolding switch_fields_def Let_def c[symmetric] using assms by (auto simp: nth_list_update)
qed

lemma switch_again: "switch_fields name j (switch_fields name j gs) = switch_fields name j gs"
  by (rule nth_equalityI) (simp_all add: nth_switch)

lemma switch_repeat: "fold (\<lambda>h gs. if h = SwitchFields then switch_fields name j gs else gs) (replicate (Suc n) SwitchFields) gs = switch_fields name j gs"
  by (induction n) (simp_all add: switch_again)

section \<open>Properties of the handlers\<close>


definition demo_controls :: "element list" where
  "demo_controls = [\<lparr>el_article = ''a'', el_kind = SendButton, el_handlers = []\<rparr>, \<lparr>el_article = ''b'', el_kind = FieldSwitch, el_handlers = []\<rparr>]"


text \<open>
  Handlers pile up on the other controls: every change of the main version adds one to each switch.
\<close>

theorem switch_handlers_pile_up:
  "el_kind e = FieldSwitch \<Longrightarrow> foldl page_event_step [e] (replicate n MainVersionChanged)
     = [e\<lparr>el_handlers := el_handlers e @ replicate n SwitchFields\<rparr>]"
  by (induction n arbitrary: e) (simp_all add: main_initDynamic_map bind_element_def el_on_def)

theorem switch_handlers_pile_up_witness:
  "foldl page_event_step [\<lparr>el_article = ''a'', el_kind = FieldSwitch, el_handlers = []\<rparr>] (replicate 2 MainVersionChanged)
     = [\<lparr>el_article = ''a'', el_kind = FieldSwitch, el_handlers = [SwitchFields, SwitchFields]\<rparr>]"
  using switch_handlers_pile_up[of "\<lparr>el_article = ''a'', el_kind = FieldSwitch, el_handlers = []\<rparr>" 2] by (simp add: numeral_2_eq_2)

end
