(* ===== verification/ApiDoc_Site.thy ===== *)
theory ApiDoc_Site
  imports ApiDoc_Versions ApiDoc_Data ApiDoc_Helpers ApiDoc_Dynamic
begin

text \<open>
  The API documentation page of the broker as it is shipped: the page of \<^verbatim>\<open>main.js\<close> run on the
  data of \<^verbatim>\<open>api_data.js\<close> and \<^verbatim>\<open>api_project.js\<close>.
\<close>

section \<open>The shipped data\<close>

lemmas entry_defs = entry_deleteCSP_def entry_getCspConso_def entry_getCspConso_2_def entry_provRequest_def
  entry_getAppropriateTurn_def entry_getCredentials_def

definition entry_facts :: "jsval \<Rightarrow> string \<Rightarrow> string \<Rightarrow> bool" where
  "entry_facts e g n = (attr e ''group'' = JStr g \<and> attr e ''name'' = JStr n \<and> attr e ''title'' = JStr ''''
     \<and> attr e ''groupTitle'' = JStr g \<and> attr e ''version'' = JStr ''0.0.0'')"

lemma data_facts:
  "entry_facts entry_deleteCSP ''Broker_Dashboard_REST_requests'' ''deleteCSP''"
  "entry_facts entry_getCspConso ''Broker_Dashboard_REST_requests'' ''getCspConso''"
  "entry_facts entry_getCspConso_2 ''Broker_Dashboard_REST_requests'' ''getCspConso''"
  "entry_facts entry_provRequest ''Broker_Dashboard_REST_requests'' ''provRequest''"
  "entry_facts entry_getAppropriateTurn ''Broker_REST_requests'' ''getAppropriateTurn''"
  "entry_facts entry_getCredentials ''Broker_REST_requests'' ''getCredentials''"
  unfolding entry_facts_def attr_def entry_defs by simp_all

lemma data_entry:
  assumes "e \<in> set api_data"
  obtains g n where "entry_facts e g n" "g \<in> {''Broker_Dashboard_REST_requests'', ''Broker_REST_requests''}"
    "n \<noteq> []" "CHR ''#'' \<notin> set n"
proof -
  from assms consider "e = entry_deleteCSP" | "e = entry_getCspConso" | "e = entry_getCspConso_2" | "e = entry_provRequest"
    | "e = entry_getAppropriateTurn" | "e = entry_getCredentials"
    unfolding api_data_def by auto
  then show ?thesis
  proof cases
    case 1
    from data_facts(1)[folded 1] show ?thesis by (rule that) simp_all
  next
    case 2
    from data_facts(2)[folded 2] show ?thesis by (rule that) simp_all
  next
    case 3
    from data_facts(3)[folded 3] show ?thesis by (rule that) simp_all
  next
    case 4
    from data_facts(4)[folded 4] show ?thesis by (rule that) simp_all
  next
    case 5
    from data_facts(5)[folded 5] show ?thesis by (rule that) simp_all
  next
    case 6
    from data_facts(6)[folded 6] show ?thesis by (rule that) simp_all
  qed
qed

lemma facts_ok: "entry_facts e g n \<Longrightarrow> n \<noteq> [] \<Longrightarrow> CHR ''#'' \<notin> set n \<Longrightarrow> entry_ok e"
  by (simp add: entry_facts_def entry_ok_def name_key_def)

lemma data_ok: "list_all entry_ok api_data"
  by (auto simp: list_all_iff elim!: data_entry intro: facts_ok)

lemma project_order_None: "project_order api_project = None"
  by (simp add: project_order_def api_project_def attr_def)

lemma project_ok: "order_ok api_project"
  by (simp add: order_ok_def project_order_None)

lemma data_groups: "group_key ` set api_data = {''Broker_Dashboard_REST_requests'', ''Broker_REST_requests''}"
proof -
  have "group_key e = g" if "entry_facts e g n" for e g n using that by (simp add: entry_facts_def group_key_def)
  note k = data_facts[THEN this]
  show ?thesis unfolding api_data_def by (simp add: k)
qed

lemma sort_first_occurrences: "sort (first_occurrences xs) = sorted_list_of_set (set (xs :: string list))"
  by (rule sorted_distinct_set_unique) simp_all

lemma groups_of_data:
  assumes "mset api' = mset api_data"
  shows "apiGroups api_project api' = [''Broker_Dashboard_REST_requests'', ''Broker_REST_requests'']"
proof -
  have "set (map group_key api') = {''Broker_Dashboard_REST_requests'', ''Broker_REST_requests''}"
    using mset_eq_setD[OF assms] data_groups by simp
  moreover have "sorted_list_of_set {''Broker_Dashboard_REST_requests'', ''Broker_REST_requests''}
      = [''Broker_Dashboard_REST_requests'', ''Broker_REST_requests'']" by code_simp
  ultimately show ?thesis
    by (simp only: apiGroups_def custom_order_def project_order_None option.case sort_first_occurrences)
qed

lemma group_title_of_data:
  assumes "set api' \<subseteq> set api_data" "g \<in> group_key ` set api'"
  shows "apiGroupTitles api' g = JStr g"
proof -
  have step: "(if group_key e = g then (if truthy (attr e ''groupTitle'') then attr e ''groupTitle'' else attr e ''group'') else t)
      = (if group_key e = g then JStr g else t)" if "e \<in> set api_data" for e t
    using that by (auto elim!: data_entry simp: entry_facts_def group_key_def)
  have "fold (\<lambda>e t. if group_key e = g then (if truthy (attr e ''groupTitle'') then attr e ''groupTitle'' else attr e ''group'') else t) es t
      = (if g \<in> group_key ` set es then JStr g else t)" if "set es \<subseteq> set api_data" for es t
    using that by (induction es arbitrary: t) (simp_all add: step)
  then show ?thesis using assms by (simp add: apiGroupTitles_def)
qed

lemma submenu_untitled:
  "\<forall>e \<in> set es. attr e ''title'' = JStr '''' \<Longrightarrow> filter (\<lambda>i. truthy (n_title i)) (submenu g old es) = []"
  by (induction es arbitrary: old) (simp_all add: entry_item_def)

section \<open>Properties\<close>

text \<open>
  The navigation of the shipped documentation.  All six entries are arranged, in two groups, but
  none has a title, and the side navigation leaves out items without a title: it shows the two
  group headings and no request at all.
\<close>

theorem shipped_navigation:
  "\<exists>api'. ordered_api api_project api_data = Some api' \<and> mset api' = mset api_data
     \<and> map (\<lambda>x. (v_group x, v_header x)) (sidenav (nav_list general api_project api' (apiGroups api_project api')))
       = [(''Broker_Dashboard_REST_requests'', True), (''Broker_REST_requests'', True)]"
proof -
  from ordered_api_perm[OF data_ok project_ok] obtain api' where
    a: "ordered_api api_project api_data = Some api'" and m: "mset api' = mset api_data" by blast
  have s: "set api' = set api_data" using m by (rule mset_eq_setD)
  have "\<forall>e \<in> set api'. attr e ''title'' = JStr ''''" unfolding s by (auto elim!: data_entry simp: entry_facts_def)
  then have sub: "filter (\<lambda>i. truthy (n_title i)) (submenu g old api') = []" for g old by (rule submenu_untitled)
  have t: "apiGroupTitles api' g = JStr g" if "g \<in> {''Broker_Dashboard_REST_requests'', ''Broker_REST_requests''}" for g
  proof (rule group_title_of_data)
    show "set api' \<subseteq> set api_data" by (simp only: s subset_refl)
    show "g \<in> group_key ` set api'" unfolding s data_groups by (rule that)
  qed
  have p: "attr api_project ''header'' = JUndef" "attr api_project ''footer'' = JUndef" by (simp_all add: api_project_def attr_def)
  have n: "nav_list general api_project api' gs = main_menu api' gs" for gs by (simp add: nav_list_def p)
  have "map (\<lambda>x. (v_group x, v_header x)) (sidenav (nav_list general api_project api' (apiGroups api_project api')))
      = [(''Broker_Dashboard_REST_requests'', True), (''Broker_REST_requests'', True)]"
    unfolding n groups_of_data[OF m] by (simp add: main_menu_def sidenav_def sub header_item_def t)
  with a m show ?thesis by (intro exI[of _ api'] conjI)
qed

end
