(* ===== verification/Spec2Isabelle.thy ===== *)
theory Spec2Isabelle
  imports Broker_Types Broker_Server Dashboard_Load Agent_Broker WebRTC_System LHCB_Compiled ApiDoc_Site
begin

text \<open>
  Verification of the JavaScript programs of the reTHINK QoS support repository.

  \<^bold>\<open>The system.\<close>  A broker assigns TURN servers to the clients of communication service providers
  (CSPs), counts the traffic that the servers report, and refuses providers that have used up their
  quota.  Its parts, by directory under \<^verbatim>\<open>src/\<close>:

  \<^item> \<^verbatim>\<open>broker/BrokerServer/app/dao.js\<close>: the data access object, every operation a sequence of Redis
    commands; \<^verbatim>\<open>app/routes.js\<close> and \<^verbatim>\<open>server.js\<close>: the HTTP interface that starts these operations, the
    basic authentication and the subscription to the traffic channels;
  \<^item> \<^verbatim>\<open>broker/BrokerServer/public/js\<close>: the dashboard page, which lists providers and edits quotas
    through the HTTP interface;
  \<^item> \<^verbatim>\<open>broker/BrokerServer/public/apidoc\<close>: the page that documents the HTTP interface;
  \<^item> \<^verbatim>\<open>agent/src\<close>: the QoS agent on a TURN machine, which registers at the broker and measures
    round-trip times; \<^verbatim>\<open>agent/dist\<close> is the bundle that runs, \<^verbatim>\<open>agent/gulpfile.js\<close> builds and starts it;
  \<^item> \<^verbatim>\<open>broker/appWebRTC\<close>: a signalling server and a video-call page that asks the broker for a relay;
  \<^item> \<^verbatim>\<open>lhcb/lhcb_lib_js\<close>: the browser library of the last-hop connectivity broker, in source and
    compiled for browsers.

  \<^bold>\<open>Foundations.\<close>  \<open>QoS_Prelude\<close> has strings, arrays, dictionaries and promises of JavaScript;
  \<open>JS_Number\<close> the IEEE doubles (a finite number is the rational it denotes, each operation rounds) with the
  conversions to and from strings, and JSON-like values; \<open>JS_Regex\<close> the backtracking matcher of
  regular expressions.  \<open>Redis_Client\<close> models the commands the broker sends, operations as trees
  of atomic segments, their interleaving as a step relation, and states the documented behaviour
  of Redis as the locale \<open>redis_server\<close>, interpreted on an in-memory server.

  \<^bold>\<open>Components and properties.\<close>

  \<^item> \<open>Broker_DAO\<close>: one definition per operation of \<^verbatim>\<open>dao.js\<close>.  \<open>Broker_Allocation\<close> proves when an
    allocation is refused, granted or fails and what it writes; \<open>Broker_Accounting\<close> that reported bytes
    are charged to the owner of the user, exactly once, and that the parser of channels inverts the
    printer; \<open>Broker_Provisioning\<close> registration, deletion, update and listing; \<open>Broker_Credentials\<close>
    that provider operations stay in their database under any interleaving, and the race of two requests
    for credentials; \<open>Broker_Types\<close> that every interleaving keeps the record types that the prefixes of
    the keys stand for; \<open>Broker_Termination\<close> that every operation takes at most seven exchanges with the
    database and that, whatever runs in between, the promises of the requests settle.
  \<^item> \<open>Broker_Routes\<close>: routes, middleware and authentication; which requests are answered, which routes are
    guarded.  \<open>Broker_Server\<close>: requests as operations on the shared event loop; which of them are answered
    under every load, and the race that leaves a listing without a response.
  \<^item> \<open>Dashboard\<close>: the controller, its requests to the routes, filters and unit conversion;
    \<open>Dashboard_Load\<close>: loading the page against the routes, the rows it shows and the stored records.
  \<^item> \<open>QoS_Agent\<close>: configuration, watchdogs, registration and probing as an event loop \<open>agent_step\<close>; the
    window of probes, at most one registration in progress, the measured times.  \<open>Agent_Bundle\<close>: the
    module loader and the compiled agent of the bundle, shown equal to the source; \<open>Agent_Build\<close>: the tasks
    of the build file and the agent that \<^verbatim>\<open>gulp start\<close> runs;
    \<open>Agent_Broker\<close>: its registration as a request to the routes, which have none for it.
  \<^item> \<open>WebRTC_Signalling\<close>: the socket handlers over the interface \<open>room_service\<close> of socket.io,
    interpreted on lists of members; they refine an abstract admission rule and never put a third client
    into a room.  \<open>WebRTC_Client\<close>: the state machine of the page with events in any order, the
    relations its callbacks respect (the locale \<open>page_relation\<close>), and its start-up requests run against
    \<open>Broker_Routes\<close>.  \<open>WebRTC_System\<close>: any number of pages on the signalling server, each with a queue in
    either direction; calls stay in their rooms, two pages set up a call, and a refused client can spoil one.
  \<^item> \<open>LHCB_Lib\<close>: broker and client objects over web sockets; which message settles which promise.
    \<open>LHCB_Session\<close>: calls and socket events in any order, and the invariant of the objects;
    \<open>LHCB_Logger\<close>: what the logger does to the methods of an object; \<open>LHCB_Compiled\<close>: the compiled
    library, shown equal to the source.
  \<^item> The documentation page: \<open>ApiDoc_Locale\<close> (message tables and the choice of the language),
    \<open>ApiDoc_Data\<close> (the shipped data, and what the routes do with the documented requests),
    \<open>ApiDoc_Transform\<close> (grouping, order, groups, versions, navigation list; the custom order equals its
    reference and the navigation is complete), \<open>ApiDoc_Articles\<close> (sections and articles; the two
    loops over the data agree), \<open>ApiDoc_Versions\<close> (main version, comparison and reset on the
    document), \<open>ApiDoc_Helpers\<close> (Handlebars helpers; the line-break expression equals its reference, the
    comparison of lists is complete), \<open>ApiDoc_Sample\<close> (sample requests), \<open>ApiDoc_Dynamic\<close> (click
    handlers, which survive every new rendering), \<open>ApiDoc_Site\<close> (the shipped page).
  \<^item> This theory: the life of a provider across registration, traffic and allocation.

  \<^bold>\<open>Bounds and fuel.\<close>  Counters of Redis are 64-bit integers (\<open>int64_ok\<close>); statements that compare
  numbers of the broker assume totals up to \<open>2^53\<close>, where doubles are exact.  A repetition of a
  regular expression has the length of the rest as fuel (\<open>star_iter_enough\<close>), and the JSON check of the
  agent has \<open>2 * length s + 2\<close> (\<open>json_ok_fuel\<close>); the module loader has one more than there are modules
  (\<open>load_bundle_ends\<close>); all other loops are structural or have a measure.

  \<^bold>\<open>Not modelled.\<close>  Third-party code enters as arguments or locales: Redis, Express, socket.io, Angular,
  jQuery, lodash, Handlebars, semver, path-to-regexp, diff-match-patch, gulp, the browser.  The colour
  library and the process shim inside \<^verbatim>\<open>agent/dist\<close> are third-party code that the agent does not call;
  \<^verbatim>\<open>agent/config.js\<close> is a generated package map; \<^verbatim>\<open>coturn\<close> (C) and the LHCB servers (Java) are programs in
  other languages behind the modelled interfaces.  A socket of the video page that is lost while the page
  stays open, and how socket.io then connects it again, is outside \<open>WebRTC_System\<close>.  Scroll positions, animations, tabs and fonts of the documentation page, TLS and listening
  sockets have no state that the program reads.
\<close>

section \<open>The life of a provider\<close>

text \<open>What a registration followed by traffic leaves in the database.\<close>

context redis_server
begin

lemma register_then_report:
  assumes fresh: "dbs (view d) 2 (''prov:'' @ csp) = None" "dbs (view d) 2 (''prov:'' @ csp @ '':conso'') = None"
    and fd: "servicename fd = Some csp" and name: "\<And>p. csp \<noteq> p @ '':conso''"
    and own: "\<And>u b. (u, b) \<in> set ts \<Longrightarrow> plain_segment u \<and> (\<exists>p. owner (view d) u = Some p \<and> (p = csp \<or> conso_value (view d) p \<noteq> None))"
    and small: "\<And>p m. conso_value (view d) p = Some m \<Longrightarrow> 0 \<le> m \<and> m + int (sum_list (map snd ts)) < 2 ^ 63"
    and total: "int (sum_list (map snd ts)) < 2 ^ 63"
    and d2: "d2 = run_all (map publish ts) exec (fst (run (snd (registerCSP fd t)) exec d))"
  obtains c where "provider_at (view d2) csp (quota_arg (js_parseInt (opt_str (qdata fd)))) c"
    "parse_int64 c = Some (int (charged (view d) csp ts))"
    "turn_keys (view d2) = turn_keys (view d)" "turn_entries_ok (view d2) = turn_entries_ok (view d)"
proof -
  let ?d1 = "fst (run (snd (registerCSP fd t)) exec d)"
  have v: "dbs (view ?d1) = (dbs (view d))(2 := (dbs (view d) 2)
     (''prov:'' @ csp \<mapsto> Hash (quota_hash fd), ''prov:'' @ csp @ '':conso'' \<mapsto> Hash zero_conso))"
    using registerCSP_fresh[of "(view d)\<lparr>sel := 2\<rparr>" fd] fresh fd by (simp add: registerCSP_run opt_str_def)
  have ow: "owner (view ?d1) u = owner (view d) u" for u by (simp add: owner_def v)
  have z: "parse_int64 ''0'' = Some 0" by (simp add: parse_int64_def plain_digits_def int64_ok_def digit_eval)
  have cv: "conso_value (view ?d1) p = (if p = csp then Some 0 else conso_value (view d) p)" for p
    using name by (auto simp: conso_value_def v zero_conso_def z)
  have p1: "plain_segment u \<and> (\<exists>p. owner (view ?d1) u = Some p \<and> conso_value (view ?d1) p \<noteq> None)"
    if "(u, b) \<in> set ts" for u b
    using own[OF that] by (auto simp: ow cv)
  have p2: "0 \<le> m \<and> m + int (sum_list (map snd ts)) < 2 ^ 63" if "conso_value (view ?d1) p = Some m" for p m
    using that small total by (auto simp: cv split: if_splits)
  have "conso_value (view d2) csp = Some (int (charged (view d) csp ts))"
    using run_published[where csp = csp and m = 0, OF p1 p2] by (simp add: d2 cv charged_def ow)
  then obtain h c where c: "dbs (view d2) 2 (''prov:'' @ csp @ '':conso'') = Some (Hash h)" "h ''data'' = Some c"
    "parse_int64 c = Some (int (charged (view d) csp ts))"
    by (auto simp: conso_value_def bind_eq_Some_conv split: option.splits rval.splits)
  have pub: "map publish ts = map report ts" using own publish_report by (auto intro!: map_cong)
  have fr: "dbs (view d2) 2 k = dbs (view ?d1) 2 k" if "\<And>p. k \<noteq> ''prov:'' @ p @ '':conso''" for k
    unfolding d2 pub by (rule reports_frame[OF that])
  have "dbs (view d2) 2 (''prov:'' @ csp) = Some (Hash (quota_hash fd))"
    using fr[of "''prov:'' @ csp"] name by (simp add: v)
  then have prov: "provider_at (view d2) csp (quota_arg (js_parseInt (opt_str (qdata fd)))) c"
    using c by (simp add: provider_at_def quota_hash_def)
  have tk: "dbs (view d2) 2 k = dbs (view d) 2 k" if "prefix ''turnservers:'' k" for k
    using fr[of k] that by (auto simp: v prefix_def)
  then have keys: "turn_keys (view d2) = turn_keys (view d)" by (auto simp: turn_keys_def)
  have "turn_entries_ok (view d2) = turn_entries_ok (view d)"
    unfolding turn_entries_ok_def keys using tk by (simp add: turn_keys_def)
  with prov c(3) keys show thesis by (rule that)
qed

lemma allowed_not_exceeded:
  assumes "provider_at (view d) csp q c" and "\<not> js_gt (js_Number c) (js_Number q)" and "turn_entries_ok (view d)"
  shows "snd (run (getAppropriateTurn md5 t r csp name) exec d)
    \<noteq> Rejected (JStr ''Unable to get a turn server : data consumption exceeded'')"
proof -
  let ?d = "fst (run (getCspInfoAndConso csp) exec (after_register csp (client_id md5 t csp name) d))"
  have v: "turn_entries_ok (view ?d)"
    using assms(3) after_register_turn by (simp add: getCspInfoAndConso_view turn_keys_def turn_entries_ok_def)
  show ?thesis
  proof (cases "turn_keys (view ?d) = {}")
    case True
    then show ?thesis using getAppropriateTurn_allowed[OF assms(1,2)] by (simp add: getTurnServers_none answer_turn_def)
  next
    case False
    then obtain ks rs where "snd (run getTurnServers exec ?d) = Fulfilled (JArr (map2 turn_entry ks rs))"
      using getTurnServers_some[OF False v] by blast
    then show ?thesis using getAppropriateTurn_allowed[OF assms(1,2)] by (simp add: answer_turn_def)
  qed
qed

end



definition demo_life :: mem where
  "demo_life = empty_mem\<lparr>m_dbs := (\<lambda>_. [])(2 := [(''users:u1'', MStr ''gamma''), (''turnservers:turn1'', MStr ''up'')])\<rparr>"

lemma demo_life_dbs: "dbs (mem_view demo_life) 2 k =
    (if k = ''users:u1'' then Some (Str ''gamma'') else if k = ''turnservers:turn1'' then Some (Str ''up'') else None)"
  by (simp add: mem_view_def demo_life_def empty_mem_def)


end
